(* ===== verification/Prelude.thy ===== *)
theory Prelude
  imports "HOL-Library.Word" "HOL-Library.Monad_Syntax"
begin

text \<open>
  What every component shares: the machine integers and byte buffers of the Rust code, the
  outcome of running a piece of it, checked arithmetic, slicing, big-endian bytes, and the
  standard library's UTF-8 check and socket addresses.

  Running code either returns a value or panics; \<open>'a run\<close> is an option in which \<open>None\<close> is
  the panic. The crate is built with \<^verbatim>\<open>overflow-checks = true\<close> (\<^verbatim>\<open>.cargo/config.toml\<close>), so an
  integer \<open>+\<close> or \<open>-\<close> whose exact result does not fit the type panics in the release build
  too: \<open>add_ck\<close> and \<open>sub_ck\<close>. Casts with \<^verbatim>\<open>as\<close> truncate (\<open>ucast\<close>). A \<^verbatim>\<open>usize\<close> is a \<open>nat\<close>:
  the code only forms buffer offsets with it, far below \<open>2 ^ 64\<close>.
\<close>

unbundle bit_operations_syntax

section \<open>Types\<close>

type_synonym byte = "8 word"
type_synonym u16 = "16 word"
type_synonym u32 = "32 word"
type_synonym u64 = "64 word"
type_synonym u128 = "128 word"
type_synonym buf = "byte list"
type_synonym 'a run = "'a option"

abbreviation (input) ok :: "'a \<Rightarrow> 'a run" where
  "ok \<equiv> Some"

abbreviation (input) panic :: "'a run" where
  "panic \<equiv> None"

named_theorems buf_simps \<comment> \<open>reading a buffer after writing it\<close>
named_theorems be_simps \<comment> \<open>big-endian bytes\<close>

section \<open>Checked arithmetic\<close>

definition add_ck :: "'a::len word \<Rightarrow> 'a word \<Rightarrow> 'a word run" where
  "add_ck a b = (if uint a + uint b < 2 ^ LENGTH('a) then ok (a + b) else panic)"

definition sub_ck :: "'a::len word \<Rightarrow> 'a word \<Rightarrow> 'a word run" where
  "sub_ck a b = (if b \<le> a then ok (a - b) else panic)"

definition mul_ck :: "'a::len word \<Rightarrow> 'a word \<Rightarrow> 'a word run" where
  "mul_ck a b = (if uint a * uint b < 2 ^ LENGTH('a) then ok (a * b) else panic)"

text \<open>\<^verbatim>\<open>checked_add\<close> of the standard library returns an \<open>Option\<close> and never panics.\<close>

definition checked_add :: "'a::len word \<Rightarrow> 'a word \<Rightarrow> 'a word option" where
  "checked_add a b = (if uint a + uint b < 2 ^ LENGTH('a) then Some (a + b) else None)"

lemma int_less_exp: "int m < 2 ^ n \<longleftrightarrow> m < 2 ^ n"
  by (metis of_nat_less_iff of_nat_numeral of_nat_power)

lemma uint_add_less:
  "uint (a :: 'a::len word) + uint b < 2 ^ LENGTH('a) \<longleftrightarrow> unat a + unat b < 2 ^ LENGTH('a)"
  using int_less_exp [of "unat a + unat b" "LENGTH('a)"] by simp

lemma unat_add_fits:
  "unat (a :: 'a::len word) + unat b < 2 ^ LENGTH('a) \<Longrightarrow> unat (a + b) = unat a + unat b"
  by (simp add: unat_word_ariths)

lemma unat_sub_fits: "unat (b :: 'a::len word) \<le> unat a \<Longrightarrow> unat (a - b) = unat a - unat b"
  by (simp add: unat_sub word_le_nat_alt)

lemma add_ck_fits [simp]:
  "unat (a :: 'a::len word) + unat b < 2 ^ LENGTH('a) \<Longrightarrow> add_ck a b = ok (a + b)"
  by (simp add: add_ck_def uint_add_less)

lemma checked_add_unat:
  "checked_add (a :: 'a::len word) b = (if unat a + unat b < 2 ^ LENGTH('a) then Some (a + b) else None)"
  by (simp add: checked_add_def uint_add_less)

lemma sub_ck_fits [simp]: "unat (b :: 'a::len word) \<le> unat a \<Longrightarrow> sub_ck a b = ok (a - b)"
  by (simp add: sub_ck_def word_le_nat_alt)

lemma mul_ck_fits:
  "unat (a :: 'a::len word) * unat b < 2 ^ LENGTH('a) \<Longrightarrow> mul_ck a b = ok (a * b)"
  using int_less_exp [of "unat a * unat b" "LENGTH('a)"] by (simp add: mul_ck_def)

lemma add_ck_unat: "add_ck a b = ok c \<Longrightarrow> unat c = unat a + unat b"
  by (auto simp: add_ck_def uint_add_less unat_add_fits split: if_splits)

lemma sub_ck_unat: "sub_ck a b = ok c \<Longrightarrow> unat c = unat a - unat b"
  by (auto simp: sub_ck_def word_le_nat_alt unat_sub_fits split: if_splits)

lemma u16_bound: "unat (x :: u16) < 65536"
  using unsigned_less [of x] by simp

lemma byte_bound: "unat (x :: byte) < 256"
  using unsigned_less [of x] by simp

lemma unat_of_nat_byte: "unat (of_nat n :: byte) = n mod 256"
  by (simp add: unat_of_nat)

lemma unat_of_nat_u16: "n < 65536 \<Longrightarrow> unat (of_nat n :: u16) = n"
  by (simp add: unat_of_nat)

section \<open>Slices\<close>

text \<open>
  \<open>sub b off n\<close> are the \<open>n\<close> bytes of \<open>b\<close> from \<open>off\<close>, \<open>overwrite b off bs\<close> is \<open>b\<close> with \<open>bs\<close>
  written at \<open>off\<close>. The code's \<^verbatim>\<open>b[off..][..n]\<close> panics when the range is not inside \<open>b\<close>
  (\<open>slice\<close>), and so does \<^verbatim>\<open>b[off..][..n].copy_from_slice(bs)\<close> (\<open>put\<close>).
\<close>

definition sub :: "'a list \<Rightarrow> nat \<Rightarrow> nat \<Rightarrow> 'a list" where
  "sub b off n = take n (drop off b)"

definition overwrite :: "'a list \<Rightarrow> nat \<Rightarrow> 'a list \<Rightarrow> 'a list" where
  "overwrite b off bs = take off b @ bs @ drop (off + length bs) b"

definition slice :: "'a list \<Rightarrow> nat \<Rightarrow> nat \<Rightarrow> 'a list run" where
  "slice b off n = (if off + n \<le> length b then ok (sub b off n) else panic)"

definition put :: "'a list \<Rightarrow> nat \<Rightarrow> 'a list \<Rightarrow> 'a list run" where
  "put b off bs = (if off + length bs \<le> length b then ok (overwrite b off bs) else panic)"

text \<open>\<^verbatim>\<open>copy_from_slice\<close> over a whole slice panics unless the two lengths agree.\<close>

definition copy_from_slice :: "'a list \<Rightarrow> 'a list \<Rightarrow> 'a list run" where
  "copy_from_slice dst src = (if length dst = length src then ok src else panic)"

text \<open>Indexing, \<^verbatim>\<open>b[i]\<close> and \<^verbatim>\<open>b[i] = v\<close>.\<close>

definition index :: "'a list \<Rightarrow> nat \<Rightarrow> 'a run" where
  "index b i = (if i < length b then ok (b ! i) else panic)"

definition assign :: "'a list \<Rightarrow> nat \<Rightarrow> 'a \<Rightarrow> 'a list run" where
  "assign b i v = (if i < length b then ok (b[i := v]) else panic)"

text \<open>\<^verbatim>\<open>assert!\<close> and \<^verbatim>\<open>unwrap\<close> on a \<open>Result\<close>.\<close>

definition assert :: "bool \<Rightarrow> unit run" where
  "assert c = (if c then ok () else panic)"

definition unwrap :: "('e + 'a) run \<Rightarrow> 'a run" where
  "unwrap r = do { x \<leftarrow> r; case x of Inl _ \<Rightarrow> panic | Inr v \<Rightarrow> ok v }"

lemma assert_True [simp]: "assert True = ok ()"
  by (simp add: assert_def)

lemma unwrap_Inr [simp]: "unwrap (Some (Inr v)) = ok v"
  by (simp add: unwrap_def)

lemma slice_ok [simp]: "off + n \<le> length b \<Longrightarrow> slice b off n = ok (sub b off n)"
  by (simp add: slice_def)

lemma put_ok [simp]: "off + length bs \<le> length b \<Longrightarrow> put b off bs = ok (overwrite b off bs)"
  by (simp add: put_def)

lemma length_sub [simp]: "length (sub b off n) = min n (length b - off)"
  by (simp add: sub_def)

lemma length_overwrite [simp]: "off + length bs \<le> length b \<Longrightarrow> length (overwrite b off bs) = length b"
  by (simp add: overwrite_def)

lemma sub_sub [buf_simps]: "i + m \<le> n \<Longrightarrow> sub (sub b off n) i m = sub b (off + i) m"
  by (simp add: sub_def drop_take add.commute)

lemma sub_drop [buf_simps]: "sub (drop k b) off n = sub b (k + off) n"
  by (simp add: sub_def add.commute)

lemma sub_take [buf_simps]: "off + n \<le> k \<Longrightarrow> sub (take k b) off n = sub b off n"
  by (simp add: sub_def drop_take)

lemma sub_overwrite_before [buf_simps]:
  "off + n \<le> i \<Longrightarrow> i \<le> length b \<Longrightarrow> sub (overwrite b i bs) off n = sub b off n"
  by (simp add: sub_def overwrite_def drop_take)

lemma sub_overwrite_after [buf_simps]:
  assumes "i + length bs \<le> off" and "i + length bs \<le> length b"
  shows "sub (overwrite b i bs) off n = sub b off n"
proof -
  from assms have "off - (i + length bs) + (i + length bs) = off" by simp
  with assms show ?thesis
    by (simp add: sub_def overwrite_def drop_append)
qed

lemma sub_overwrite_inside [buf_simps]:
  "i \<le> off \<Longrightarrow> off + n \<le> i + length bs \<Longrightarrow> i \<le> length b \<Longrightarrow>
    sub (overwrite b i bs) off n = sub bs (off - i) n"
  by (simp add: sub_def overwrite_def)

lemma sub_all [buf_simps]: "length b = n \<Longrightarrow> sub b 0 n = b"
  by (simp add: sub_def)

lemma sub_append_left [buf_simps]: "off + n \<le> length a \<Longrightarrow> sub (a @ b) off n = sub a off n"
  by (simp add: sub_def)

lemma sub_append_right [buf_simps]:
  "length a \<le> off \<Longrightarrow> sub (a @ b) off n = sub b (off - length a) n"
  by (simp add: sub_def)

lemma sub_zero [simp]: "sub b off 0 = []"
  by (simp add: sub_def)

lemma take_sub: "take n b = sub b 0 n"
  by (simp add: sub_def)

lemma sub_concat: "sub b off n @ sub b (off + n) m = sub b off (n + m)"
  by (simp add: sub_def take_add add.commute [of off])

lemma split_sub: "take off b @ sub b off n @ drop (off + n) b = b"
  by (metis append_take_drop_id drop_drop sub_def add.commute)

lemma first_two: "2 \<le> length v \<Longrightarrow> \<exists>a b r. v = a # b # r"
  by (auto simp: Suc_le_length_iff numeral_2_eq_2)

lemma first_four_elems: "4 \<le> length v \<Longrightarrow> \<exists>a b c d r. v = a # b # c # d # r"
  using first_two [of v] first_two [of "drop 2 v"] by auto

section \<open>Big-endian bytes\<close>

text \<open>
  \<open>be_nat\<close> and \<open>be_bytes\<close> are the same conversions on numbers; the facts about bytes are proved
  on them.
\<close>

primrec be_bytes :: "nat \<Rightarrow> nat \<Rightarrow> byte list" where
  "be_bytes 0 x = []"
| "be_bytes (Suc n) x = be_bytes n (x div 256) @ [of_nat x]"

definition be_nat :: "byte list \<Rightarrow> nat" where
  "be_nat bs = foldl (\<lambda>a b. 256 * a + unat b) 0 bs"

definition to_be_bytes :: "'a::len word \<Rightarrow> byte list" where
  "to_be_bytes w = map (\<lambda>i. ucast (drop_bit (8 * i) w)) (rev [0..<LENGTH('a) div 8])"

definition from_be_bytes :: "byte list \<Rightarrow> 'a::len word" where
  "from_be_bytes bs = foldl (\<lambda>a b. a * 256 + ucast b) 0 bs"

lemma be_nat_Nil [simp]: "be_nat [] = 0"
  by (simp add: be_nat_def)

lemma be_nat_snoc [simp]: "be_nat (bs @ [b]) = 256 * be_nat bs + unat b"
  by (simp add: be_nat_def)

lemma be_nat_bound: "be_nat bs < 256 ^ length bs"
proof (induction bs rule: rev_induct)
  case Nil
  show ?case by simp
next
  case (snoc b bs)
  then show ?case using byte_bound [of b] by simp
qed

lemma length_be_bytes [simp]: "length (be_bytes n x) = n"
  by (induction n arbitrary: x) auto

lemma be_nat_be_bytes: "be_nat (be_bytes n x) = x mod 256 ^ n"
proof (induction n arbitrary: x)
  case 0
  show ?case by simp
next
  case (Suc n)
  have "x mod (256 * 256 ^ n) = 256 * (x div 256 mod 256 ^ n) + x mod 256"
    by (rule mod_mult2_eq)
  with Suc show ?case by (simp add: unat_of_nat)
qed

lemma be_bytes_be_nat: "be_bytes (length bs) (be_nat bs) = bs"
proof (induction bs rule: rev_induct)
  case Nil
  show ?case by simp
next
  case (snoc b bs)
  have "(256 * be_nat bs + unat b) div 256 = be_nat bs"
    using byte_bound [of b] by simp
  moreover have "(of_nat (256 * be_nat bs + unat b) :: byte) = b"
    by (metis byte_bound mod_less mod_mult_self4 unat_of_nat_byte word_unat_eq_iff)
  ultimately show ?case using snoc.IH by simp
qed

lemma be_bytes_map: "be_bytes n x = map (\<lambda>i. of_nat (x div 256 ^ i)) (rev [0..<n])"
proof (induction n arbitrary: x)
  case (Suc n)
  have "rev [0..<Suc n] = map Suc (rev [0..<n]) @ [0]"
    by (simp add: map_Suc_upt rev_map upt_conv_Cons flip: rev_map)
  then show ?case by (simp add: Suc div_mult2_eq)
qed simp

lemma to_be_bytes_nat: "to_be_bytes (w :: 'a::len word) = be_bytes (LENGTH('a) div 8) (unat w)"
proof -
  have "(ucast (drop_bit (8 * i) w) :: byte) = of_nat (unat w div 256 ^ i)" for i
    by (rule word_unat_eq_iff [THEN iffD2])
      (simp add: unsigned_ucast_eq take_bit_nat_def unat_drop_bit_eq drop_bit_nat_def unat_of_nat_byte power_mult)
  then show ?thesis by (simp add: to_be_bytes_def be_bytes_map)
qed

lemma from_be_bytes_nat: "from_be_bytes bs = (of_nat (be_nat bs) :: 'a::len word)"
  by (induction bs rule: rev_induct) (simp_all add: from_be_bytes_def mult.commute)

lemma length_to_be_bytes [simp]: "length (to_be_bytes (w :: 'a::len word)) = LENGTH('a) div 8"
  by (simp add: to_be_bytes_nat)

lemma from_to_be_bytes [be_simps]:
  assumes "8 dvd LENGTH('a)"
  shows "from_be_bytes (to_be_bytes w) = (w :: 'a::len word)"
proof -
  from assms obtain k where k: "LENGTH('a) = 8 * k" by (rule dvdE)
  have "unat w < 256 ^ k"
    using unsigned_less [of w] by (simp add: k power_mult)
  then show ?thesis
    by (simp add: from_be_bytes_nat to_be_bytes_nat be_nat_be_bytes k)
qed

lemma to_from_be_bytes [be_simps]:
  assumes "8 dvd LENGTH('a)" and "length bs = LENGTH('a) div 8"
  shows "to_be_bytes (from_be_bytes bs :: 'a::len word) = bs"
proof -
  from assms(1) obtain k where k: "LENGTH('a) = 8 * k" by (rule dvdE)
  have "be_nat bs < 2 ^ LENGTH('a)"
    using be_nat_bound [of bs] assms(2) by (simp add: k power_mult)
  then have "unat (from_be_bytes bs :: 'a word) = be_nat bs"
    by (simp add: from_be_bytes_nat unat_of_nat)
  then show ?thesis
    using assms(2) be_bytes_be_nat [of bs] by (simp add: to_be_bytes_nat)
qed

lemma to_be_bytes_u16: "to_be_bytes (w :: u16) = [of_nat (unat w div 256), of_nat (unat w)]"
  by (simp add: to_be_bytes_nat numeral_2_eq_2)

lemma to_be_bytes_byte: "to_be_bytes (w :: byte) = [w]"
  by (simp add: to_be_bytes_nat)

lemma to_be_bytes_inject:
  "8 dvd LENGTH('a) \<Longrightarrow> (to_be_bytes w = to_be_bytes v) = (w = (v :: 'a::len word))"
  by (metis from_to_be_bytes)

section \<open>Strings\<close>

text \<open>
  A \<^verbatim>\<open>&str\<close> is its UTF-8 bytes. \<open>utf8_valid\<close> is the check of \<^verbatim>\<open>core::str::from_utf8\<close>: the
  well-formed byte sequences of the Unicode standard (no overlong forms, no surrogates,
  nothing above U+10FFFF).
\<close>

type_synonym str = "byte list"

definition utf8_cont :: "byte \<Rightarrow> bool" where
  "utf8_cont b \<longleftrightarrow> 0x80 \<le> b \<and> b \<le> 0xBF"

fun utf8_valid :: "byte list \<Rightarrow> bool" where
  "utf8_valid [] = True"
| "utf8_valid (a # rest) =
    (if a < 0x80 then utf8_valid rest
     else if 0xC2 \<le> a \<and> a \<le> 0xDF then
       (case rest of b # rest1 \<Rightarrow> utf8_cont b \<and> utf8_valid rest1 | _ \<Rightarrow> False)
     else if 0xE0 \<le> a \<and> a \<le> 0xEF then
       (case rest of b # c # rest2 \<Rightarrow>
          (if a = 0xE0 then 0xA0 \<le> b \<and> b \<le> 0xBF
           else if a = 0xED then 0x80 \<le> b \<and> b \<le> 0x9F
           else utf8_cont b) \<and> utf8_cont c \<and> utf8_valid rest2
        | _ \<Rightarrow> False)
     else if 0xF0 \<le> a \<and> a \<le> 0xF4 then
       (case rest of b # c # d # rest3 \<Rightarrow>
          (if a = 0xF0 then 0x90 \<le> b \<and> b \<le> 0xBF
           else if a = 0xF4 then 0x80 \<le> b \<and> b \<le> 0x8F
           else utf8_cont b) \<and> utf8_cont c \<and> utf8_cont d \<and> utf8_valid rest3
        | _ \<Rightarrow> False)
     else False)"

definition str_lit :: "string \<Rightarrow> str" where
  "str_lit s = map of_char s"

lemma utf8_valid_ascii: "(\<forall>b \<in> set bs. b < 0x80) \<Longrightarrow> utf8_valid bs"
  by (induction bs) auto

section \<open>Socket addresses\<close>

text \<open>
  \<^verbatim>\<open>core::net\<close>: an IPv4 address is 32 bits, an IPv6 address 128 bits, \<^verbatim>\<open>octets\<close> are its
  big-endian bytes. The code builds every \<^verbatim>\<open>SocketAddrV6\<close> with flow label and scope 0, so an
  address is an IP address and a port.
\<close>

datatype ip_addr = IpV4 u32 | IpV6 u128

datatype socket_addr = SocketAddr (sa_ip: ip_addr) (sa_port: u16)

record socket_addr_v6 =
  v6_ip :: u128
  v6_port :: u16

definition sa_of_v6 :: "socket_addr_v6 \<Rightarrow> socket_addr" where
  "sa_of_v6 a = SocketAddr (IpV6 (v6_ip a)) (v6_port a)"

definition is_ipv4 :: "socket_addr \<Rightarrow> bool" where
  "is_ipv4 a = (case sa_ip a of IpV4 _ \<Rightarrow> True | IpV6 _ \<Rightarrow> False)"

section \<open>Tables of addresses\<close>

text \<open>
  \<open>relay_table\<close> is what delivery relies on where a server gives addresses to the keys of a table and finds the key again from an
  address: the relayed addresses of TCP connections, and the MAC addresses of SCTP associations. No two keys share an
  address, and what is sent to the key that is found for an address reaches the holder of the address.
\<close>

locale relay_table =
  fixes give :: "'k \<Rightarrow> 'a option" and find :: "'a \<Rightarrow> 'k option" and key_ok :: "'k \<Rightarrow> bool"
  assumes find_given: "key_ok k \<Longrightarrow> give k = Some a \<Longrightarrow> find a = Some k"
begin

lemma given_once: "key_ok k \<Longrightarrow> key_ok k' \<Longrightarrow> give k = Some a \<Longrightarrow> give k' = Some a \<Longrightarrow> k = k'"
  using find_given [of k a] find_given [of k' a] by simp

end

end
