(* ===== verification/Stun_Header.thy ===== *)
theory Stun_Header
  imports Prelude
begin

text \<open>
  The STUN message header: \<^verbatim>\<open>src/stun/mod.rs\<close>, the accessors its \<^verbatim>\<open>declare!\<close> macro generates
  (\<^verbatim>\<open>src/stun/util.rs\<close>) and the header operations of \<^verbatim>\<open>src/stun/stun.rs\<close>.

  The struct \<^verbatim>\<open>Stun\<close> wraps a buffer and nothing else, so a message is its buffer. Every accessor
  slices the buffer and panics when it is too short. The fields lie at the offsets the macro
  accumulates: the type at 0, the length at 2, the cookie at 4, the transaction id at 8, and
  \<^verbatim>\<open>MIN_LEN\<close> is 20.
\<close>

section \<open>Data\<close>

type_synonym stun = buf

definition MAGIC_COOKIE :: u32 where
  "MAGIC_COOKIE = 0x2112A442"

datatype stun_class = Request | Indication | Success | Error

lemmas class_splits = stun_class.splits

text \<open>\<^verbatim>\<open>spec_enum!\<close> adds a variant \<^verbatim>\<open>Unknown = -1\<close> to the declared methods.\<close>

datatype stun_method = Unknown | Binding | Allocate | Refresh | Send | Data | CreatePermission
  | ChannelBind

datatype stun_error = NotStun | TooShort nat

text \<open>\<^verbatim>\<open>impl From<u16> for Method\<close> and the cast \<^verbatim>\<open>method as u16\<close>.\<close>

definition method_of_u16 :: "u16 \<Rightarrow> stun_method" where
  "method_of_u16 v =
     (if v = 0x001 then Binding else if v = 0x003 then Allocate else if v = 0x004 then Refresh
      else if v = 0x006 then Send else if v = 0x007 then Data
      else if v = 0x008 then CreatePermission else if v = 0x009 then ChannelBind
      else Unknown)"

fun u16_of_method :: "stun_method \<Rightarrow> u16" where
  "u16_of_method Unknown = 0xFFFF"
| "u16_of_method Binding = 0x001"
| "u16_of_method Allocate = 0x003"
| "u16_of_method Refresh = 0x004"
| "u16_of_method Send = 0x006"
| "u16_of_method Data = 0x007"
| "u16_of_method CreatePermission = 0x008"
| "u16_of_method ChannelBind = 0x009"

section \<open>Accessors\<close>

definition get_be :: "buf \<Rightarrow> nat \<Rightarrow> nat \<Rightarrow> 'a::len word run" where
  "get_be b offset len = do { bs \<leftarrow> slice b offset len; ok (from_be_bytes bs) }"

definition set_be :: "buf \<Rightarrow> nat \<Rightarrow> 'a::len word \<Rightarrow> buf run" where
  "set_be b offset value = put b offset (to_be_bytes value)"

definition stun_new :: "buf \<Rightarrow> stun run" where
  "stun_new b = do { assert (20 \<le> length b); ok b }"

definition get_typ :: "stun \<Rightarrow> u16 run" where
  "get_typ b = get_be b 0 2"

definition get_length :: "stun \<Rightarrow> u16 run" where
  "get_length b = get_be b 2 2"

definition get_cookie :: "stun \<Rightarrow> u32 run" where
  "get_cookie b = get_be b 4 4"

definition get_txid :: "stun \<Rightarrow> byte list run" where
  "get_txid b = slice b 8 12"

definition set_typ :: "u16 \<Rightarrow> stun \<Rightarrow> stun run" where
  "set_typ v b = set_be b 0 v"

definition set_length :: "u16 \<Rightarrow> stun \<Rightarrow> stun run" where
  "set_length v b = set_be b 2 v"

definition set_cookie :: "u32 \<Rightarrow> stun \<Rightarrow> stun run" where
  "set_cookie v b = set_be b 4 v"

text \<open>\<^verbatim>\<open>set_txid\<close> hands out the twelve bytes as a mutable array; its caller fills them.\<close>

definition set_txid :: "byte list \<Rightarrow> stun \<Rightarrow> stun run" where
  "set_txid bs b = put b 8 bs"

definition stun_len :: "stun \<Rightarrow> nat run" where
  "stun_len b = do { n \<leftarrow> get_length b; ok (unat n + 20) }"

section \<open>Header operations\<close>

definition decode :: "stun \<Rightarrow> nat \<Rightarrow> (stun_error + unit) run" where
  "decode b len = do {
     assert (len \<le> length b);
     if len < 2 then ok (Inl (TooShort 2)) else do {
     typ \<leftarrow> get_typ b;
     if drop_bit 14 typ \<noteq> 0 then ok (Inl NotStun) else
     if len < 4 then ok (Inl (TooShort 4)) else do {
     n \<leftarrow> get_length b;
     if n mod 4 \<noteq> 0 then ok (Inl NotStun) else
     if len < 8 then ok (Inl (TooShort 8)) else do {
     cookie \<leftarrow> get_cookie b;
     if cookie \<noteq> MAGIC_COOKIE then ok (Inl NotStun) else do {
     n \<leftarrow> get_length b;
     let exp_len = 20 + unat n;
     if len < exp_len then ok (Inl (TooShort exp_len))
     else ok (Inr ()) }}}}
   }"

definition get_class :: "stun \<Rightarrow> stun_class run" where
  "get_class b = do {
     typ \<leftarrow> get_typ b;
     let c = typ AND 0x0110;
     if c = 0x0000 then ok Request
     else if c = 0x0010 then ok Indication
     else if c = 0x0100 then ok Success
     else if c = 0x0110 then ok Error
     else panic
   }"

definition raw_method_of :: "u16 \<Rightarrow> u16" where
  "raw_method_of typ =
     drop_bit 2 (typ AND 0x3E00) OR drop_bit 1 (typ AND 0x00E0) OR (typ AND 0x000F)"

definition raw_method :: "stun \<Rightarrow> u16 run" where
  "raw_method b = do { typ \<leftarrow> get_typ b; ok (raw_method_of typ) }"

definition get_method :: "stun \<Rightarrow> stun_method run" where
  "get_method b = do { m \<leftarrow> raw_method b; ok (method_of_u16 m) }"

fun class_bits :: "stun_class \<Rightarrow> u16" where
  "class_bits Request = 0x0000"
| "class_bits Indication = 0x0010"
| "class_bits Success = 0x0100"
| "class_bits Error = 0x0110"

definition typ_with_class :: "stun_class \<Rightarrow> u16 \<Rightarrow> u16" where
  "typ_with_class c typ = (typ AND NOT 0x0110) OR class_bits c"

definition set_class :: "stun_class \<Rightarrow> stun \<Rightarrow> stun run" where
  "set_class c b = do { typ \<leftarrow> get_typ b; set_typ (typ_with_class c typ) b }"

definition typ_with_method :: "u16 \<Rightarrow> u16 \<Rightarrow> u16" where
  "typ_with_method m typ =
     (typ AND 0x0110) OR push_bit 2 (m AND 0x1F80) OR push_bit 1 (m AND 0x0070) OR (m AND 0x000F)"

definition set_raw_method :: "u16 \<Rightarrow> stun \<Rightarrow> stun run" where
  "set_raw_method m b = do {
     assert (m \<le> 0xFFF);
     typ \<leftarrow> get_typ b;
     set_typ (typ_with_method m typ) b
   }"

definition set_method :: "stun_method \<Rightarrow> stun \<Rightarrow> stun run" where
  "set_method m b = set_raw_method (u16_of_method m) b"

section \<open>The header as fields\<close>

text \<open>
  On a buffer of at least 20 bytes every accessor succeeds; the four fields are then plain
  values, and each setter changes its own field only.
\<close>

definition typ_of :: "stun \<Rightarrow> u16" where "typ_of b = from_be_bytes (sub b 0 2)"
definition length_of :: "stun \<Rightarrow> u16" where "length_of b = from_be_bytes (sub b 2 2)"
definition cookie_of :: "stun \<Rightarrow> u32" where "cookie_of b = from_be_bytes (sub b 4 4)"
definition txid_of :: "stun \<Rightarrow> byte list" where "txid_of b = sub b 8 12"

lemmas field_defs = typ_of_def length_of_def cookie_of_def txid_of_def
lemmas accessor_defs = get_typ_def get_length_def get_cookie_def get_txid_def set_typ_def
  set_length_def set_cookie_def set_txid_def get_be_def set_be_def

lemma get_fields [simp]:
  "2 \<le> length b \<Longrightarrow> get_typ b = ok (typ_of b)"
  "4 \<le> length b \<Longrightarrow> get_length b = ok (length_of b)"
  "8 \<le> length b \<Longrightarrow> get_cookie b = ok (cookie_of b)"
  "20 \<le> length b \<Longrightarrow> get_txid b = ok (txid_of b)"
  by (simp_all add: accessor_defs field_defs)

lemma set_fields [simp]:
  "2 \<le> length b \<Longrightarrow> set_typ t b = ok (overwrite b 0 (to_be_bytes t))"
  "4 \<le> length b \<Longrightarrow> set_length n b = ok (overwrite b 2 (to_be_bytes n))"
  "8 \<le> length b \<Longrightarrow> set_cookie c b = ok (overwrite b 4 (to_be_bytes c))"
  "20 \<le> length b \<Longrightarrow> length bs = 12 \<Longrightarrow> set_txid bs b = ok (overwrite b 8 bs)"
  by (simp_all add: accessor_defs)

text \<open>A write inside one field reads back as that field and leaves the others alone.\<close>

lemma fields_of_overwrite:
  assumes "20 \<le> length b"
  shows "typ_of (overwrite b 0 (to_be_bytes t)) = t"
    and "length_of (overwrite b 2 (to_be_bytes n)) = n"
    and "cookie_of (overwrite b 4 (to_be_bytes c)) = c"
    and "length bs = 12 \<Longrightarrow> txid_of (overwrite b 8 bs) = bs"
    and "off + length bs \<le> length b \<Longrightarrow> 2 \<le> off \<Longrightarrow> typ_of (overwrite b off bs) = typ_of b"
    and "off + length bs \<le> length b \<Longrightarrow> off + length bs \<le> 2 \<or> 4 \<le> off \<Longrightarrow>
      length_of (overwrite b off bs) = length_of b"
    and "off + length bs \<le> length b \<Longrightarrow> off + length bs \<le> 4 \<or> 8 \<le> off \<Longrightarrow>
      cookie_of (overwrite b off bs) = cookie_of b"
    and "off + length bs \<le> length b \<Longrightarrow> off + length bs \<le> 8 \<or> 20 \<le> off \<Longrightarrow>
      txid_of (overwrite b off bs) = txid_of b"
  using assms by (auto simp: field_defs buf_simps be_simps)

section \<open>Class and method\<close>

text \<open>
  The message type interleaves the method's 12 bits with the two class bits. Facts about these
  masks are checked bit by bit; \<open>bits16\<close> are the positions of a 16-bit word.
\<close>

lemma bits16: "(n :: nat) < 16 \<longleftrightarrow> n \<in> {0, 1, 2, 3, 4, 5, 6, 7, 8, 9, 10, 11, 12, 13, 14, 15}"
  by (simp only: insert_iff empty_iff) presburger

lemma u16_eqI: "(\<And>n. n < 16 \<Longrightarrow> bit (v :: u16) n = bit w n) \<Longrightarrow> v = w"
  by (rule bit_word_eqI) simp

lemma u16_split_bits:
  "bit v 0 = bit w 0 \<Longrightarrow> bit v 1 = bit w 1 \<Longrightarrow> bit v 2 = bit w 2 \<Longrightarrow> bit v 3 = bit w 3 \<Longrightarrow>
   bit v 4 = bit w 4 \<Longrightarrow> bit v 5 = bit w 5 \<Longrightarrow> bit v 6 = bit w 6 \<Longrightarrow> bit v 7 = bit w 7 \<Longrightarrow>
   bit v 8 = bit w 8 \<Longrightarrow> bit v 9 = bit w 9 \<Longrightarrow> bit v 10 = bit w 10 \<Longrightarrow> bit v 11 = bit w 11 \<Longrightarrow>
   bit v 12 = bit w 12 \<Longrightarrow> bit v 13 = bit w 13 \<Longrightarrow> bit v 14 = bit w 14 \<Longrightarrow> bit v 15 = bit w 15 \<Longrightarrow>
   v = (w :: u16)"
  by (rule u16_eqI) (auto simp: bits16)

lemma u16_high_bits [simp]: "16 \<le> n \<Longrightarrow> \<not> bit (t :: u16) n"
  using bit_imp_le_length [of t n] by auto

lemma u16_double_bit: "bit (m * 2 :: u16) n \<longleftrightarrow> 0 < n \<and> n < 16 \<and> bit m (n - 1)"
  by (subst mult.commute) (auto simp: bit_double_iff)

lemma u12_high_bits: "m \<le> 0xFFF \<Longrightarrow> 12 \<le> n \<Longrightarrow> \<not> bit (m :: u16) n"
proof -
  assume "m \<le> 0xFFF" and n: "12 \<le> n"
  then have "unat m < 2 ^ 12" by (simp add: word_le_nat_alt)
  then have "take_bit 12 m = m"
    by (simp add: word_unat_eq_iff unsigned_take_bit_eq take_bit_nat_eq_self)
  then show ?thesis using n by (metis bit_take_bit_iff not_less)
qed

lemmas type_bits = typ_with_class_def typ_with_method_def raw_method_of_def bit_simps
  u16_double_bit u12_high_bits

lemma class_bits_cases: "(t AND 0x0110 :: u16) \<in> {0, 0x0010, 0x0100, 0x0110}"
proof -
  have "t AND 0x0110 = (if bit t 4 then if bit t 8 then 0x0110 else 0x0010
     else if bit t 8 then 0x0100 else 0)"
    by (rule u16_split_bits; simp add: bit_simps)
  then show ?thesis by auto
qed

lemma class_of_typ_with_class: "typ_with_class c t AND 0x0110 = class_bits c"
  by (cases c) (rule u16_split_bits; simp add: type_bits)+

lemma method_of_typ_with_class: "raw_method_of (typ_with_class c t) = raw_method_of t"
  by (cases c) (rule u16_split_bits; simp add: type_bits)+

lemma top_of_typ_with_class: "drop_bit 14 (typ_with_class c t) = drop_bit 14 t"
  by (cases c) (rule u16_split_bits; simp add: type_bits)+

lemma class_of_typ_with_method: "typ_with_method m t AND 0x0110 = t AND 0x0110"
  by (rule u16_split_bits; simp add: type_bits)

lemma method_of_typ_with_method: "m \<le> 0xFFF \<Longrightarrow> raw_method_of (typ_with_method m t) = m"
  by (rule u16_split_bits; simp add: type_bits)

lemma top_of_typ_with_method: "m \<le> 0xFFF \<Longrightarrow> drop_bit 14 (typ_with_method m t) = 0"
  by (rule u16_split_bits; simp add: type_bits)

lemma class_bits_inject: "class_bits c = class_bits d \<longleftrightarrow> c = d"
  by (cases c; cases d) simp_all

lemma binding_request_typ:
  assumes "drop_bit 14 t = 0" and "t AND 0x0110 = 0" and "raw_method_of t = 1"
  shows "t = (1 :: u16)"
proof -
  have b: "bit (drop_bit 14 t) n = bit (0 :: u16) n" "bit (t AND 0x0110) n = bit (0 :: u16) n"
    "bit (raw_method_of t) n = bit (1 :: u16) n" for n
    using assms by simp_all
  show ?thesis
    by (rule u16_split_bits;
        use b(1) [of 0] b(1) [of 1] b(2) [of 4] b(2) [of 8] b(3) [of 0] b(3) [of 1] b(3) [of 2] b(3) [of 3]
          b(3) [of 4] b(3) [of 5] b(3) [of 6] b(3) [of 7] b(3) [of 8] b(3) [of 9] b(3) [of 10] b(3) [of 11]
        in \<open>simp add: type_bits\<close>)
qed

text \<open>The class and the method of a header, as the code reads them; \<open>unreachable!\<close> is.\<close>

definition class_of :: "stun \<Rightarrow> stun_class" where
  "class_of b = (if typ_of b AND 0x0110 = 0 then Request
     else if typ_of b AND 0x0110 = 0x0010 then Indication
     else if typ_of b AND 0x0110 = 0x0100 then Success else Error)"

definition method_of :: "stun \<Rightarrow> stun_method" where
  "method_of b = method_of_u16 (raw_method_of (typ_of b))"

lemma get_class_ok [simp]: "2 \<le> length b \<Longrightarrow> get_class b = ok (class_of b)"
  using class_bits_cases [of "typ_of b"] by (auto simp: get_class_def class_of_def Let_def)

lemma get_method_ok [simp]: "2 \<le> length b \<Longrightarrow> get_method b = ok (method_of b)"
  by (simp add: get_method_def raw_method_def method_of_def)

lemma class_of_eqI: "typ_of b AND 0x0110 = class_bits c \<Longrightarrow> class_of b = c"
  by (cases c) (simp_all add: class_of_def)

lemma class_of_overwrite_class:
  "20 \<le> length b \<Longrightarrow> class_of (overwrite b 0 (to_be_bytes (typ_with_class c t))) = c"
  by (rule class_of_eqI) (simp add: fields_of_overwrite class_of_typ_with_class)

text \<open>
  \<open>decode\<close> reads only the bytes the caller says are filled, and it panics only on a caller that
  claims more bytes than the buffer has.
\<close>

lemma decode_ok:
  assumes "len \<le> length b"
  shows "decode b len = ok
    (if len < 2 then Inl (TooShort 2)
     else if drop_bit 14 (typ_of b) \<noteq> 0 then Inl NotStun
     else if len < 4 then Inl (TooShort 4)
     else if length_of b mod 4 \<noteq> 0 then Inl NotStun
     else if len < 8 then Inl (TooShort 8)
     else if cookie_of b \<noteq> MAGIC_COOKIE then Inl NotStun
     else if len < 20 + unat (length_of b) then Inl (TooShort (20 + unat (length_of b)))
     else Inr ())"
  using assms by (simp add: decode_def Let_def)

lemma decode_Inr:
  "len \<le> length b \<Longrightarrow> decode b len = ok (Inr ()) \<longleftrightarrow>
    drop_bit 14 (typ_of b) = 0 \<and> length_of b mod 4 = 0 \<and> cookie_of b = MAGIC_COOKIE \<and>
    20 + unat (length_of b) \<le> len"
  by (auto simp: decode_ok)

end
