(* ===== verification/Stun_Error.thy ===== *)
theory Stun_Error
  imports Stun_Header
begin

text \<open>
  \<^verbatim>\<open>src/stun/error.rs\<close>: how an error is printed and which kind of I/O error it becomes. The text of \<open>TooShort\<close> determines
  the number of bytes that a retry needs; \<open>NotStun\<close> prints as nothing. Also the fields that the \<^verbatim>\<open>Debug\<close> instance of
  \<^verbatim>\<open>Stun\<close> (\<^verbatim>\<open>src/stun/stun.rs\<close>) prints.
\<close>

datatype error_kind = InvalidInput | UnexpectedEof

fun io_error_kind :: "stun_error \<Rightarrow> error_kind" where
  "io_error_kind NotStun = InvalidInput"
| "io_error_kind (TooShort needed) = UnexpectedEof"

text \<open>A number in decimal, as \<^verbatim>\<open>format_args!\<close> prints it.\<close>

fun decimal :: "nat \<Rightarrow> str" where
  "decimal n = (if n < 10 then [0x30 + of_nat n] else decimal (n div 10) @ [0x30 + of_nat (n mod 10)])"

declare decimal.simps [simp del]

fun display_error :: "stun_error \<Rightarrow> str" where
  "display_error NotStun = []"
| "display_error (TooShort needed) =
     str_lit ''Buffer too small or not filled with enough data. The operation can be retried with at least '' @
     decimal needed @ str_lit '' bytes.''"

definition read_decimal :: "str \<Rightarrow> nat" where
  "read_decimal s = foldl (\<lambda>n c. 10 * n + unat (c - 0x30)) 0 s"

lemma read_decimal: "read_decimal (decimal n) = n"
proof (induction n rule: decimal.induct)
  case (1 n)
  have digit: "unat (of_nat k :: byte) = k" if "k < 10" for k
    using that by (simp add: unat_of_nat take_bit_nat_eq_self)
  show ?case
    using 1 digit [of n] digit [of "n mod 10"] by (subst decimal.simps) (simp add: read_decimal_def)
qed

lemma display_error_inject: "display_error e = display_error e' \<longleftrightarrow> e = e'"
proof (cases e; cases e')
  fix n n' assume "e = TooShort n" "e' = TooShort n'"
  then have "display_error e = display_error e' \<longleftrightarrow> decimal n = decimal n'" "e = e' \<longleftrightarrow> n = n'" by simp_all
  then show ?thesis using read_decimal by metis
qed (simp_all add: str_lit_def)

section \<open>Debugging output\<close>

datatype debug_val = DebugClass stun_class | DebugMethod stun_method | DebugBytes "byte list" | DebugU16 u16

definition stun_debug :: "stun \<Rightarrow> (string \<times> debug_val) list run" where
  "stun_debug b = do {
     c \<leftarrow> get_class b;
     m \<leftarrow> get_method b;
     txid \<leftarrow> get_txid b;
     n \<leftarrow> get_length b;
     ok [(''class'', DebugClass c), (''method'', DebugMethod m), (''txid'', DebugBytes txid), (''length'', DebugU16 n)] }"

lemma stun_debug_total: "20 \<le> length b \<Longrightarrow> stun_debug b \<noteq> panic"
  by (simp add: stun_debug_def)

end
