(* ===== verification/Stun_Attr.thy ===== *)
theory Stun_Attr
  imports Stun_Header
begin

text \<open>
  Attributes of a STUN message: the traits and attribute numbers of \<^verbatim>\<open>src/stun/attr.rs\<close>, the
  iterator of \<^verbatim>\<open>src/stun/attr/attrs.rs\<close> and \<^verbatim>\<open>Stun::append\<close> of \<^verbatim>\<open>src/stun/stun.rs\<close>.

  A slice borrowed from the message buffer is its address, relative to the start of the buffer,
  and its bytes. An implementation of the trait \<^verbatim>\<open>AttrEnc\<close> for a value is a record \<open>attr_enc\<close>:
  the length it announces and the function that fills the value's bytes.

  The relation \<open>tiles\<close> is the abstract view of an attribute area: the list of attributes laid
  out one after the other. The iterator yields exactly that list, and \<open>stun_append\<close> adds one
  attribute at its end, with the same prefix (for HMAC and CRC) on both sides.
\<close>

section \<open>Prefixes and trait dictionaries\<close>

type_synonym bytes_ref = "nat \<times> byte list"

record prefix =
  first_four :: "byte list"
  prefix_rest :: "byte list"

type_synonym item = "prefix \<times> u16 \<times> bytes_ref"

record attr_enc =
  enc_length :: "u16 run"
  enc_write :: "prefix \<Rightarrow> buf \<Rightarrow> buf run"

type_synonym ('e, 'a) attr_decode = "prefix \<Rightarrow> bytes_ref \<Rightarrow> ('e + 'a) run"

fun xor_loop :: "byte list \<Rightarrow> byte list \<Rightarrow> byte list run" where
  "xor_loop p [] = ok []"
| "xor_loop [] (b # bs) = panic"
| "xor_loop (p # ps) (b # bs) = do { r \<leftarrow> xor_loop ps bs; ok ((b XOR p) # r) }"

definition xor_bytes :: "prefix \<Rightarrow> byte list \<Rightarrow> byte list run" where
  "xor_bytes p dest = do { assert (length dest \<le> 16); xor_loop (prefix_rest p) dest }"

text \<open>
  \<^verbatim>\<open>reduce_over_prefix\<close> feeds the first four bytes and then the rest to a hasher; the input of the
  hasher is the concatenation of what it is fed.
\<close>

definition reduce_over_prefix :: "prefix \<Rightarrow> byte list" where
  "reduce_over_prefix p = first_four p @ prefix_rest p"

definition MAPPED_ADDRESS :: u16 where "MAPPED_ADDRESS = 0x0001"
definition USERNAME :: u16 where "USERNAME = 0x0006"
definition MESSAGE_INTEGRITY :: u16 where "MESSAGE_INTEGRITY = 0x0008"
definition ERROR_CODE :: u16 where "ERROR_CODE = 0x0009"
definition UNKNOWN_ATTRIBUTES :: u16 where "UNKNOWN_ATTRIBUTES = 0x000A"
definition CHANNEL_NUMBER :: u16 where "CHANNEL_NUMBER = 0x000C"
definition LIFETIME :: u16 where "LIFETIME = 0x000D"
definition XOR_PEER_ADDRESS :: u16 where "XOR_PEER_ADDRESS = 0x0012"
definition DATA :: u16 where "DATA = 0x0013"
definition REALM :: u16 where "REALM = 0x0014"
definition NONCE :: u16 where "NONCE = 0x0015"
definition XOR_RELAYED_ADDRESS :: u16 where "XOR_RELAYED_ADDRESS = 0x0016"
definition REQUESTED_ADDRESS_FAMILY :: u16 where "REQUESTED_ADDRESS_FAMILY = 0x0017"
definition EVEN_PORT :: u16 where "EVEN_PORT = 0x0018"
definition REQUESTED_TRANSPORT :: u16 where "REQUESTED_TRANSPORT = 0x0019"
definition DONT_FRAGMENT :: u16 where "DONT_FRAGMENT = 0x001A"
definition ACCESS_TOKEN :: u16 where "ACCESS_TOKEN = 0x001B"
definition MESSAGE_INTEGRITY_SHA256 :: u16 where "MESSAGE_INTEGRITY_SHA256 = 0x001C"
definition PASSWORD_ALGORITHM :: u16 where "PASSWORD_ALGORITHM = 0x001D"
definition USERHASH :: u16 where "USERHASH = 0x001E"
definition XOR_MAPPED_ADDRESS :: u16 where "XOR_MAPPED_ADDRESS = 0x0020"
definition RESERVATION_TOKEN :: u16 where "RESERVATION_TOKEN = 0x0022"
definition PRIORITY :: u16 where "PRIORITY = 0x0024"
definition USE_CANDIDATE :: u16 where "USE_CANDIDATE = 0x0025"
definition PADDING :: u16 where "PADDING = 0x0026"
definition RESPONSE_PORT :: u16 where "RESPONSE_PORT = 0x0027"
definition CONNECTION_ID :: u16 where "CONNECTION_ID = 0x002A"
definition ADDITIONAL_ADDRESS_FAMILY :: u16 where "ADDITIONAL_ADDRESS_FAMILY = 0x8000"
definition ADDRESS_ERROR_CODE :: u16 where "ADDRESS_ERROR_CODE = 0x8001"
definition PASSWORD_ALGORITHMS :: u16 where "PASSWORD_ALGORITHMS = 0x8002"
definition ALTERNATE_DOMAIN :: u16 where "ALTERNATE_DOMAIN = 0x8003"
definition ICMP :: u16 where "ICMP = 0x8004"
definition SOFTWARE :: u16 where "SOFTWARE = 0x8022"
definition ALTERNATE_SERVER :: u16 where "ALTERNATE_SERVER = 0x8023"
definition TRANSACTION_TRANSMIT_COUNTER :: u16 where "TRANSACTION_TRANSMIT_COUNTER = 0x8025"
definition CACHE_TIMEOUT :: u16 where "CACHE_TIMEOUT = 0x8027"
definition FINGERPRINT :: u16 where "FINGERPRINT = 0x8028"
definition ICE_CONTROLLED :: u16 where "ICE_CONTROLLED = 0x8029"
definition ICE_CONTROLLING :: u16 where "ICE_CONTROLLING = 0x802A"
definition RESPONSE_ORIGIN :: u16 where "RESPONSE_ORIGIN = 0x802B"
definition OTHER_ADDRESS :: u16 where "OTHER_ADDRESS = 0x802C"
definition ECN_CHECK_STUN :: u16 where "ECN_CHECK_STUN = 0x802D"
definition THIRD_PARTY_AUTHORIZATION :: u16 where "THIRD_PARTY_AUTHORIZATION = 0x802E"
definition MOBILITY_TICKET :: u16 where "MOBILITY_TICKET = 0x8030"

lemmas attr_typ_defs =
  MAPPED_ADDRESS_def USERNAME_def MESSAGE_INTEGRITY_def ERROR_CODE_def UNKNOWN_ATTRIBUTES_def
  CHANNEL_NUMBER_def LIFETIME_def XOR_PEER_ADDRESS_def DATA_def REALM_def NONCE_def XOR_RELAYED_ADDRESS_def
  REQUESTED_ADDRESS_FAMILY_def EVEN_PORT_def REQUESTED_TRANSPORT_def DONT_FRAGMENT_def ACCESS_TOKEN_def
  MESSAGE_INTEGRITY_SHA256_def PASSWORD_ALGORITHM_def USERHASH_def XOR_MAPPED_ADDRESS_def
  RESERVATION_TOKEN_def PRIORITY_def USE_CANDIDATE_def PADDING_def RESPONSE_PORT_def CONNECTION_ID_def
  ADDITIONAL_ADDRESS_FAMILY_def ADDRESS_ERROR_CODE_def PASSWORD_ALGORITHMS_def ALTERNATE_DOMAIN_def ICMP_def
  SOFTWARE_def ALTERNATE_SERVER_def TRANSACTION_TRANSMIT_COUNTER_def CACHE_TIMEOUT_def FINGERPRINT_def
  ICE_CONTROLLED_def ICE_CONTROLLING_def RESPONSE_ORIGIN_def OTHER_ADDRESS_def ECN_CHECK_STUN_def
  THIRD_PARTY_AUTHORIZATION_def MOBILITY_TICKET_def

text \<open>No two attributes share a number.\<close>

lemma attr_typ_distinct:
  "distinct ([
    MAPPED_ADDRESS, USERNAME, MESSAGE_INTEGRITY, ERROR_CODE, UNKNOWN_ATTRIBUTES, CHANNEL_NUMBER, LIFETIME,
    XOR_PEER_ADDRESS, DATA, REALM, NONCE, XOR_RELAYED_ADDRESS, REQUESTED_ADDRESS_FAMILY, EVEN_PORT,
    REQUESTED_TRANSPORT, DONT_FRAGMENT, ACCESS_TOKEN, MESSAGE_INTEGRITY_SHA256, PASSWORD_ALGORITHM, USERHASH,
    XOR_MAPPED_ADDRESS, RESERVATION_TOKEN, PRIORITY, USE_CANDIDATE, PADDING, RESPONSE_PORT, CONNECTION_ID,
    ADDITIONAL_ADDRESS_FAMILY, ADDRESS_ERROR_CODE, PASSWORD_ALGORITHMS, ALTERNATE_DOMAIN, ICMP, SOFTWARE,
    ALTERNATE_SERVER, TRANSACTION_TRANSMIT_COUNTER, CACHE_TIMEOUT, FINGERPRINT, ICE_CONTROLLED,
    ICE_CONTROLLING, RESPONSE_ORIGIN, OTHER_ADDRESS, ECN_CHECK_STUN, THIRD_PARTY_AUTHORIZATION,
    MOBILITY_TICKET] :: u16 list)"
  by (simp add: attr_typ_defs)

text \<open>The default \<^verbatim>\<open>must_precede\<close> of the trait \<^verbatim>\<open>Attr\<close>.\<close>

definition must_precede_default :: "u16 \<Rightarrow> bool" where
  "must_precede_default typ \<longleftrightarrow>
     typ = MESSAGE_INTEGRITY \<or> typ = MESSAGE_INTEGRITY_SHA256 \<or> typ = FINGERPRINT"

section \<open>The attribute iterator\<close>

record attrs_iter =
  it_typ :: "byte list"
  it_length :: u16
  it_rest :: buf
  it_offset :: u16

definition attrs_next :: "attrs_iter \<Rightarrow> (attrs_iter \<times> item option) run" where
  "attrs_next it =
    (if it_length it \<le> it_offset it then ok (it, None) else do {
     remaining \<leftarrow> sub_ck (it_length it) (it_offset it);
     if remaining < 4 then ok (it, None) else do {
     let i = 16 + unat (it_offset it);
     if length (it_rest it) < i + 4 then ok (it, None) else do {
     ty \<leftarrow> slice (it_rest it) i 2;
     let attr_typ = (from_be_bytes ty :: u16);
     ln \<leftarrow> slice (it_rest it) (i + 2) 2;
     let attr_len = (from_be_bytes ln :: u16);
     m \<leftarrow> sub_ck 4 (attr_len mod 4);
     let attr_pad = m mod 4;
     remaining \<leftarrow> sub_ck remaining 4;
     prefix \<leftarrow> slice (it_rest it) 0 i;
     let i = i + 4;
     if remaining < attr_len then ok (it, None) else do {
     r \<leftarrow> sub_ck remaining attr_len;
     if r < attr_pad then ok (it, None) else do {
     let stop = i + unat attr_len;
     if length (it_rest it) < stop then ok (it, None) else do {
     l1 \<leftarrow> add_ck (it_offset it) 4;
     l2 \<leftarrow> add_ck l1 attr_len;
     length_at \<leftarrow> add_ck l2 attr_pad;
     value \<leftarrow> slice (it_rest it) i (unat attr_len);
     ok (it\<lparr>it_offset := length_at\<rparr>,
         Some (\<lparr>first_four = it_typ it @ to_be_bytes length_at, prefix_rest = prefix\<rparr>,
               attr_typ, (4 + i, value)))
     }}}}}})"

definition attrs_into_iter :: "stun \<Rightarrow> attrs_iter run" where
  "attrs_into_iter b = do {
     typ \<leftarrow> (if length b < 2 then ok [0, 0] else slice b 0 2);
     len \<leftarrow> (if length b < 4 then ok 0 else do { l \<leftarrow> slice b 2 2; ok (from_be_bytes l) });
     rest \<leftarrow> (if length b < 4 then ok [] else ok (drop 4 b));
     ok \<lparr>it_typ = typ, it_length = len, it_rest = rest, it_offset = 0\<rparr>
   }"

text \<open>The padding after a value of \<open>n\<close> bytes, and the attribute found at an offset.\<close>

definition pad4 :: "nat \<Rightarrow> nat" where
  "pad4 n = (4 - n mod 4) mod 4"

lemma pad4_less [simp]: "pad4 n < 4"
  by (simp add: pad4_def)

lemma pad4_aligned: "(n + pad4 n) mod 4 = 0"
proof -
  have "n mod 4 = 0 \<or> n mod 4 = 1 \<or> n mod 4 = 2 \<or> n mod 4 = 3"
    using mod_less_divisor [of 4 n] by linarith
  then have "(n mod 4 + pad4 n) mod 4 = 0"
    by (elim disjE) (simp_all add: pad4_def)
  then show ?thesis by (simp add: mod_add_left_eq)
qed

lemma pad4_le: "n \<le> 4 * k \<Longrightarrow> n + pad4 n \<le> 4 * k"
proof -
  assume n: "n \<le> 4 * k"
  have "4 dvd n + pad4 n" using pad4_aligned [of n] by (simp add: dvd_eq_mod_eq_0)
  then obtain m where m: "n + pad4 n = 4 * m" by (rule dvdE)
  have "n + pad4 n < 4 * k + 4" using n by (intro add_le_less_mono) simp_all
  with m show ?thesis by simp
qed

lemma u16_pad:
  fixes n :: u16
  shows "sub_ck 4 (n mod 4) = ok (4 - n mod 4)" and "unat ((4 - n mod 4) mod 4) = pad4 (unat n)"
proof -
  have m: "unat (n mod 4) = unat n mod 4"
    by (simp add: unat_mod)
  then have le: "unat (n mod 4) \<le> unat (4 :: u16)" by simp
  then show "sub_ck 4 (n mod 4) = ok (4 - n mod 4)" by simp
  have "unat (4 - n mod 4) = 4 - unat n mod 4"
    using unat_sub_fits [OF le] m by simp
  then show "unat ((4 - n mod 4) mod 4) = pad4 (unat n)"
    by (simp add: unat_mod pad4_def)
qed

definition attr_len_at :: "buf \<Rightarrow> nat \<Rightarrow> nat" where
  "attr_len_at b off = unat (from_be_bytes (sub b (22 + off) 2) :: u16)"

definition attr_end :: "buf \<Rightarrow> nat \<Rightarrow> nat" where
  "attr_end b off = off + 4 + attr_len_at b off + pad4 (attr_len_at b off)"

definition prefix_at :: "buf \<Rightarrow> nat \<Rightarrow> nat \<Rightarrow> prefix" where
  "prefix_at b off stop =
     \<lparr>first_four = sub b 0 2 @ to_be_bytes (of_nat stop :: u16), prefix_rest = sub b 4 (16 + off)\<rparr>"

definition item_at :: "buf \<Rightarrow> nat \<Rightarrow> item" where
  "item_at b off = (prefix_at b off (attr_end b off), from_be_bytes (sub b (20 + off) 2),
     (24 + off, sub b (24 + off) (attr_len_at b off)))"

definition iter_at :: "buf \<Rightarrow> nat \<Rightarrow> attrs_iter" where
  "iter_at b off = \<lparr>it_typ = sub b 0 2, it_length = length_of b, it_rest = drop 4 b,
     it_offset = of_nat off\<rparr>"

lemma u16_less_4: "(w :: u16) < 4 \<longleftrightarrow> unat w < 4"
  by (simp add: word_less_nat_alt)

text \<open>The new offset is formed by three checked additions.\<close>

lemma add_ck_chain:
  assumes "unat (a :: u16) + 4 + unat n + pad4 (unat n) < 65536"
  shows "do { l1 \<leftarrow> add_ck a 4; l2 \<leftarrow> add_ck l1 n; e \<leftarrow> add_ck l2 ((4 - n mod 4) mod 4); f e } =
    f (of_nat (unat a + 4 + unat n + pad4 (unat n)))"
proof -
  have a4: "unat (a + 4) = unat a + 4"
    using assms by (simp add: unat_add_fits)
  then have an: "unat (a + 4 + n) = unat a + 4 + unat n"
    using assms by (simp add: unat_add_fits)
  have "a + 4 + n + (4 - n mod 4) mod 4 = of_nat (unat a + 4 + unat n + pad4 (unat n))"
    by (rule word_unat_eq_iff [THEN iffD2])
      (use an assms u16_pad(2) [of n] in \<open>simp add: unat_add_fits unat_of_nat_u16\<close>)
  with a4 an assms u16_pad(2) [of n] show ?thesis by simp
qed

lemma attrs_next_closed:
  fixes it :: attrs_iter
  defines "o1 \<equiv> unat (it_offset it)" and "L \<equiv> unat (it_length it)" and "r \<equiv> it_rest it"
  defines "n \<equiv> from_be_bytes (sub r (16 + o1 + 2) 2) :: u16"
  defines "e \<equiv> o1 + 4 + unat n + pad4 (unat n)"
  shows "attrs_next it = ok
    (if e \<le> L \<and> 20 + o1 + unat n \<le> length r
     then (it\<lparr>it_offset := of_nat e\<rparr>,
       Some (\<lparr>first_four = it_typ it @ to_be_bytes (of_nat e :: u16), prefix_rest = sub r 0 (16 + o1)\<rparr>,
         from_be_bytes (sub r (16 + o1) 2), (24 + o1, sub r (20 + o1) (unat n))))
     else (it, None))"
proof (cases "o1 + 4 \<le> L \<and> 20 + o1 \<le> length r")
  case False
  then have "attrs_next it = ok (it, None)"
    by (auto simp: attrs_next_def word_le_nat_alt u16_less_4 unat_sub_fits Let_def L_def o1_def r_def)
  with False show ?thesis by (auto simp: e_def)
next
  case True
  define rem where "rem = it_length it - it_offset it"
  have rem: "unat rem = L - o1" and gt: "\<not> it_length it \<le> it_offset it"
    using True by (auto simp: rem_def unat_sub_fits L_def o1_def word_le_nat_alt)
  then have rem4: "unat (rem - 4) = L - o1 - 4" and "\<not> rem < 4" and ck4: "sub_ck rem 4 = ok (rem - 4)"
    using True unat_sub_fits [of 4 rem] by (auto simp: u16_less_4)
  then have "attrs_next it =
     (if rem - 4 < n then ok (it, None) else
      if rem - 4 - n < (4 - n mod 4) mod 4 then ok (it, None) else
      if length r < 20 + o1 + unat n then ok (it, None) else do {
        l1 \<leftarrow> add_ck (it_offset it) 4; l2 \<leftarrow> add_ck l1 n; e \<leftarrow> add_ck l2 ((4 - n mod 4) mod 4);
        ok (it\<lparr>it_offset := e\<rparr>,
         Some (\<lparr>first_four = it_typ it @ to_be_bytes e, prefix_rest = sub r 0 (16 + o1)\<rparr>,
               from_be_bytes (sub r (16 + o1) 2), (24 + o1, sub r (20 + o1) (unat n)))) })"
    using True gt u16_pad(1) [of n] sub_ck_fits [of n "rem - 4"] sub_ck_fits [of "it_offset it" "it_length it"]
    by (simp add: attrs_next_def Let_def L_def o1_def r_def n_def rem_def word_le_nat_alt word_less_nat_alt)
  moreover have "e \<le> L \<longleftrightarrow> \<not> rem - 4 < n \<and> \<not> rem - 4 - n < (4 - n mod 4) mod 4"
    using True rem4 u16_pad(2) [of n] unat_sub_fits [of n "rem - 4"]
    by (auto simp: word_less_nat_alt e_def)
  moreover have "e \<le> L \<Longrightarrow> do { l1 \<leftarrow> add_ck (it_offset it) 4; l2 \<leftarrow> add_ck l1 n;
      e \<leftarrow> add_ck l2 ((4 - n mod 4) mod 4); f e } = f (of_nat e)" for f :: "u16 \<Rightarrow> (attrs_iter \<times> item option) run"
    unfolding e_def o1_def by (rule add_ck_chain) (use u16_bound [of "it_length it"] in \<open>simp add: L_def\<close>)
  ultimately show ?thesis
    by auto
qed

text \<open>
  The iteration ends: every step moves the offset towards the message length, and the sequence
  of items it yields is a list.
\<close>

lemma attrs_next_progress:
  assumes "attrs_next it = ok (it', Some x)"
  shows "it_length it' = it_length it" and "unat (it_offset it) < unat (it_offset it')"
    and "unat (it_offset it') \<le> unat (it_length it)"
  using assms u16_bound [of "it_length it"]
  by (auto simp: attrs_next_closed unat_of_nat_u16 simp del: of_nat_add split: if_splits)

lemma attrs_next_measure:
  "attrs_next it = ok (it', Some x) \<Longrightarrow>
    unat (it_length it') - unat (it_offset it') < unat (it_length it) - unat (it_offset it)"
  using attrs_next_progress [of it it' x] by auto

function attrs_collect :: "attrs_iter \<Rightarrow> item list run" where
  "attrs_collect it =
     (case attrs_next it of
        None \<Rightarrow> panic
      | Some (it', None) \<Rightarrow> ok []
      | Some (it', Some x) \<Rightarrow> map_option ((#) x) (attrs_collect it'))"
  by pat_completeness auto
termination
  by (relation "measure (\<lambda>it. unat (it_length it) - unat (it_offset it))")
    (auto intro: attrs_next_measure)

declare attrs_collect.simps [simp del]

definition attrs :: "stun \<Rightarrow> item list run" where
  "attrs b = do { it \<leftarrow> attrs_into_iter b; attrs_collect it }"

section \<open>Appending an attribute\<close>

definition stun_append :: "u16 \<Rightarrow> attr_enc \<Rightarrow> stun \<Rightarrow> (stun_error + stun) run" where
  "stun_append T a b = do {
     attr_len \<leftarrow> enc_length a;
     m \<leftarrow> sub_ck 4 (attr_len mod 4);
     let padd_len = m mod 4;
     t \<leftarrow> sub_ck 0xFFFF 4;
     test \<leftarrow> sub_ck t padd_len;
     let len = length b;
     if test < attr_len then ok (Inl NotStun) else do {
     test \<leftarrow> sub_ck test attr_len;
     if len < 4 then ok (Inl (TooShort (20 + 4 + unat attr_len + unat padd_len))) else do {
     bs \<leftarrow> slice b 2 2;
     let offset = (from_be_bytes bs :: u16);
     if test < offset then ok (Inl NotStun) else do {
     l1 \<leftarrow> add_ck offset 4;
     l2 \<leftarrow> add_ck l1 attr_len;
     new_length \<leftarrow> add_ck l2 padd_len;
     let new_len = 20 + unat new_length;
     if len < new_len then ok (Inl (TooShort new_len)) else do {
     let i = 20 + unat offset;
     assert (i \<le> len);
     let pre = take i b;
     let rest = drop i b;
     pre \<leftarrow> put pre 2 (to_be_bytes new_length);
     rest \<leftarrow> put rest 0 (to_be_bytes T);
     rest \<leftarrow> put rest 2 (to_be_bytes attr_len);
     rest \<leftarrow> put rest (4 + unat attr_len) (replicate (unat padd_len) 0);
     four \<leftarrow> slice pre 0 4;
     value \<leftarrow> slice rest 4 (unat attr_len);
     value \<leftarrow> enc_write a \<lparr>first_four = four, prefix_rest = drop 4 pre\<rparr> value;
     rest \<leftarrow> put rest 4 value;
     ok (Inr (pre @ rest))
     }}}}
   }"

text \<open>The buffer after an attribute with value \<open>v\<close> has been written at offset \<open>off\<close>.\<close>

definition attr_written :: "buf \<Rightarrow> nat \<Rightarrow> u16 \<Rightarrow> byte list \<Rightarrow> buf" where
  "attr_written b off T v =
     sub b 0 2 @ to_be_bytes (of_nat (off + 4 + length v + pad4 (length v)) :: u16) @ sub b 4 (16 + off) @
     to_be_bytes T @ to_be_bytes (of_nat (length v) :: u16) @ v @ replicate (pad4 (length v)) 0 @
     drop (24 + off + length v + pad4 (length v)) b"

text \<open>The four writes into the part of the buffer after the existing attributes.\<close>

lemma overwrite_value:
  assumes "length ty = 2" and "length ln = 2" and "4 + length v + length p \<le> length r"
  shows "overwrite (overwrite (overwrite (overwrite r 0 ty) 2 ln) (4 + length v) p) 4 v =
    ty @ ln @ v @ p @ drop (4 + length v + length p) r"
  using assms by (simp add: overwrite_def add.commute [of 4] add.assoc)

lemma overwrite_header:
  assumes "20 \<le> i" and "i \<le> length b" and "length ln = 2"
  shows "sub (overwrite (take i b) 2 ln) 0 4 = sub b 0 2 @ ln"
    and "drop 4 (overwrite (take i b) 2 ln) = sub b 4 (i - 4)"
    and "overwrite (take i b) 2 ln = sub b 0 2 @ ln @ sub b 4 (i - 4)"
  using assms by (simp_all add: overwrite_def sub_def drop_take)

lemma stun_append_ok:
  fixes b :: stun and n :: u16
  defines "off \<equiv> unat (length_of b)"
  defines "e \<equiv> off + 4 + unat n + pad4 (unat n)"
  assumes n: "enc_length a = ok n"
    and e: "e < 65536" and room: "20 + e \<le> length b"
    and v: "enc_write a (prefix_at b off e) (sub b (24 + off) (unat n)) = ok v" "length v = unat n"
  shows "stun_append T a b = ok (Inr (attr_written b off T v))"
proof -
  define p where "p = (4 - n mod 4) mod 4"
  have p: "sub_ck 4 (n mod 4) = ok (4 - n mod 4)" "unat p = pad4 (unat n)" "unat p < 4"
    using u16_pad [of n] by (simp_all add: p_def)
  have t: "unat (0xFFFB - p) = 65531 - unat p" "sub_ck 0xFFFB p = ok (0xFFFB - p)"
    using p(3) unat_sub_fits [of p "0xFFFB"] by simp_all
  have t': "unat (0xFFFB - p - n) = 65531 - unat p - unat n" "\<not> 0xFFFB - p < n"
    "sub_ck (0xFFFB - p) n = ok (0xFFFB - p - n)" "\<not> 0xFFFB - p - n < length_of b"
    using t p e unat_sub_fits [of n "0xFFFB - p"] unfolding e_def off_def
    by (auto simp: word_less_nat_alt)
  have l: "from_be_bytes (sub b 2 2) = length_of b" by (simp add: length_of_def)
  have chain: "do { l1 \<leftarrow> add_ck (length_of b) 4; l2 \<leftarrow> add_ck l1 n; e \<leftarrow> add_ck l2 p; f e } = f (of_nat e)"
    for f :: "u16 \<Rightarrow> (stun_error + stun) run"
    using add_ck_chain [of "length_of b" n] e by (simp add: p_def e_def off_def)
  have "unat (of_nat e :: u16) = e" using e by (rule unat_of_nat_u16)
  moreover have "20 + unat (length_of b) \<le> length b" using room by (simp add: e_def off_def)
  ultimately have "stun_append T a b = do {
     let pre = take (20 + off) b;
     let rest = drop (20 + off) b;
     pre \<leftarrow> put pre 2 (to_be_bytes (of_nat e :: u16));
     rest \<leftarrow> put rest 0 (to_be_bytes T);
     rest \<leftarrow> put rest 2 (to_be_bytes n);
     rest \<leftarrow> put rest (4 + unat n) (replicate (unat p) 0);
     four \<leftarrow> slice pre 0 4;
     value \<leftarrow> slice rest 4 (unat n);
     value \<leftarrow> enc_write a \<lparr>first_four = four, prefix_rest = drop 4 pre\<rparr> value;
     rest \<leftarrow> put rest 4 value;
     ok (Inr (pre @ rest)) }"
    using n room p t t' chain l
    by (simp add: stun_append_def Let_def off_def flip: p_def)
  also have "\<dots> = ok (Inr (attr_written b off T v))"
  proof -
    have "attr_written b off T v = (sub b 0 2 @ to_be_bytes (of_nat e :: u16) @ sub b 4 (16 + off)) @
        to_be_bytes T @ to_be_bytes n @ v @ replicate (unat p) 0 @
        drop (4 + unat n + unat p) (drop (20 + off) b)"
      using v(2) p(2) by (simp add: attr_written_def e_def ac_simps)
    moreover have "4 + unat n + unat p \<le> length b - (20 + off)" "20 + off \<le> length b"
      using room p(2) by (auto simp: e_def)
    ultimately show ?thesis
      using v overwrite_header [of "20 + off" b "to_be_bytes (of_nat e :: u16)"]
        overwrite_value [of "to_be_bytes T" "to_be_bytes n" v "replicate (unat p) 0" "drop (20 + off) b"]
      by (simp add: Let_def buf_simps prefix_at_def)
  qed
  finally show ?thesis .
qed

text \<open>
  The two errors: the length field cannot hold the new length, or the buffer is too short, in
  which case the error names the length that is needed.
\<close>

lemma stun_append_error:
  fixes b :: stun and n :: u16
  defines "e \<equiv> unat (length_of b) + 4 + unat n + pad4 (unat n)"
  assumes n: "enc_length a = ok n" and b: "4 \<le> length b"
  shows "65536 \<le> e \<Longrightarrow> stun_append T a b = ok (Inl NotStun)"
    and "e < 65536 \<Longrightarrow> length b < 20 + e \<Longrightarrow> stun_append T a b = ok (Inl (TooShort (20 + e)))"
proof -
  define p where "p = (4 - n mod 4) mod 4"
  have p: "sub_ck 4 (n mod 4) = ok (4 - n mod 4)" "unat p = pad4 (unat n)" "unat p < 4"
    using u16_pad [of n] by (simp_all add: p_def)
  have t: "unat (0xFFFB - p) = 65531 - unat p" "sub_ck 0xFFFB p = ok (0xFFFB - p)"
    using p(3) unat_sub_fits [of p "0xFFFB"] by simp_all
  have l: "from_be_bytes (sub b 2 2) = length_of b" by (simp add: length_of_def)
  have le: "\<not> 0xFFFB - p < n \<Longrightarrow> unat (0xFFFB - p - n) = 65531 - unat p - unat n"
      "\<not> 0xFFFB - p < n \<Longrightarrow> sub_ck (0xFFFB - p) n = ok (0xFFFB - p - n)"
    using t unat_sub_fits [of n "0xFFFB - p"] by (auto simp: word_less_nat_alt)
  show "stun_append T a b = ok (Inl NotStun)" if "65536 \<le> e"
  proof (cases "0xFFFB - p < n")
    case False
    then have "0xFFFB - p - n < length_of b"
      using that le(1) [OF False] p(2,3) t(1) unfolding word_less_nat_alt e_def by linarith
    with False n b p t le l show ?thesis
      by (simp add: stun_append_def Let_def flip: p_def)
  qed (use n p t in \<open>simp add: stun_append_def Let_def flip: p_def\<close>)
  assume e: "e < 65536" and short: "length b < 20 + e"
  then have "\<not> 0xFFFB - p < n" using p t by (simp add: word_less_nat_alt e_def)
  moreover from this have "\<not> 0xFFFB - p - n < length_of b"
    using e le(1) p by (simp add: word_less_nat_alt e_def)
  moreover have "do { l1 \<leftarrow> add_ck (length_of b) 4; l2 \<leftarrow> add_ck l1 n; e \<leftarrow> add_ck l2 p; f e } = f (of_nat e)"
    for f :: "u16 \<Rightarrow> (stun_error + stun) run"
    using add_ck_chain [of "length_of b" n] e by (simp add: p_def e_def)
  moreover have "unat (of_nat e :: u16) = e" using e by (rule unat_of_nat_u16)
  ultimately show "stun_append T a b = ok (Inl (TooShort (20 + e)))"
    using n b p t le l short by (simp add: stun_append_def Let_def flip: p_def)
qed

section \<open>The attribute list of a message\<close>

text \<open>
  \<open>tiles b off xs e\<close>: the attributes \<open>xs\<close>, with their paddings, fill the message from offset
  \<open>off\<close> to offset \<open>e\<close>. \<open>holds_attrs b xs\<close>: they are all the attributes of the message.
\<close>

inductive tiles :: "buf \<Rightarrow> nat \<Rightarrow> item list \<Rightarrow> nat \<Rightarrow> bool" for b :: buf where
  tiles_nil: "tiles b off [] off"
| tiles_cons: "20 + attr_end b off \<le> length b \<Longrightarrow> tiles b (attr_end b off) xs e \<Longrightarrow>
    tiles b off (item_at b off # xs) e"

inductive_simps tiles_Nil_simps [simp]: "tiles b off [] e"
inductive_simps tiles_Cons_simps: "tiles b off (x # xs) e"

definition holds_attrs :: "stun \<Rightarrow> item list \<Rightarrow> bool" where
  "holds_attrs b xs \<longleftrightarrow>
     20 + unat (length_of b) \<le> length b \<and> tiles b 0 xs (unat (length_of b))"

lemma tiles_le: "tiles b off xs e \<Longrightarrow> off \<le> e"
  by (induction rule: tiles.induct) (auto simp: attr_end_def)

lemma tiles_append: "tiles b off xs m \<Longrightarrow> tiles b m ys e \<Longrightarrow> tiles b off (xs @ ys) e"
  by (induction rule: tiles.induct) (auto intro: tiles_cons)

lemma iter_at_0: "4 \<le> length b \<Longrightarrow> attrs_into_iter b = ok (iter_at b 0)"
  by (simp add: attrs_into_iter_def iter_at_def length_of_def)

lemma attrs_next_at:
  assumes off: "off < 65536" and b: "4 \<le> length b"
  shows "attrs_next (iter_at b off) = ok
    (if attr_end b off \<le> unat (length_of b) \<and> 24 + off + attr_len_at b off \<le> length b
     then (iter_at b (attr_end b off), Some (item_at b off)) else (iter_at b off, None))"
proof -
  have o: "unat (of_nat off :: u16) = off" using off by (rule unat_of_nat_u16)
  show ?thesis
    using o b by (auto simp: attrs_next_closed iter_at_def sub_drop attr_end_def attr_len_at_def
        item_at_def prefix_at_def add.assoc simp del: of_nat_add)
qed

lemma attrs_collect_tiles:
  assumes "tiles b off xs (unat (length_of b))" and "4 \<le> length b"
  shows "attrs_collect (iter_at b off) = ok xs"
  using assms
proof (induction off xs "unat (length_of b)" rule: tiles.induct)
  case tiles_nil
  let ?e = "unat (length_of b)"
  have "?e < attr_end b ?e" by (simp add: attr_end_def)
  then have "attrs_next (iter_at b ?e) = ok (iter_at b ?e, None)"
    using tiles_nil by (subst attrs_next_at) (auto simp: u16_bound)
  then show ?case by (subst attrs_collect.simps) simp
next
  case (tiles_cons off xs)
  then have le: "attr_end b off \<le> unat (length_of b)" by (auto dest: tiles_le)
  moreover from this have "off < 65536" using u16_bound [of "length_of b"] by (simp add: attr_end_def)
  moreover have "24 + off + attr_len_at b off \<le> length b"
    using tiles_cons.hyps(1) by (simp add: attr_end_def)
  ultimately have "attrs_next (iter_at b off) = ok (iter_at b (attr_end b off), Some (item_at b off))"
    using tiles_cons.prems by (subst attrs_next_at) auto
  then show ?case using tiles_cons by (subst attrs_collect.simps) simp
qed

lemma attrs_holds: "holds_attrs b xs \<Longrightarrow> attrs b = ok xs"
  by (auto simp: holds_attrs_def attrs_def iter_at_0 intro: attrs_collect_tiles)

lemma holds_attrs_empty: "20 \<le> length b \<Longrightarrow> length_of b = 0 \<Longrightarrow> holds_attrs b []"
  by (simp add: holds_attrs_def)

text \<open>The attributes of a stretch depend on the type field and on that stretch only.\<close>

lemma sub_eq_mono:
  assumes "sub b i n = sub c i n" and "i \<le> j" and "j + m \<le> i + n"
  shows "sub b j m = sub c j m"
proof -
  have "sub (sub b i n) (j - i) m = sub (sub c i n) (j - i) m" using assms(1) by simp
  with assms(2,3) show ?thesis by (simp add: sub_sub)
qed

lemma tiles_cong:
  assumes "tiles b off xs e" and "sub b 0 2 = sub c 0 2" and "sub b 4 (16 + e) = sub c 4 (16 + e)"
    and "length b = length c"
  shows "tiles c off xs e"
  using assms
proof (induction rule: tiles.induct)
  case (tiles_nil off)
  then show ?case by (simp add: tiles.tiles_nil)
next
  case (tiles_cons off xs e)
  have le: "attr_end b off \<le> e" using tiles_cons.hyps(2) by (rule tiles_le)
  have sub: "j + m \<le> 20 + e \<Longrightarrow> 4 \<le> j \<Longrightarrow> sub b j m = sub c j m" for j m
    using sub_eq_mono [OF tiles_cons.prems(2)] by simp
  have "attr_len_at b off = attr_len_at c off"
    using sub [of "22 + off" 2] le by (simp add: attr_len_at_def attr_end_def)
  moreover from this have "attr_end b off = attr_end c off" by (simp add: attr_end_def)
  moreover have "item_at b off = item_at c off"
    using calculation sub [of "20 + off" 2] sub [of 4 "16 + off"] sub [of "24 + off" "attr_len_at b off"]
      tiles_cons.prems(1) le
    by (simp add: item_at_def prefix_at_def attr_end_def)
  ultimately show ?case
    using tiles_cons by (metis tiles.tiles_cons)
qed

lemma attrs_collect_at:
  "off < 65536 \<Longrightarrow> 4 \<le> length b \<Longrightarrow> attrs_collect (iter_at b off) =
    (if attr_end b off \<le> unat (length_of b) \<and> 24 + off + attr_len_at b off \<le> length b
     then map_option ((#) (item_at b off)) (attrs_collect (iter_at b (attr_end b off))) else ok [])"
  by (subst attrs_collect.simps) (simp add: attrs_next_at)

text \<open>
  The attributes of a message do not depend on what follows it in the buffer: a datagram cut to the
  message's own length shows the same attributes.
\<close>

lemma attrs_collect_take:
  assumes "20 + unat (length_of b) \<le> length b"
  defines "c \<equiv> take (20 + unat (length_of b)) b"
  shows "off < 65536 \<Longrightarrow> attrs_collect (iter_at c off) = attrs_collect (iter_at b off)"
proof (induction "65536 - off" arbitrary: off rule: less_induct)
  case less
  let ?e = "unat (length_of b)"
  have sub: "j + m \<le> 20 + ?e \<Longrightarrow> sub c j m = sub b j m" for j m
    by (simp add: c_def sub_take)
  have n: "length_of c = length_of b" using sub [of 2 2] by (simp add: length_of_def)
  have len: "4 \<le> length b" "4 \<le> length c" "length c = 20 + ?e" using assms by (simp_all add: c_def)
  note eqs = attrs_collect_at [OF less.prems len(1)] attrs_collect_at [OF less.prems len(2)] n
  show ?case
  proof (cases "off + 4 \<le> ?e")
    case True
    then have l: "attr_len_at c off = attr_len_at b off"
      using sub [of "22 + off" 2] by (simp add: attr_len_at_def)
    then have e: "attr_end c off = attr_end b off" by (simp add: attr_end_def)
    show ?thesis
    proof (cases "attr_end b off \<le> ?e")
      case True
      then have "item_at c off = item_at b off"
        using l e sub [of "20 + off" 2] sub [of 4 "16 + off"] sub [of "24 + off" "attr_len_at b off"] sub [of 0 2]
        by (simp add: item_at_def prefix_at_def attr_end_def)
      moreover have "attrs_collect (iter_at c (attr_end b off)) = attrs_collect (iter_at b (attr_end b off))"
        using True u16_bound [of "length_of b"] by (intro less.hyps) (auto simp: attr_end_def)
      moreover have "24 + off + attr_len_at b off \<le> 20 + ?e" using True by (simp add: attr_end_def)
      ultimately show ?thesis using True e l len assms(1) by (simp add: eqs)
    qed (simp add: eqs e)
  next
    case False
    then have "\<not> attr_end b off \<le> ?e" "\<not> attr_end c off \<le> ?e" by (simp_all add: attr_end_def)
    then show ?thesis by (simp add: eqs)
  qed
qed

lemma attrs_take:
  assumes "20 + unat (length_of b) \<le> length b"
  shows "attrs (take (20 + unat (length_of b)) b) = attrs b"
  using assms by (simp add: attrs_def iter_at_0 attrs_collect_take)

text \<open>Fields of the message after an append, and the attribute it wrote.\<close>

lemma attr_written_facts:
  fixes off T v b
  defines "e \<equiv> off + 4 + length v + pad4 (length v)"
  defines "c \<equiv> attr_written b off T v"
  assumes "20 + e \<le> length b" and "e < 65536"
  shows "length c = length b" and "sub c 0 2 = sub b 0 2" and "sub c 4 (16 + off) = sub b 4 (16 + off)"
    and "length_of c = of_nat e" and "attr_len_at c off = length v" and "attr_end c off = e"
    and "item_at c off = (prefix_at b off e, T, (24 + off, v))"
    and "drop (20 + e) c = drop (20 + e) b"
proof -
  have [simp]: "length (sub b 0 2) = 2" "length (sub b 4 (16 + off)) = 16 + off"
    using assms by simp_all
  note simps = c_def attr_written_def e_def buf_simps be_simps
  show "length c = length b" "sub c 0 2 = sub b 0 2" "sub c 4 (16 + off) = sub b 4 (16 + off)"
    using assms by (simp_all add: simps)
  show "drop (20 + e) c = drop (20 + e) b"
    using assms by (simp add: c_def attr_written_def e_def add.assoc)
  show l: "length_of c = of_nat e"
    using assms by (simp add: length_of_def simps del: of_nat_add)
  have "unat (of_nat (length v) :: u16) = length v"
    using assms by (intro unat_of_nat_u16) (simp add: e_def)
  then show n: "attr_len_at c off = length v"
    using assms by (simp add: attr_len_at_def simps)
  then show e: "attr_end c off = e" by (simp add: attr_end_def e_def)
  have "sub c (20 + off) 2 = to_be_bytes T" and "sub c (24 + off) (length v) = v"
    using assms by (simp_all add: simps)
  with n e show "item_at c off = (prefix_at b off e, T, (24 + off, v))"
    using \<open>sub c 0 2 = sub b 0 2\<close> \<open>sub c 4 (16 + off) = sub b 4 (16 + off)\<close>
    by (simp add: item_at_def prefix_at_def be_simps)
qed

text \<open>
  Appending refines appending to the list of attributes: the message then holds one more
  attribute, of the given type, whose prefix is the one the encoder saw. Type, cookie and
  transaction id are unchanged.
\<close>

definition same_header :: "stun \<Rightarrow> stun \<Rightarrow> bool" where
  "same_header b c \<longleftrightarrow> length c = length b \<and> sub c 0 2 = sub b 0 2 \<and> sub c 4 16 = sub b 4 16"

lemma same_header_fields:
  "same_header b c \<Longrightarrow> typ_of c = typ_of b" "same_header b c \<Longrightarrow> cookie_of c = cookie_of b"
  "same_header b c \<Longrightarrow> txid_of c = txid_of b" "same_header b c \<Longrightarrow> length c = length b"
  using sub_eq_mono [of c 4 16 b 4 4] sub_eq_mono [of c 4 16 b 8 12]
  by (auto simp: same_header_def field_defs)

lemma same_header_trans: "same_header a b \<Longrightarrow> same_header b c \<Longrightarrow> same_header a c"
  by (simp add: same_header_def)

lemma attr_written_holds:
  fixes b :: stun and v :: "byte list"
  defines "off \<equiv> unat (length_of b)"
  defines "e \<equiv> off + 4 + length v + pad4 (length v)"
  assumes b: "holds_attrs b xs" and e: "e < 65536" and room: "20 + e \<le> length b"
  shows "same_header b (attr_written b off T v)" and "length_of (attr_written b off T v) = of_nat e"
    and "drop (20 + e) (attr_written b off T v) = drop (20 + e) b"
    and "holds_attrs (attr_written b off T v) (xs @ [(prefix_at b off e, T, (24 + off, v))])"
proof -
  let ?c = "attr_written b off T v"
  note facts = attr_written_facts [of off v b T, folded e_def, OF room e]
  show "length_of ?c = of_nat e" "drop (20 + e) ?c = drop (20 + e) b" by (fact facts)+
  have "tiles b 0 xs off" using b by (simp add: holds_attrs_def off_def)
  then have "tiles ?c 0 xs off" by (rule tiles_cong) (simp_all add: facts)
  moreover have "tiles ?c off [item_at ?c off] e"
    using facts room by (metis tiles.intros)
  ultimately have "tiles ?c 0 (xs @ [item_at ?c off]) e" by (rule tiles_append)
  moreover have "unat (length_of ?c) = e" using facts(4) e by (simp add: unat_of_nat_u16)
  ultimately show "holds_attrs ?c (xs @ [(prefix_at b off e, T, (24 + off, v))])"
    using facts room by (simp add: holds_attrs_def)
  have "sub ?c 4 16 = sub b 4 16"
    using facts(3) by (rule sub_eq_mono) simp_all
  with facts show "same_header b ?c" by (simp add: same_header_def)
qed

lemma append_holds_attrs:
  fixes b :: stun and n :: u16
  defines "off \<equiv> unat (length_of b)"
  defines "e \<equiv> off + 4 + unat n + pad4 (unat n)"
  assumes b: "holds_attrs b xs" and n: "enc_length a = ok n"
    and e: "e < 65536" and room: "20 + e \<le> length b"
    and v: "enc_write a (prefix_at b off e) (sub b (24 + off) (unat n)) = ok v" "length v = unat n"
  shows "\<exists>c. stun_append T a b = ok (Inr c) \<and> same_header b c \<and> length_of c = of_nat e \<and>
    drop (20 + e) c = drop (20 + e) b \<and>
    holds_attrs c (xs @ [(prefix_at b off e, T, (24 + off, v))])"
proof -
  have e': "unat (length_of b) + 4 + length v + pad4 (length v) = e" by (simp add: v(2) e_def off_def)
  have "stun_append T a b = ok (Inr (attr_written b off T v))"
    unfolding off_def using assms by (intro stun_append_ok) (simp_all add: off_def e_def)
  then show ?thesis
    using attr_written_holds [of b xs v T, unfolded e', OF b e room] by (simp add: off_def)
qed

section \<open>What the iterator yields\<close>

text \<open>
  On any buffer the iterator runs to its end without a panic. Every item it yields has a usable
  prefix and a value that is a piece of the buffer inside the announced length; the items come in
  the order of the buffer and do not overlap.
\<close>

definition item_ptr :: "item \<Rightarrow> nat" where
  "item_ptr x = fst (snd (snd x))"

definition item_bytes :: "item \<Rightarrow> byte list" where
  "item_bytes x = snd (snd (snd x))"

definition prefix_ok :: "prefix \<Rightarrow> bool" where
  "prefix_ok p \<longleftrightarrow> length (first_four p) = 4 \<and> 16 \<le> length (prefix_rest p)"

lemma prefix_at_ok: "20 + off \<le> length b \<Longrightarrow> prefix_ok (prefix_at b off e)"
  by (simp add: prefix_ok_def prefix_at_def)

definition item_ok :: "buf \<Rightarrow> item \<Rightarrow> bool" where
  "item_ok b x \<longleftrightarrow> prefix_ok (fst x) \<and> 24 \<le> item_ptr x \<and>
     item_bytes x = sub b (item_ptr x) (length (item_bytes x)) \<and>
     item_ptr x + length (item_bytes x) \<le> length b \<and>
     item_ptr x + length (item_bytes x) \<le> 20 + unat (length_of b)"

definition before :: "item \<Rightarrow> item \<Rightarrow> bool" where
  "before x y \<longleftrightarrow> item_ptr x + length (item_bytes x) + 4 \<le> item_ptr y"

lemma item_at_ok:
  assumes "attr_end b off \<le> unat (length_of b)" and "24 + off + attr_len_at b off \<le> length b"
  shows "item_ok b (item_at b off)"
  using assms
  by (auto simp: item_ok_def item_at_def item_ptr_def item_bytes_def attr_end_def prefix_at_ok)

lemma attrs_collect_items:
  assumes "off < 65536" and "4 \<le> length b"
  shows "\<exists>xs. attrs_collect (iter_at b off) = ok xs \<and>
    (\<forall>x \<in> set xs. item_ok b x \<and> 24 + off \<le> item_ptr x) \<and> sorted_wrt before xs"
  using assms(1)
proof (induction "65536 - off" arbitrary: off rule: less_induct)
  case less
  let ?e = "attr_end b off" and ?x = "item_at b off"
  show ?case
  proof (cases "?e \<le> unat (length_of b) \<and> 24 + off + attr_len_at b off \<le> length b")
    case True
    then have e: "off < ?e" "?e < 65536"
      using u16_bound [of "length_of b"] by (auto simp: attr_end_def)
    then obtain xs where xs: "attrs_collect (iter_at b ?e) = ok xs"
        "\<forall>x \<in> set xs. item_ok b x \<and> 24 + ?e \<le> item_ptr x" "sorted_wrt before xs"
      using less.hyps [of ?e] diff_less_mono2 [of off ?e 65536] less.prems by blast
    have "attrs_collect (iter_at b off) = ok (?x # xs)"
      using True xs(1) less.prems assms(2) by (subst attrs_collect.simps) (simp add: attrs_next_at)
    moreover have "item_ok b ?x" and "item_ptr ?x = 24 + off"
        and "length (item_bytes ?x) = attr_len_at b off"
      using True item_at_ok [of b off]
      by (auto simp: item_at_def item_ptr_def item_bytes_def)
    moreover from this have "\<forall>x \<in> set xs. before ?x x"
      using xs(2) by (auto simp: before_def attr_end_def)
    ultimately show ?thesis using xs e(1) by fastforce
  next
    case False
    then have "attrs_collect (iter_at b off) = ok []"
      using less.prems assms(2) by (subst attrs_collect.simps) (simp add: attrs_next_at)
    then show ?thesis by simp
  qed
qed

lemma attrs_items:
  "\<exists>xs. attrs b = ok xs \<and> (\<forall>x \<in> set xs. item_ok b x) \<and> sorted_wrt before xs"
proof (cases "4 \<le> length b")
  case True
  then show ?thesis
    using attrs_collect_items [of 0 b] by (auto simp: attrs_def iter_at_0)
next
  case False
  then obtain it where it: "attrs_into_iter b = ok it" "it_length it = 0"
    by (cases "length b < 2") (auto simp: attrs_into_iter_def)
  then have "attrs_next it = ok (it, None)" by (simp add: attrs_next_def)
  then have "attrs_collect it = ok []" by (subst attrs_collect.simps) simp
  with it have "attrs b = ok []" by (simp add: attrs_def)
  then show ?thesis by simp
qed

section \<open>The contract of an attribute type\<close>

text \<open>
  What the traits \<^verbatim>\<open>Attr\<close> and \<^verbatim>\<open>AttrEnc\<close> promise to each other for one attribute type: for a value
  the encoder accepts (\<open>val\<close>), the encoder fills exactly the bytes it announced, never panics, and decoding those
  bytes under the same prefix gives what the value stands for (\<open>seen\<close>).
\<close>

locale attr_codec =
  fixes enc :: "'a \<Rightarrow> attr_enc"
    and dec :: "('e, 'b) attr_decode"
    and size :: "'a \<Rightarrow> nat"
    and val :: "'a \<Rightarrow> bool"
    and seen :: "prefix \<Rightarrow> nat \<Rightarrow> 'a \<Rightarrow> 'b"
  assumes size_u16: "val a \<Longrightarrow> size a < 65536"
    and enc_length: "val a \<Longrightarrow> enc_length (enc a) = ok (of_nat (size a))"
    and enc_dec: "val a \<Longrightarrow> prefix_ok p \<Longrightarrow> length v = size a \<Longrightarrow>
      \<exists>w. enc_write (enc a) p v = ok w \<and> length w = size a \<and>
        (\<forall>ptr. dec p (ptr, w) = ok (Inr (seen p ptr a)))"
begin

text \<open>
  Appending an accepted value that fits is successful and observable: the message afterwards
  holds one more attribute, and it decodes to the value.
\<close>

lemma append_decode:
  fixes b :: stun and a :: 'a
  defines "off \<equiv> unat (length_of b)"
  defines "e \<equiv> off + 4 + size a + pad4 (size a)"
  assumes b: "holds_attrs b xs" and a: "val a" and e: "e < 65536" and room: "20 + e \<le> length b"
  shows "\<exists>c w. stun_append T (enc a) b = ok (Inr c) \<and> same_header b c \<and> length_of c = of_nat e \<and>
    drop (20 + e) c = drop (20 + e) b \<and> length w = size a \<and> holds_attrs c (xs @ [(prefix_at b off e, T, (24 + off, w))]) \<and>
    dec (prefix_at b off e) (24 + off, w) = ok (Inr (seen (prefix_at b off e) (24 + off) a))"
proof -
  let ?n = "of_nat (size a) :: u16"
  have n: "unat ?n = size a" using size_u16 [OF a] by (rule unat_of_nat_u16)
  have "prefix_ok (prefix_at b off e)" using room by (intro prefix_at_ok) (simp add: e_def)
  moreover have "length (sub b (24 + off) (size a)) = size a" using room by (simp add: e_def)
  ultimately obtain w where w: "enc_write (enc a) (prefix_at b off e) (sub b (24 + off) (size a)) = ok w"
      "length w = size a"
      "dec (prefix_at b off e) (24 + off, w) = ok (Inr (seen (prefix_at b off e) (24 + off) a))"
    using enc_dec [OF a] by blast
  then show ?thesis
    using append_holds_attrs [of b xs "enc a" ?n w T] b enc_length [OF a] e room n
    by (auto simp: off_def e_def)
qed

text \<open>The same for a chain of appends: what the next append needs, and what the reader sees.\<close>

lemma append_step:
  fixes b :: stun and a :: 'a
  defines "e \<equiv> unat (length_of b) + 4 + size a + pad4 (size a)"
  assumes "holds_attrs b xs" and "val a" and "e < 65536" and "20 + e \<le> length b"
  shows "\<exists>c x. stun_append T (enc a) b = ok (Inr c) \<and> same_header b c \<and> unat (length_of c) = e \<and>
    drop (20 + e) c = drop (20 + e) b \<and> holds_attrs c (xs @ [x]) \<and> fst (snd x) = T \<and> length (item_bytes x) = size a \<and>
    dec (fst x) (snd (snd x)) = ok (Inr (seen (fst x) (item_ptr x) a))"
  using append_decode [of b xs a T] assms
  by (fastforce simp: item_bytes_def item_ptr_def unat_of_nat_u16 simp del: of_nat_add)

end

end
