(* ===== verification/Wire.thy ===== *)
theory Wire
  imports Prelude
begin

text \<open>
  The packet headers of \<^verbatim>\<open>src/wire/mod.rs\<close> and the Internet checksum.

  The header structs are \<^verbatim>\<open>repr(C)\<close> with unaligned big-endian fields, viewed in place through
  zerocopy: a header is a record, \<open>X_as_bytes\<close> lays its fields out in the order of the struct and
  \<open>X_of_bytes\<close> reads them back. A fixed array \<^verbatim>\<open>[u8; n]\<close> that the code only copies or compares
  is the \<open>8 n\<close>-bit word with those big-endian bytes. Viewing a prefix of a buffer as a header fails exactly when
  the buffer is shorter than the struct.

  The bit ranges of \<^verbatim>\<open>Ip6Flags\<close> are read and written by the bitfield crate, which is a parameter
  (record \<open>bitfield\<close>); \<open>bitfield_ok\<close> is its documented behaviour.
\<close>

section \<open>Headers\<close>

definition IP_PROTO_UDP :: byte where "IP_PROTO_UDP = 17"
definition IP_PROTO_SCTP :: byte where "IP_PROTO_SCTP = 132"
definition IP_PROTO_ICMP6 :: byte where "IP_PROTO_ICMP6 = 58"

record ip6_header =
  flags :: u32
  payload_length :: u16
  next_header :: byte
  hop_limit :: byte
  src :: u128
  dst :: u128

record udp_header =
  src_port :: u16
  dst_port :: u16
  udp_length :: u16
  checksum :: u16

record stun_header =
  sh_typ :: u16
  sh_length :: u16
  sh_cookie :: u32
  sh_txid :: "96 word"

record stun_attr_header =
  sah_typ :: u16
  sah_length :: u16

record sctp_header =
  sctp_src_port :: u16
  sctp_dst_port :: u16
  vtag :: u32
  sctp_checksum :: u32

record dcep_open_header =
  msg_typ :: byte
  channel_typ :: byte
  priority :: u16
  reliability_parameter :: u32
  label_len :: u16
  protocol_len :: u16

record icmp6_header =
  icmp_typ :: byte
  icmp_code :: byte
  icmp_checksum :: u16
  icmp_arg :: u32

record ether_header =
  eth_dst :: "48 word"
  eth_src :: "48 word"
  eth_typ :: u16

definition ip6_as_bytes :: "ip6_header \<Rightarrow> buf" where
  "ip6_as_bytes h = to_be_bytes (flags h) @ to_be_bytes (payload_length h) @
     to_be_bytes (next_header h) @ to_be_bytes (hop_limit h) @
     to_be_bytes (src h) @ to_be_bytes (dst h)"

definition ip6_of_bytes :: "buf \<Rightarrow> ip6_header" where
  "ip6_of_bytes b = \<lparr>flags = from_be_bytes (sub b 0 4), payload_length = from_be_bytes (sub b 4 2),
     next_header = from_be_bytes (sub b 6 1), hop_limit = from_be_bytes (sub b 7 1),
     src = from_be_bytes (sub b 8 16), dst = from_be_bytes (sub b 24 16)\<rparr>"

definition udp_as_bytes :: "udp_header \<Rightarrow> buf" where
  "udp_as_bytes h = to_be_bytes (src_port h) @ to_be_bytes (dst_port h) @
     to_be_bytes (udp_length h) @ to_be_bytes (checksum h)"

definition udp_of_bytes :: "buf \<Rightarrow> udp_header" where
  "udp_of_bytes b = \<lparr>src_port = from_be_bytes (sub b 0 2), dst_port = from_be_bytes (sub b 2 2),
     udp_length = from_be_bytes (sub b 4 2), checksum = from_be_bytes (sub b 6 2)\<rparr>"

definition stun_header_as_bytes :: "stun_header \<Rightarrow> buf" where
  "stun_header_as_bytes h = to_be_bytes (sh_typ h) @ to_be_bytes (sh_length h) @
     to_be_bytes (sh_cookie h) @ to_be_bytes (sh_txid h)"

definition stun_header_of_bytes :: "buf \<Rightarrow> stun_header" where
  "stun_header_of_bytes b = \<lparr>sh_typ = from_be_bytes (sub b 0 2), sh_length = from_be_bytes (sub b 2 2),
     sh_cookie = from_be_bytes (sub b 4 4), sh_txid = from_be_bytes (sub b 8 12)\<rparr>"

definition stun_attr_as_bytes :: "stun_attr_header \<Rightarrow> buf" where
  "stun_attr_as_bytes h = to_be_bytes (sah_typ h) @ to_be_bytes (sah_length h)"

definition stun_attr_of_bytes :: "buf \<Rightarrow> stun_attr_header" where
  "stun_attr_of_bytes b = \<lparr>sah_typ = from_be_bytes (sub b 0 2), sah_length = from_be_bytes (sub b 2 2)\<rparr>"

text \<open>The SCTP checksum is the one little-endian field.\<close>

definition sctp_as_bytes :: "sctp_header \<Rightarrow> buf" where
  "sctp_as_bytes h = to_be_bytes (sctp_src_port h) @ to_be_bytes (sctp_dst_port h) @
     to_be_bytes (vtag h) @ rev (to_be_bytes (sctp_checksum h))"

definition sctp_of_bytes :: "buf \<Rightarrow> sctp_header" where
  "sctp_of_bytes b = \<lparr>sctp_src_port = from_be_bytes (sub b 0 2), sctp_dst_port = from_be_bytes (sub b 2 2),
     vtag = from_be_bytes (sub b 4 4), sctp_checksum = from_be_bytes (rev (sub b 8 4))\<rparr>"

definition dcep_as_bytes :: "dcep_open_header \<Rightarrow> buf" where
  "dcep_as_bytes h = to_be_bytes (msg_typ h) @ to_be_bytes (channel_typ h) @ to_be_bytes (priority h) @
     to_be_bytes (reliability_parameter h) @ to_be_bytes (label_len h) @ to_be_bytes (protocol_len h)"

definition dcep_of_bytes :: "buf \<Rightarrow> dcep_open_header" where
  "dcep_of_bytes b = \<lparr>msg_typ = from_be_bytes (sub b 0 1), channel_typ = from_be_bytes (sub b 1 1),
     priority = from_be_bytes (sub b 2 2), reliability_parameter = from_be_bytes (sub b 4 4),
     label_len = from_be_bytes (sub b 8 2), protocol_len = from_be_bytes (sub b 10 2)\<rparr>"

definition icmp6_as_bytes :: "icmp6_header \<Rightarrow> buf" where
  "icmp6_as_bytes h = to_be_bytes (icmp_typ h) @ to_be_bytes (icmp_code h) @
     to_be_bytes (icmp_checksum h) @ to_be_bytes (icmp_arg h)"

definition icmp6_of_bytes :: "buf \<Rightarrow> icmp6_header" where
  "icmp6_of_bytes b = \<lparr>icmp_typ = from_be_bytes (sub b 0 1), icmp_code = from_be_bytes (sub b 1 1),
     icmp_checksum = from_be_bytes (sub b 2 2), icmp_arg = from_be_bytes (sub b 4 4)\<rparr>"

definition ether_as_bytes :: "ether_header \<Rightarrow> buf" where
  "ether_as_bytes h = to_be_bytes (eth_dst h) @ to_be_bytes (eth_src h) @ to_be_bytes (eth_typ h)"

definition ether_of_bytes :: "buf \<Rightarrow> ether_header" where
  "ether_of_bytes b = \<lparr>eth_dst = from_be_bytes (sub b 0 6), eth_src = from_be_bytes (sub b 6 6),
     eth_typ = from_be_bytes (sub b 12 2)\<rparr>"

text \<open>
  \<^verbatim>\<open>ref_from_prefix\<close>, \<^verbatim>\<open>mut_from_prefix\<close> and \<^verbatim>\<open>read_from_prefix\<close>: the header at the start of the
  buffer and the bytes after it, or an error when the buffer is too short.
\<close>

definition from_prefix :: "nat \<Rightarrow> (buf \<Rightarrow> 'h) \<Rightarrow> buf \<Rightarrow> ('h \<times> buf) option" where
  "from_prefix n of_bytes b = (if n \<le> length b then Some (of_bytes (take n b), drop n b) else None)"

definition ip6_len :: "ip6_header \<Rightarrow> nat" where
  "ip6_len ip = 40 + unat (payload_length ip)"

section \<open>The flag bits of an IPv6 header\<close>

record bitfield =
  bit_range_u8 :: "u32 \<Rightarrow> nat \<Rightarrow> nat \<Rightarrow> byte"
  bit_range_u32 :: "u32 \<Rightarrow> nat \<Rightarrow> nat \<Rightarrow> u32"
  set_bit_range_u8 :: "u32 \<Rightarrow> nat \<Rightarrow> nat \<Rightarrow> byte \<Rightarrow> u32"
  set_bit_range_u32 :: "u32 \<Rightarrow> nat \<Rightarrow> nat \<Rightarrow> u32 \<Rightarrow> u32"

definition version :: "('x) bitfield_scheme \<Rightarrow> u32 \<Rightarrow> byte" where
  "version E f = bit_range_u8 E f 31 28"

definition traffic_class :: "('x) bitfield_scheme \<Rightarrow> u32 \<Rightarrow> byte" where
  "traffic_class E f = bit_range_u8 E f 27 20"

definition flow_label :: "('x) bitfield_scheme \<Rightarrow> u32 \<Rightarrow> u32" where
  "flow_label E f = bit_range_u32 E f 19 0"

definition set_version :: "('x) bitfield_scheme \<Rightarrow> byte \<Rightarrow> u32 \<Rightarrow> u32" where
  "set_version E v f = set_bit_range_u8 E f 31 28 v"

definition set_traffic_class :: "('x) bitfield_scheme \<Rightarrow> byte \<Rightarrow> u32 \<Rightarrow> u32" where
  "set_traffic_class E v f = set_bit_range_u8 E f 27 20 v"

definition set_flow_label :: "('x) bitfield_scheme \<Rightarrow> u32 \<Rightarrow> u32 \<Rightarrow> u32" where
  "set_flow_label E v f = set_bit_range_u32 E f 19 0 v"

text \<open>
  What the bitfield crate documents of \<^verbatim>\<open>bit_range\<close> and \<^verbatim>\<open>set_bit_range\<close> on a \<^verbatim>\<open>u32\<close>: reading
  bits \<open>lsb\<close> to \<open>msb\<close>, and replacing exactly those bits.
\<close>

definition bits_of :: "u32 \<Rightarrow> nat \<Rightarrow> nat \<Rightarrow> u32" where
  "bits_of v msb lsb = take_bit (msb + 1 - lsb) (drop_bit lsb v)"

definition with_bits :: "u32 \<Rightarrow> nat \<Rightarrow> nat \<Rightarrow> u32 \<Rightarrow> u32" where
  "with_bits v msb lsb x =
     (v AND NOT (push_bit lsb (mask (msb + 1 - lsb)))) OR push_bit lsb (take_bit (msb + 1 - lsb) x)"

definition bitfield_ok :: "('x) bitfield_scheme \<Rightarrow> bool" where
  "bitfield_ok E \<longleftrightarrow>
     (\<forall>v msb lsb. bit_range_u8 E v msb lsb = ucast (bits_of v msb lsb)) \<and>
     (\<forall>v msb lsb. bit_range_u32 E v msb lsb = bits_of v msb lsb) \<and>
     (\<forall>v msb lsb x. set_bit_range_u8 E v msb lsb x = with_bits v msb lsb (ucast x)) \<and>
     (\<forall>v msb lsb x. set_bit_range_u32 E v msb lsb x = with_bits v msb lsb x)"

section \<open>The Internet checksum\<close>

fun checksum_sum :: "nat \<Rightarrow> u32 \<Rightarrow> byte list \<Rightarrow> u32 run" where
  "checksum_sum offset accum [] = ok accum"
| "checksum_sum offset accum (b # bs) = do {
     accum \<leftarrow> add_ck accum (if offset mod 2 = 0 then push_bit 8 (ucast b) else ucast b);
     checksum_sum (offset + 1) accum bs
   }"

lemma unat_low16: "unat (a AND 0xffff :: u32) = unat a mod 65536"
proof -
  have "(0xffff :: u32) = mask 16" by (simp add: mask_eq_exp_minus_1)
  then have "a AND 0xffff = take_bit 16 a" by (simp add: take_bit_eq_mask)
  then show ?thesis by (simp add: unsigned_take_bit_eq take_bit_nat_def)
qed

lemma unat_high16: "unat (drop_bit 16 a :: u32) = unat a div 65536"
  by (simp add: unat_drop_bit_eq drop_bit_nat_def)

lemma fold_halves_add:
  "add_ck (drop_bit 16 a) (a AND 0xffff :: u32) = ok (drop_bit 16 a + (a AND 0xffff))"
  "unat (drop_bit 16 a + (a AND 0xffff :: u32)) = unat a div 65536 + unat a mod 65536"
proof -
  have "unat a < 4294967296"
    using unsigned_less [of a] by simp
  then have "unat (drop_bit 16 a) + unat (a AND 0xffff) < 2 ^ LENGTH(32)"
    by (simp add: unat_low16 unat_high16)
  then show "add_ck (drop_bit 16 a) (a AND 0xffff :: u32) = ok (drop_bit 16 a + (a AND 0xffff))"
    and "unat (drop_bit 16 a + (a AND 0xffff :: u32)) = unat a div 65536 + unat a mod 65536"
    by (simp_all add: unat_add_fits unat_low16 unat_high16)
qed

lemma fold_halves_decreases: "65535 < (n::nat) \<Longrightarrow> n div 65536 + n mod 65536 < n"
  using div_mult_mod_eq [of n 65536] div_greater_zero_iff [of n 65536] by linarith

function checksum_fold :: "u32 \<Rightarrow> u32 run" where
  "checksum_fold accum =
     (if accum > 0xffff
      then case add_ck (drop_bit 16 accum) (accum AND 0xffff) of
             None \<Rightarrow> panic | Some t \<Rightarrow> checksum_fold t
      else ok accum)"
  by pat_completeness auto
termination
proof (relation "measure unat")
  fix accum t :: u32
  assume "0xffff < accum" and "add_ck (drop_bit 16 accum) (accum AND 0xffff) = Some t"
  then show "(t, accum) \<in> measure unat"
    by (auto simp: fold_halves_add word_less_nat_alt fold_halves_decreases)
qed auto

declare checksum_fold.simps [simp del]

definition ip_checksum :: "byte list list \<Rightarrow> u16 run" where
  "ip_checksum slices = do {
     accum \<leftarrow> checksum_sum 0 0 (concat slices);
     accum \<leftarrow> checksum_fold accum;
     ok (NOT (ucast accum))
   }"

section \<open>The layout contract\<close>

text \<open>
  The contract between the header structs and the code that views buffers as headers: a header
  occupies \<open>size\<close> bytes, and writing and reading it are inverse to each other.
\<close>

locale wire_layout =
  fixes size :: nat
    and as_bytes :: "'h \<Rightarrow> buf"
    and of_bytes :: "buf \<Rightarrow> 'h"
  assumes length_as_bytes: "length (as_bytes h) = size"
    and of_as_bytes: "of_bytes (as_bytes h) = h"
    and as_of_bytes: "length bs = size \<Longrightarrow> as_bytes (of_bytes bs) = bs"
begin

lemma from_prefix_append: "from_prefix size of_bytes (as_bytes h @ rest) = Some (h, rest)"
  by (simp add: from_prefix_def length_as_bytes of_as_bytes)

lemma from_prefix_Some:
  "from_prefix size of_bytes b = Some (h, rest) \<longleftrightarrow> b = as_bytes h @ rest"
proof
  assume *: "from_prefix size of_bytes b = Some (h, rest)"
  then have "size \<le> length b" and "h = of_bytes (take size b)" and "rest = drop size b"
    by (auto simp: from_prefix_def split: if_splits)
  then show "b = as_bytes h @ rest" by (simp add: as_of_bytes)
next
  assume "b = as_bytes h @ rest"
  then show "from_prefix size of_bytes b = Some (h, rest)" by (simp add: from_prefix_append)
qed

lemma from_prefix_None: "from_prefix size of_bytes b = None \<longleftrightarrow> length b < size"
  by (auto simp: from_prefix_def)

lemma as_bytes_inject: "as_bytes h = as_bytes h' \<longleftrightarrow> h = h'"
  by (metis of_as_bytes)

end

text \<open>Reading field by field what was written field by field, and the converse.\<close>

lemma sub_fields [buf_simps]:
  "length a = n \<Longrightarrow> sub (a @ r) 0 n = a"
  "length a \<le> off \<Longrightarrow> sub (a @ r) off n = sub r (off - length a) n"
  by (simp_all add: sub_def)

lemma join_fields:
  "off + n = off' \<Longrightarrow> sub b off n @ sub b off' m = sub b off (n + m)"
  "off + n = off' \<Longrightarrow> sub b off n @ sub b off' m @ r = sub b off (n + m) @ r"
  by (auto simp flip: sub_concat)

lemmas layout_defs = ip6_as_bytes_def ip6_of_bytes_def udp_as_bytes_def udp_of_bytes_def
  stun_header_as_bytes_def stun_header_of_bytes_def stun_attr_as_bytes_def stun_attr_of_bytes_def
  sctp_as_bytes_def sctp_of_bytes_def dcep_as_bytes_def dcep_of_bytes_def
  icmp6_as_bytes_def icmp6_of_bytes_def ether_as_bytes_def ether_of_bytes_def

lemmas layout_simps = layout_defs buf_simps be_simps join_fields

interpretation ip6: wire_layout 40 ip6_as_bytes ip6_of_bytes
  by unfold_locales (simp_all add: layout_simps)

interpretation udp: wire_layout 8 udp_as_bytes udp_of_bytes
  by unfold_locales (simp_all add: layout_simps)

interpretation stun_hdr: wire_layout 20 stun_header_as_bytes stun_header_of_bytes
  by unfold_locales (simp_all add: layout_simps)

interpretation stun_attr: wire_layout 4 stun_attr_as_bytes stun_attr_of_bytes
  by unfold_locales (simp_all add: layout_simps)

interpretation sctp: wire_layout 12 sctp_as_bytes sctp_of_bytes
  by unfold_locales (simp_all add: layout_simps)

interpretation dcep: wire_layout 12 dcep_as_bytes dcep_of_bytes
  by unfold_locales (simp_all add: layout_simps)

interpretation icmp6: wire_layout 8 icmp6_as_bytes icmp6_of_bytes
  by unfold_locales (simp_all add: layout_simps)

interpretation ether: wire_layout 14 ether_as_bytes ether_of_bytes
  by unfold_locales (simp_all add: layout_simps)

section \<open>Correctness of the checksum\<close>

text \<open>
  The abstract checksum: \<open>sum16\<close> adds the big-endian 16-bit words of the data (the last one
  padded with a zero byte), \<open>ones_norm\<close> is the representative of a sum in one's complement
  arithmetic, which is 0 only for the sum 0.
\<close>

fun sum16 :: "byte list \<Rightarrow> nat" where
  "sum16 [] = 0"
| "sum16 [a] = 256 * unat a"
| "sum16 (a # b # r) = 256 * unat a + unat b + sum16 r"

definition ones_norm :: "nat \<Rightarrow> nat" where
  "ones_norm n = (if n = 0 then 0 else (n - 1) mod 65535 + 1)"

lemma sum16_append: "even (length a) \<Longrightarrow> sum16 (a @ b) = sum16 a + sum16 b"
  by (induction a rule: sum16.induct) auto

lemma sum16_bound: "2 * sum16 bs \<le> 65535 * (length bs + 1)"
proof (induction bs rule: sum16.induct)
  case (2 a)
  then show ?case using byte_bound [of a] by simp
next
  case (3 a b r)
  then show ?case using byte_bound [of a] byte_bound [of b] by simp
qed simp

lemma unat_byte_u32: "unat (ucast (b :: byte) :: u32) = unat b"
  using byte_bound [of b] by (simp add: unsigned_ucast_eq take_bit_nat_def)

lemma unat_high_byte: "unat (push_bit 8 (ucast (b :: byte)) :: u32) = 256 * unat b"
  using byte_bound [of b] by (simp add: push_bit_eq_mult unat_word_ariths unat_byte_u32)

lemma checksum_sum_step:
  assumes "unat accum + x < 4294967296" and "unat w = x"
  shows "add_ck accum w = ok (accum + w)" and "unat (accum + w :: u32) = unat accum + x"
  using assms by (simp_all add: unat_add_fits)

lemma checksum_sum_spec:
  "even off \<Longrightarrow> unat accum + sum16 bs < 4294967296 \<Longrightarrow>
    \<exists>r. checksum_sum off accum bs = ok r \<and> unat r = unat accum + sum16 bs"
proof (induction bs arbitrary: off accum rule: sum16.induct)
  case 1
  then show ?case by simp
next
  case (2 a)
  then show ?case
    using checksum_sum_step [of accum _ "push_bit 8 (ucast a)", OF _ unat_high_byte]
    by auto
next
  case (3 a b r)
  let ?hi = "push_bit 8 (ucast a) :: u32"
  from 3 have hi: "add_ck accum ?hi = ok (accum + ?hi)" "unat (accum + ?hi) = unat accum + 256 * unat a"
    using checksum_sum_step [of accum _ ?hi, OF _ unat_high_byte] by auto
  from 3 hi have lo: "add_ck (accum + ?hi) (ucast b) = ok (accum + ?hi + ucast b)"
    "unat (accum + ?hi + ucast b) = unat accum + 256 * unat a + unat b"
    using checksum_sum_step [of "accum + ?hi" "unat b" "ucast b", OF _ unat_byte_u32] by auto
  from lo(2) 3 have "\<exists>x. checksum_sum (Suc (Suc off)) (accum + ?hi + ucast b) r = ok x \<and>
      unat x = unat accum + 256 * unat a + unat b + sum16 r"
    using "3.IH" [of "Suc (Suc off)" "accum + ?hi + ucast b"] by simp
  with hi lo 3 show ?case by auto
qed

lemma ones_norm_step: "65535 < n \<Longrightarrow> ones_norm (n div 65536 + n mod 65536) = ones_norm n"
proof -
  assume n: "65535 < n"
  let ?m = "n div 65536 + n mod 65536"
  have q: "0 < n div 65536" using n by (simp add: div_greater_zero_iff)
  have "n = ?m + 65535 * (n div 65536)"
    using div_mult_mod_eq [of n 65536] by linarith
  then have "n - 1 = (?m - 1) + 65535 * (n div 65536)"
    using q by linarith
  then have "(n - 1) mod 65535 = (?m - 1) mod 65535"
    by (metis mod_mult_self2)
  with n q show ?thesis by (simp add: ones_norm_def)
qed

lemma ones_norm_small: "n \<le> 65535 \<Longrightarrow> ones_norm n = n"
  by (auto simp: ones_norm_def)

lemma checksum_fold_spec: "\<exists>r. checksum_fold accum = ok r \<and> unat r = ones_norm (unat accum)"
proof (induction accum rule: checksum_fold.induct)
  case (1 accum)
  show ?case
  proof (cases "0xffff < accum")
    case True
    with 1 [OF True, OF fold_halves_add(1)] show ?thesis
      by (auto simp: checksum_fold.simps [of accum] fold_halves_add word_less_nat_alt ones_norm_step)
  next
    case False
    then show ?thesis
      by (simp add: checksum_fold.simps [of accum] word_less_nat_alt ones_norm_small)
  qed
qed

lemma unat_not_u16: "unat (NOT (w :: u16)) = 65535 - unat w"
proof -
  have "NOT w = 0xffff - w"
    by (simp add: not_eq_complement)
  moreover have "unat w \<le> unat (0xffff :: u16)"
    using u16_bound [of w] by simp
  ultimately show ?thesis by (simp add: unat_sub_fits)
qed

text \<open>
  The loop's accumulator never overflows for up to \<open>2 ^ 17\<close> bytes, twice the largest packet, and
  the result is the complement of the one's complement sum.
\<close>

lemma sum16_fits: "length bs \<le> 131072 \<Longrightarrow> sum16 bs < 4294967296"
proof -
  assume "length bs \<le> 131072"
  then have "65535 * (length bs + 1) \<le> 65535 * 131073" by (intro mult_le_mono2) simp
  with sum16_bound [of bs] have "2 * sum16 bs \<le> 8589869055" by simp
  then show ?thesis by simp
qed

lemma ip_checksum_sum16:
  assumes "length (concat slices) \<le> 131072"
  shows "\<exists>c. ip_checksum slices = ok c \<and> unat c = 65535 - ones_norm (sum16 (concat slices))"
proof -
  obtain s where s: "checksum_sum 0 0 (concat slices) = ok s" "unat s = sum16 (concat slices)"
    using checksum_sum_spec [of 0 0 "concat slices"] sum16_fits [OF assms] by auto
  obtain f where f: "checksum_fold s = ok f" "unat f = ones_norm (unat s)"
    using checksum_fold_spec by blast
  have "ones_norm (unat s) < 65536"
    using mod_less_divisor [of 65535 "unat s - 1"] by (simp add: ones_norm_def)
  then have "unat (ucast f :: u16) = unat f"
    using f by (simp add: unsigned_ucast_eq take_bit_nat_def)
  with s f show ?thesis by (simp add: ip_checksum_def unat_not_u16)
qed

text \<open>
  The receiver's check: with the computed checksum \<open>c\<close> (or its other representation of zero)
  added to the data, the checksum comes out as zero.
\<close>

lemma ones_norm_complement: "ones_norm (n + (65535 - ones_norm n)) = 65535"
proof (cases "n = 0")
  case False
  let ?r = "(n - 1) mod 65535"
  have "?r < 65535" by simp
  moreover have "n = 65535 * ((n - 1) div 65535) + ?r + 1"
    using False div_mult_mod_eq [of "n - 1" 65535] by linarith
  ultimately have "n + (65535 - (?r + 1)) = 65535 * ((n - 1) div 65535) + 65535"
    by linarith
  then have "n + (65535 - ones_norm n) = 65535 * ((n - 1) div 65535) + 65535"
    using False by (simp add: ones_norm_def)
  then have "n + (65535 - ones_norm n) - 1 = 65535 * ((n - 1) div 65535) + 65534"
    by linarith
  then have "(n + (65535 - ones_norm n) - 1) mod 65535 = 65534"
    by simp
  with False show ?thesis by (simp add: ones_norm_def)
qed (simp add: ones_norm_def)

lemma ones_norm_65535: "0 < n \<Longrightarrow> ones_norm (n + 65535) = ones_norm n"
proof -
  assume "0 < n"
  then have "n + 65535 - 1 = (n - 1) + 65535" by simp
  then have "(n + 65535 - 1) mod 65535 = (n - 1) mod 65535" by (metis mod_add_self2)
  with \<open>0 < n\<close> show ?thesis by (simp add: ones_norm_def)
qed

text \<open>The unit test of the checksum.\<close>

definition UDP_CHECKSUM_TEST :: "byte list list" where
  "UDP_CHECKSUM_TEST = [[127, 0, 0, 1], [127, 0, 0, 1], [0, 17, 0x00, 0x13], [0, 1, 0, 1], [0x00, 0x13], str_lit ''Hello World'']"

lemma udp_checksum_test: "ip_checksum UDP_CHECKSUM_TEST = ok 0xaff5"
proof -
  have s: "concat UDP_CHECKSUM_TEST = [127, 0, 0, 1, 127, 0, 0, 1, 0, 17, 0, 0x13, 0, 1, 0, 1, 0, 0x13,
      0x48, 0x65, 0x6c, 0x6c, 0x6f, 0x20, 0x57, 0x6f, 0x72, 0x6c, 0x64]"
    by (simp add: UDP_CHECKSUM_TEST_def str_lit_def of_char_of)
  then show ?thesis
    by (simp add: ip_checksum_def s checksum_fold.simps add_ck_def push_bit_eq_mult drop_bit_eq_div)
qed

end
