(* ===== verification/Attr_Values.thy ===== *)
theory Attr_Values
  imports Stun_Attr Wire
begin

text \<open>
  The attribute values: \<^verbatim>\<open>src/stun/attr/values.rs\<close> (the macros for addresses, numbers, strings,
  slices and empty values), \<^verbatim>\<open>src/stun/attr/integrity.rs\<close>, and the values of RFC 8445, 8489 and
  8656 in \<^verbatim>\<open>src/stun/rfc8445.rs\<close>, \<^verbatim>\<open>rfc8489.rs\<close> and \<^verbatim>\<open>rfc8656.rs\<close>. Each type has a decoder and an
  encoder as the code has them, and an interpretation of \<open>attr_codec\<close> that discharges the
  contract for them.

  HMAC-SHA1, MD5 and CRC-32 come from crates: they are functions of the record \<open>extern\<close>, with
  the sizes of their results in the types (160, 128 and 32 bits).
\<close>

record extern = bitfield +
  hmac_sha1 :: "byte list \<Rightarrow> byte list \<Rightarrow> 160 word"
  md5 :: "byte list \<Rightarrow> u128"
  crc32 :: "byte list \<Rightarrow> u32"

datatype sockaddr_error = UnknownFamily byte | BadSockaddrLength
datatype try_from_slice_error = TryFromSliceError
datatype utf8_error = Utf8Error
datatype unexpected_length = UnexpectedLength
datatype bad_fingerprint = BadFingerprint
datatype icmp_decode_error = NoIcmpDecoding

section \<open>Addresses\<close>

definition maybe_xor :: "bool \<Rightarrow> prefix \<Rightarrow> byte list \<Rightarrow> byte list run" where
  "maybe_xor masked p bs = (if masked then xor_bytes p bs else ok bs)"

fun sockaddr_decode :: "bool \<Rightarrow> (sockaddr_error, socket_addr) attr_decode" where
  "sockaddr_decode masked p (ptr, value) =
    (if length value < 4 then ok (Inl BadSockaddrLength) else do {
     family \<leftarrow> index value 1;
     port \<leftarrow> slice value 2 2;
     port \<leftarrow> maybe_xor masked p port;
     let port = from_be_bytes port;
     if family = 0x01 \<and> 8 \<le> length value then do {
       octets \<leftarrow> slice value 4 4;
       octets \<leftarrow> maybe_xor masked p octets;
       ok (Inr (SocketAddr (IpV4 (from_be_bytes octets)) port)) }
     else if family = 0x02 \<and> 20 \<le> length value then do {
       octets \<leftarrow> slice value 4 16;
       octets \<leftarrow> maybe_xor masked p octets;
       ok (Inr (SocketAddr (IpV6 (from_be_bytes octets)) port)) }
     else if family = 0x02 \<or> family = 0x01 then ok (Inl BadSockaddrLength)
     else ok (Inl (UnknownFamily family)) })"

definition sockaddr_enc :: "bool \<Rightarrow> socket_addr \<Rightarrow> attr_enc" where
  "sockaddr_enc masked a = \<lparr>
     enc_length = ok (case sa_ip a of IpV4 _ \<Rightarrow> 8 | IpV6 _ \<Rightarrow> 20),
     enc_write = (\<lambda>p value. do {
       value \<leftarrow> assign value 0 0;
       value \<leftarrow> assign value 1 (if is_ipv4 a then 0x01 else 0x02);
       port \<leftarrow> maybe_xor masked p (to_be_bytes (sa_port a));
       value \<leftarrow> put value 2 port;
       octets \<leftarrow> maybe_xor masked p (case sa_ip a of IpV4 v4 \<Rightarrow> to_be_bytes v4 | IpV6 v6 \<Rightarrow> to_be_bytes v6);
       tail \<leftarrow> copy_from_slice (drop 4 value) octets;
       ok (take 4 value @ tail) })\<rparr>"

section \<open>Numbers, strings, slices and empty values\<close>

fun numeric_decode :: "(try_from_slice_error, 'a::len word) attr_decode" where
  "numeric_decode p (ptr, value) =
     ok (if length value = LENGTH('a) div 8 then Inr (from_be_bytes value) else Inl TryFromSliceError)"

definition numeric_enc :: "'a::len word \<Rightarrow> attr_enc" where
  "numeric_enc w = \<lparr>
     enc_length = ok (of_nat (length (to_be_bytes w))),
     enc_write = (\<lambda>p value. copy_from_slice value (to_be_bytes w))\<rparr>"

fun str_decode :: "(utf8_error, str) attr_decode" where
  "str_decode p (ptr, value) = ok (if utf8_valid value then Inr value else Inl Utf8Error)"

definition str_enc :: "str \<Rightarrow> attr_enc" where
  "str_enc s = \<lparr>
     enc_length = ok (of_nat (length s)),
     enc_write = (\<lambda>p value. copy_from_slice value s)\<rparr>"

fun slice_decode :: "('e, bytes_ref) attr_decode" where
  "slice_decode p value = ok (Inr value)"

definition slice_enc :: "byte list \<Rightarrow> attr_enc" where
  "slice_enc s = \<lparr>
     enc_length = ok (of_nat (length s)),
     enc_write = (\<lambda>p value. copy_from_slice value s)\<rparr>"

fun empty_decode :: "('e, unit) attr_decode" where
  "empty_decode p value = ok (Inr ())"

definition empty_enc :: "unit \<Rightarrow> attr_enc" where
  "empty_enc u = \<lparr>enc_length = ok 0, enc_write = (\<lambda>p value. ok value)\<rparr>"

section \<open>RFC 8489\<close>

fun chunks2 :: "byte list \<Rightarrow> u16 list" where
  "chunks2 (a # b # r) = from_be_bytes [a, b] # chunks2 r"
| "chunks2 _ = []"

fun unknown_attrs_decode :: "nat \<Rightarrow> ('e, u16 list) attr_decode" where
  "unknown_attrs_decode N p (ptr, value) =
     (let cs = take N (chunks2 value) in ok (Inr (cs @ replicate (N - length cs) 0)))"

fun unknown_attrs_write :: "nat \<Rightarrow> u16 list \<Rightarrow> buf \<Rightarrow> buf run" where
  "unknown_attrs_write i [] value = ok value"
| "unknown_attrs_write i (a # as) value =
     (if a = 0 then ok value
      else do { value \<leftarrow> put value (i * 2) (to_be_bytes a); unknown_attrs_write (i + 1) as value })"

definition unknown_attrs_enc :: "u16 list \<Rightarrow> attr_enc" where
  "unknown_attrs_enc as = \<lparr>
     enc_length = ok (of_nat (length (filter (\<lambda>a. a \<noteq> 0) as) * 2)),
     enc_write = (\<lambda>p value. unknown_attrs_write 0 as value)\<rparr>"

definition FINGERPRINT_MAGIC :: u32 where
  "FINGERPRINT_MAGIC = 0x5354554e"

definition fingerprint_of :: "('x) extern_scheme \<Rightarrow> prefix \<Rightarrow> u32" where
  "fingerprint_of E p = crc32 E (reduce_over_prefix p) XOR FINGERPRINT_MAGIC"

fun fingerprint_decode :: "('x) extern_scheme \<Rightarrow> (bad_fingerprint, unit) attr_decode" where
  "fingerprint_decode E p (ptr, value) =
     ok (if length value = 4
         then if fingerprint_of E p = from_be_bytes value then Inr () else Inl BadFingerprint
         else Inl BadFingerprint)"

definition fingerprint_enc :: "('x) extern_scheme \<Rightarrow> unit \<Rightarrow> attr_enc" where
  "fingerprint_enc E u = \<lparr>
     enc_length = ok 4,
     enc_write = (\<lambda>p value. copy_from_slice value (to_be_bytes (fingerprint_of E p)))\<rparr>"

definition bad_reason :: str where
  "bad_reason = str_lit ''<Reason contained invalid UTF-8>''"

fun error_code_decode :: "(unexpected_length, u16 \<times> str) attr_decode" where
  "error_code_decode p (ptr, value) =
    (if length value < 4 then ok (Inl UnexpectedLength) else do {
     c \<leftarrow> index value 2;
     n \<leftarrow> index value 3;
     let class = c AND 0b111;
     let number = n mod 100;
     m \<leftarrow> mul_ck (ucast class) (100 :: u16);
     err_code \<leftarrow> add_ck m (ucast number);
     let reason = (if utf8_valid (drop 4 value) then drop 4 value else bad_reason);
     ok (Inr (err_code, reason)) })"

fun error_code_enc :: "u16 \<times> str \<Rightarrow> attr_enc" where
  "error_code_enc (code, reason) = \<lparr>
     enc_length = add_ck 4 (of_nat (length reason)),
     enc_write = (\<lambda>p value. do {
       assert (code \<le> 799);
       let class = (ucast (code div 100) :: byte);
       let number = (ucast (code mod 100) :: byte);
       value \<leftarrow> assign value 0 0;
       value \<leftarrow> assign value 1 0;
       value \<leftarrow> assign value 2 class;
       value \<leftarrow> assign value 3 number;
       tail \<leftarrow> copy_from_slice (drop 4 value) reason;
       ok (take 4 value @ tail) })\<rparr>"

section \<open>RFC 8656\<close>

fun address_error_decode :: "(unexpected_length, byte \<times> u16 \<times> str) attr_decode" where
  "address_error_decode p (ptr, value) = do {
     r \<leftarrow> error_code_decode p (ptr, value);
     case r of Inl e \<Rightarrow> ok (Inl e)
     | Inr (code, reason) \<Rightarrow> do { fam \<leftarrow> index value 0; ok (Inr (fam, code, reason)) } }"

fun address_error_enc :: "byte \<times> u16 \<times> str \<Rightarrow> attr_enc" where
  "address_error_enc (fam, code, reason) = \<lparr>
     enc_length = enc_length (error_code_enc (code, reason)),
     enc_write = (\<lambda>p value. do {
       value \<leftarrow> enc_write (error_code_enc (code, reason)) p value;
       assign value 0 fam })\<rparr>"

fun channel_decode :: "(unexpected_length, u16) attr_decode" where
  "channel_decode p (ptr, value) =
     ok (if length value < 2 then Inl UnexpectedLength else Inr (from_be_bytes (take 2 value)))"

definition channel_enc :: "u16 \<Rightarrow> attr_enc" where
  "channel_enc c = \<lparr>
     enc_length = ok 4,
     enc_write = (\<lambda>p value. do {
       value \<leftarrow> put value 0 (to_be_bytes c);
       put value 2 [0, 0] })\<rparr>"

fun even_port_decode :: "(unexpected_length, bool) attr_decode" where
  "even_port_decode p (ptr, value) =
     (if value = [] then ok (Inl UnexpectedLength)
      else do { v \<leftarrow> index value 0; ok (Inr (v AND 0b10000000 \<noteq> 0)) })"

definition even_port_enc :: "bool \<Rightarrow> attr_enc" where
  "even_port_enc b = \<lparr>
     enc_length = ok 1,
     enc_write = (\<lambda>p value. assign value 0 (push_bit 7 (if b then 1 else 0)))\<rparr>"

fun byte_decode :: "(unexpected_length, byte) attr_decode" where
  "byte_decode p (ptr, value) =
     (if length value < 1 then ok (Inl UnexpectedLength)
      else do { v \<leftarrow> index value 0; ok (Inr v) })"

definition byte_enc :: "byte \<Rightarrow> attr_enc" where
  "byte_enc v = \<lparr>
     enc_length = ok 4,
     enc_write = (\<lambda>p value. do {
       value \<leftarrow> assign value 0 v;
       put value 1 [0, 0, 0] })\<rparr>"

fun token_decode :: "(try_from_slice_error, byte list) attr_decode" where
  "token_decode p (ptr, value) =
     ok (if length value = 8 then Inr value else Inl TryFromSliceError)"

definition token_enc :: "byte list \<Rightarrow> attr_enc" where
  "token_enc t = \<lparr>enc_length = ok 8, enc_write = (\<lambda>p value. copy_from_slice value t)\<rparr>"

fun icmp_decode :: "(icmp_decode_error, byte \<times> byte \<times> u32) attr_decode" where
  "icmp_decode p value = ok (Inl NoIcmpDecoding)"

fun icmp_enc :: "byte \<times> byte \<times> u32 \<Rightarrow> attr_enc" where
  "icmp_enc (typ, code, arg) = \<lparr>
     enc_length = ok 8,
     enc_write = (\<lambda>p value. do {
       value \<leftarrow> assign value 0 typ;
       value \<leftarrow> assign value 1 code;
       value \<leftarrow> assign value 2 typ;
       value \<leftarrow> assign value 3 code;
       put value 4 (to_be_bytes arg) })\<rparr>"

section \<open>Message integrity\<close>

record integrity =
  mac_prefix :: prefix
  mac :: "byte list"

fun integrity_decode :: "nat \<Rightarrow> (try_from_slice_error, integrity) attr_decode" where
  "integrity_decode L p (ptr, value) =
     ok (if length value = L then Inr \<lparr>mac_prefix = p, mac = value\<rparr> else Inl TryFromSliceError)"

definition must_precede_integrity :: "u16 \<Rightarrow> bool" where
  "must_precede_integrity typ \<longleftrightarrow> typ = FINGERPRINT"

definition must_precede_fingerprint :: "u16 \<Rightarrow> bool" where
  "must_precede_fingerprint typ \<longleftrightarrow> False"

definition mac_of :: "('x) extern_scheme \<Rightarrow> byte list \<Rightarrow> prefix \<Rightarrow> byte list" where
  "mac_of E key p = to_be_bytes (hmac_sha1 E key (reduce_over_prefix p))"

definition verify :: "('x) extern_scheme \<Rightarrow> integrity \<Rightarrow> byte list \<Rightarrow> bool" where
  "verify E i key \<longleftrightarrow> mac i = mac_of E key (mac_prefix i)"

definition integrity_enc :: "('x) extern_scheme \<Rightarrow> byte list \<Rightarrow> attr_enc" where
  "integrity_enc E key = \<lparr>
     enc_length = ok 20,
     enc_write = (\<lambda>p value. copy_from_slice value (mac_of E key p))\<rparr>"

section \<open>The codecs meet the contract\<close>

lemma length_xor_loop: "xor_loop p bs = ok cs \<Longrightarrow> length cs = length bs"
  by (induction p bs arbitrary: cs rule: xor_loop.induct) (auto split: bind_splits)

lemma xor_loop_total: "length bs \<le> length p \<Longrightarrow> \<exists>cs. xor_loop p bs = ok cs \<and> xor_loop p cs = ok bs"
proof (induction p bs rule: xor_loop.induct)
  case (3 p ps b bs)
  then obtain cs where "xor_loop ps bs = ok cs" "xor_loop ps cs = ok bs" by auto
  then show ?case by (simp add: xor.assoc)
qed auto

lemma maybe_xor_involutive:
  assumes "prefix_ok p" and "length bs \<le> 16"
  obtains cs where "maybe_xor masked p bs = ok cs" "length cs = length bs" "maybe_xor masked p cs = ok bs"
proof -
  have "length bs \<le> length (prefix_rest p)" using assms by (simp add: prefix_ok_def)
  then obtain cs where "xor_loop (prefix_rest p) bs = ok cs" "xor_loop (prefix_rest p) cs = ok bs"
    using xor_loop_total by blast
  moreover from this have "length cs = length bs" by (blast dest: length_xor_loop)
  ultimately show thesis
    using assms that by (cases masked) (auto simp: maybe_xor_def xor_bytes_def)
qed

interpretation data: attr_codec slice_enc slice_decode length "\<lambda>s. length s < 65536" "\<lambda>p ptr s. (ptr, s)"
  by unfold_locales (auto simp: slice_enc_def copy_from_slice_def)

interpretation str: attr_codec str_enc str_decode length
    "\<lambda>s. utf8_valid s \<and> length s < 65536" "\<lambda>p ptr s. s"
  by unfold_locales (auto simp: str_enc_def copy_from_slice_def)

interpretation num32: attr_codec "numeric_enc :: u32 \<Rightarrow> attr_enc" numeric_decode "\<lambda>_. 4" "\<lambda>_. True" "\<lambda>p ptr w. w"
  by unfold_locales (auto simp: numeric_enc_def copy_from_slice_def be_simps)

interpretation num64: attr_codec "numeric_enc :: u64 \<Rightarrow> attr_enc" numeric_decode "\<lambda>_. 8" "\<lambda>_. True" "\<lambda>p ptr w. w"
  by unfold_locales (auto simp: numeric_enc_def copy_from_slice_def be_simps)

interpretation empty: attr_codec empty_enc empty_decode "\<lambda>_. 0" "\<lambda>_. True" "\<lambda>p ptr u. ()"
  by unfold_locales (auto simp: empty_enc_def)

interpretation fingerprint: attr_codec "fingerprint_enc E" "fingerprint_decode E" "\<lambda>_. 4" "\<lambda>_. True" "\<lambda>p ptr u. ()"
  for E
  by unfold_locales (auto simp: fingerprint_enc_def copy_from_slice_def be_simps)

interpretation integrity: attr_codec "integrity_enc E" "integrity_decode 20" "\<lambda>_. 20" "\<lambda>_. True"
    "\<lambda>p ptr key. \<lparr>mac_prefix = p, mac = mac_of E key p\<rparr>"
  for E
  by unfold_locales (auto simp: integrity_enc_def copy_from_slice_def mac_of_def)

interpretation token: attr_codec token_enc token_decode "\<lambda>_. 8" "\<lambda>t. length t = 8" "\<lambda>p ptr t. t"
  by unfold_locales (auto simp: token_enc_def copy_from_slice_def)

interpretation byte_attr: attr_codec byte_enc byte_decode "\<lambda>_. 4" "\<lambda>_. True" "\<lambda>p ptr v. v"
  by unfold_locales (auto simp: byte_enc_def assign_def index_def overwrite_def nth_append)

interpretation channel: attr_codec channel_enc channel_decode "\<lambda>_. 4" "\<lambda>_. True" "\<lambda>p ptr c. c"
  by unfold_locales (auto simp: channel_enc_def overwrite_def be_simps)

interpretation even_port: attr_codec even_port_enc even_port_decode "\<lambda>_. 1" "\<lambda>_. True" "\<lambda>p ptr b. b"
  by unfold_locales (auto simp: even_port_enc_def assign_def index_def length_Suc_conv)

text \<open>Addresses: the two bytes of the port and the octets are masked independently.\<close>

definition sockaddr_size :: "socket_addr \<Rightarrow> nat" where
  "sockaddr_size a = (case sa_ip a of IpV4 _ \<Rightarrow> 8 | IpV6 _ \<Rightarrow> 20)"

lemma sockaddr_write:
  assumes p: "prefix_ok p" and len: "length value = sockaddr_size a"
  shows "\<exists>w. enc_write (sockaddr_enc masked a) p value = ok w \<and> length w = sockaddr_size a \<and>
    (\<forall>ptr. sockaddr_decode masked p (ptr, w) = ok (Inr a))"
proof -
  obtain port where port: "maybe_xor masked p (to_be_bytes (sa_port a)) = ok port" "length port = 2"
      "maybe_xor masked p port = ok (to_be_bytes (sa_port a))"
    using maybe_xor_involutive [OF p, of "to_be_bytes (sa_port a)"] by auto
  let ?o = "case sa_ip a of IpV4 v4 \<Rightarrow> to_be_bytes v4 | IpV6 v6 \<Rightarrow> to_be_bytes v6"
  have lo: "length ?o = sockaddr_size a - 4" "length ?o \<le> 16"
    by (auto simp: sockaddr_size_def split: ip_addr.splits)
  obtain oct where oct: "maybe_xor masked p ?o = ok oct" "length oct = length ?o" "maybe_xor masked p oct = ok ?o"
    using maybe_xor_involutive [OF p lo(2)] by auto
  let ?w = "0 # (if is_ipv4 a then 1 else 2) # port @ oct"
  have "2 \<le> length value" using len by (auto simp: sockaddr_size_def split: ip_addr.splits)
  then obtain x y r where xyr: "value = x # y # r" "length r = sockaddr_size a - 2"
    using len first_two [of "value"] by auto
  have "4 \<le> sockaddr_size a" by (auto simp: sockaddr_size_def split: ip_addr.splits)
  with port oct lo xyr have "enc_write (sockaddr_enc masked a) p value = ok ?w"
    by (simp add: sockaddr_enc_def assign_def copy_from_slice_def overwrite_def)
  moreover have "sockaddr_decode masked p (ptr, ?w) = ok (Inr a)" for ptr
    using port oct lo
    by (cases a; cases "sa_ip a")
      (simp_all add: sockaddr_size_def is_ipv4_def index_def sub_def be_simps)
  moreover have "length ?w = sockaddr_size a"
    using port oct lo by (auto simp: sockaddr_size_def split: ip_addr.splits)
  ultimately show ?thesis by blast
qed

interpretation sockaddr: attr_codec "sockaddr_enc masked" "sockaddr_decode masked" sockaddr_size "\<lambda>_. True" "\<lambda>p ptr a. a"
  for masked
proof unfold_locales
  fix a p and v :: buf
  assume "prefix_ok p" and "length v = sockaddr_size a"
  then show "\<exists>w. enc_write (sockaddr_enc masked a) p v = ok w \<and> length w = sockaddr_size a \<and>
      (\<forall>ptr. sockaddr_decode masked p (ptr, w) = ok (Inr a))"
    by (rule sockaddr_write)
qed (auto simp: sockaddr_size_def sockaddr_enc_def split: ip_addr.splits)

text \<open>Error codes 0 to 799 with a UTF-8 reason.\<close>

definition error_code_ok :: "u16 \<times> str \<Rightarrow> bool" where
  "error_code_ok c \<longleftrightarrow> fst c \<le> 799 \<and> utf8_valid (snd c) \<and> length (snd c) < 65532"

lemma error_code_number:
  fixes code :: u16
  assumes "code \<le> 799"
  defines "c \<equiv> ucast (code div 100) :: byte" and "n \<equiv> ucast (code mod 100) :: byte"
  shows "mul_ck (ucast (c AND 0b111)) 100 = ok (code div 100 * 100)"
    and "add_ck (code div 100 * 100) (ucast (n mod 100)) = ok code"
proof -
  have le: "unat code \<le> 799" using assms(1) by (simp add: word_le_nat_alt)
  have c: "unat c = unat code div 100" and n: "unat n = unat code mod 100"
    using le by (simp_all add: c_def n_def unsigned_ucast_eq take_bit_nat_def unat_div unat_mod)
  have "take_bit 3 c = c"
    by (rule word_unat_eq_iff [THEN iffD2]) (use le in \<open>simp add: unsigned_take_bit_eq take_bit_nat_def c\<close>)
  moreover have "(0b111 :: byte) = mask 3" by (simp add: mask_eq_exp_minus_1)
  ultimately have "c AND 0b111 = c" by (simp add: take_bit_eq_mask)
  moreover have cc: "(ucast c :: u16) = code div 100"
    by (rule word_unat_eq_iff [THEN iffD2]) (use le in \<open>simp add: unsigned_ucast_eq take_bit_nat_def c unat_div\<close>)
  ultimately show "mul_ck (ucast (c AND 0b111)) 100 = ok (code div 100 * 100)"
    using le by (simp add: mul_ck_fits unat_div)
  have nn: "(ucast (n mod 100) :: u16) = code mod 100"
    by (rule word_unat_eq_iff [THEN iffD2]) (simp add: unsigned_ucast_eq take_bit_nat_def n unat_mod)
  have "unat (code div 100 * 100) = unat code div 100 * 100"
    using le by (simp add: unat_word_ariths unat_div)
  moreover have "code div 100 * 100 + code mod 100 = code" by (rule div_mult_mod_eq)
  moreover have "unat code div 100 * 100 + unat code mod 100 = unat code" by (rule div_mult_mod_eq)
  ultimately show "add_ck (code div 100 * 100) (ucast (n mod 100)) = ok code"
    using le by (simp add: nn unat_mod)
qed

lemma error_code_write:
  assumes "error_code_ok (code, reason)" and "length value = 4 + length reason"
  shows "enc_write (error_code_enc (code, reason)) p value =
    ok ([0, 0, ucast (code div 100), ucast (code mod 100)] @ reason)"
proof -
  obtain a b c d r where "value = a # b # c # d # r" using assms(2) first_four_elems [of "value"] by auto
  with assms show ?thesis
    by (simp add: error_code_ok_def assign_def copy_from_slice_def Let_def)
qed

lemma error_code_read:
  assumes "error_code_ok (code, reason)"
  shows "error_code_decode p (ptr, [x, y, ucast (code div 100), ucast (code mod 100)] @ reason) =
    ok (Inr (code, reason))"
  using assms error_code_number [of code] by (simp add: error_code_ok_def index_def Let_def)

lemma error_code_length:
  assumes "error_code_ok (code, reason)"
  shows "enc_length (error_code_enc (code, reason)) = ok (of_nat (4 + length reason))"
proof -
  have "unat (of_nat (length reason) :: u16) = length reason"
    using assms by (intro unat_of_nat_u16) (simp add: error_code_ok_def)
  with assms show ?thesis by (simp add: error_code_ok_def)
qed

interpretation error_code: attr_codec error_code_enc error_code_decode "\<lambda>c. 4 + length (snd c)" error_code_ok "\<lambda>p ptr c. c"
proof unfold_locales
  fix a p and v :: buf
  assume "error_code_ok a" and "length v = 4 + length (snd a)"
  then show "\<exists>w. enc_write (error_code_enc a) p v = ok w \<and> length w = 4 + length (snd a) \<and>
      (\<forall>ptr. error_code_decode p (ptr, w) = ok (Inr a))"
    using error_code_write [of "fst a" "snd a" v p] error_code_read [of "fst a" "snd a" p] by force
qed (use error_code_length in \<open>auto simp: error_code_ok_def\<close>)

definition address_error_ok :: "byte \<times> u16 \<times> str \<Rightarrow> bool" where
  "address_error_ok a \<longleftrightarrow> error_code_ok (snd a)"

interpretation address_error: attr_codec address_error_enc address_error_decode
    "\<lambda>a. 4 + length (snd (snd a))" address_error_ok "\<lambda>p ptr a. a"
proof unfold_locales
  fix a :: "byte \<times> u16 \<times> str" and p and v :: buf
  obtain fam code reason where a: "a = (fam, code, reason)" by (cases a)
  assume "address_error_ok a" and "length v = 4 + length (snd (snd a))"
  then have ok: "error_code_ok (code, reason)" and len: "length v = 4 + length reason"
    by (simp_all add: a address_error_ok_def)
  let ?w = "[fam, 0, ucast (code div 100), ucast (code mod 100)] @ reason"
  have "enc_write (address_error_enc a) p v = ok ?w"
    using error_code_write [OF ok len] by (simp add: a assign_def del: error_code_enc.simps)
  moreover have "address_error_decode p (ptr, ?w) = ok (Inr a)" for ptr
    using error_code_read [OF ok] by (simp add: a index_def del: error_code_decode.simps)
  ultimately show "\<exists>w. enc_write (address_error_enc a) p v = ok w \<and>
      length w = 4 + length (snd (snd a)) \<and> (\<forall>ptr. address_error_decode p (ptr, w) = ok (Inr a))"
    by (auto simp: a simp del: address_error_decode.simps address_error_enc.simps)
qed (use error_code_length in \<open>auto simp: address_error_ok_def error_code_ok_def\<close>)

text \<open>
  A list of unknown attribute types in an array of \<open>N\<close> slots: the encoder stops at the first
  zero, so the zeros must all be at the end.
\<close>

definition zeros_last :: "nat \<Rightarrow> u16 list \<Rightarrow> bool" where
  "zeros_last N as \<longleftrightarrow>
     length as = N \<and> N < 32768 \<and> (\<forall>a \<in> set (dropWhile (\<lambda>a. a \<noteq> 0) as). a = 0)"

lemma zeros_last_split:
  assumes "zeros_last N as"
  obtains ks where "as = ks @ replicate (N - length ks) 0" "filter (\<lambda>a. a \<noteq> 0) as = ks"
    "\<forall>k \<in> set ks. k \<noteq> 0" "length ks \<le> N"
proof
  let ?ks = "takeWhile (\<lambda>a. a \<noteq> 0) as" and ?zs = "dropWhile (\<lambda>a. a \<noteq> 0) as"
  have len: "length ?ks + length ?zs = N"
    using assms by (metis length_append takeWhile_dropWhile_id zeros_last_def)
  have zs: "replicate (length ?zs) 0 = ?zs"
    using assms unfolding zeros_last_def by (intro replicate_length_same) blast
  have "N - length ?ks = length ?zs" using len by simp
  moreover have "?ks @ replicate (length ?zs) 0 = as"
    by (subst zs) simp
  ultimately show as: "as = ?ks @ replicate (N - length ?ks) 0" by simp
  show nz: "\<forall>k \<in> set ?ks. k \<noteq> 0" by (auto dest: set_takeWhileD)
  show "filter (\<lambda>a. a \<noteq> 0) as = ?ks"
    by (subst as) (use nz in simp)
  show "length ?ks \<le> N" using len by simp
qed

lemma unknown_attrs_write_ok:
  assumes "\<forall>k \<in> set ks. k \<noteq> 0" and "2 * (i + length ks) \<le> length v"
  shows "unknown_attrs_write i (ks @ replicate m 0) v =
    ok (take (2 * i) v @ concat (map to_be_bytes ks) @ drop (2 * (i + length ks)) v)"
  using assms
proof (induction ks arbitrary: i v)
  case Nil
  then show ?case by (cases m) simp_all
next
  case (Cons k ks)
  let ?v = "overwrite v (i * 2) (to_be_bytes k)"
  have "unknown_attrs_write (Suc i) (ks @ replicate m 0) ?v =
      ok (take (2 * Suc i) ?v @ concat (map to_be_bytes ks) @ drop (2 * (Suc i + length ks)) ?v)"
    using Cons.prems by (intro Cons.IH) auto
  with Cons.prems show ?case by (simp add: overwrite_def mult.commute [of i] add.commute [of "2 * length ks"])
qed

lemma chunks2_concat: "chunks2 (concat (map to_be_bytes (ks :: u16 list))) = ks"
proof (induction ks)
  case (Cons k ks)
  have "from_be_bytes (to_be_bytes k) = k" by (simp add: be_simps)
  with Cons show ?case by (simp add: to_be_bytes_u16)
qed simp

interpretation unknown_attrs: attr_codec unknown_attrs_enc "unknown_attrs_decode N"
    "\<lambda>as. length (filter (\<lambda>a. a \<noteq> 0) as) * 2" "zeros_last N" "\<lambda>p ptr as. as"
  for N
proof unfold_locales
  fix as :: "u16 list" and p and v :: buf
  assume ok: "zeros_last N as" and len: "length v = length (filter (\<lambda>a. a \<noteq> 0) as) * 2"
  obtain ks where ks: "as = ks @ replicate (N - length ks) 0" "filter (\<lambda>a. a \<noteq> 0) as = ks"
      "\<forall>k \<in> set ks. k \<noteq> 0" "length ks \<le> N"
    using ok by (rule zeros_last_split)
  have "unknown_attrs_write 0 as v = ok (concat (map to_be_bytes ks))"
    using unknown_attrs_write_ok [of ks 0 v "N - length ks"] ks len by simp
  moreover have "unknown_attrs_decode N p (ptr, concat (map to_be_bytes ks)) = ok (Inr as)" for ptr
    using ks by (simp add: chunks2_concat)
  moreover have "length (concat (map to_be_bytes ks)) = 2 * length ks"
    by (induction ks) simp_all
  ultimately show "\<exists>w. enc_write (unknown_attrs_enc as) p v = ok w \<and>
      length w = length (filter (\<lambda>a. a \<noteq> 0) as) * 2 \<and>
      (\<forall>ptr. unknown_attrs_decode N p (ptr, w) = ok (Inr as))"
    using ks(2) by (auto simp: unknown_attrs_enc_def simp del: unknown_attrs_decode.simps)
next
  fix as :: "u16 list"
  assume "zeros_last N as"
  then show "length (filter (\<lambda>a. a \<noteq> 0) as) * 2 < 65536"
    using length_filter_le [of "\<lambda>a. a \<noteq> 0" as] unfolding zeros_last_def by linarith
qed (simp add: unknown_attrs_enc_def)

end
