(* ===== verification/Attr_Parse.thy ===== *)
theory Attr_Parse
  imports Attr_Values
begin

text \<open>
  \<^verbatim>\<open>src/stun/attr/parse.rs\<close>: the iterator adaptor that picks one attribute type out of the stream of
  attributes, and the collection of unknown attributes at the end of a chain of adaptors.

  The adaptors are lazy, but each one only talks to the next through the items it passes on and
  \<open>collect_unknown\<close> exhausts the chain, so a chain is modelled one adaptor after the other on lists
  of items. The closure of an adaptor, \<open>decode\<close>, can be used once (\<^verbatim>\<open>Option::take\<close>): it is a flag
  here, and what the closure writes is the field \<open>dest\<close>.
\<close>

definition comprehension_required :: "u16 \<Rightarrow> bool" where
  "comprehension_required typ \<longleftrightarrow> typ < 0x8000"

record 'a attr_parser =
  ap_typ :: u16
  ap_must_precede :: "u16 \<Rightarrow> bool"
  ap_decode :: bool
  dest :: "'a option"

fun attr_parser_next ::
    "(prefix \<Rightarrow> bytes_ref \<Rightarrow> 'a option run) \<Rightarrow> 'a attr_parser \<Rightarrow> item list \<Rightarrow>
     ('a attr_parser \<times> item list \<times> item option) run" where
  "attr_parser_next func P [] = ok (P, [], None)"
| "attr_parser_next func P ((prefix, typ, value) # inner) =
     (if typ = ap_typ P then
        (case (if ap_decode P
               then do { d \<leftarrow> func prefix value; ok (P\<lparr>ap_decode := False, dest := d\<rparr>) }
               else ok P) of
           None \<Rightarrow> panic
         | Some P' \<Rightarrow> attr_parser_next func P' inner)
      else
        ok (if ap_must_precede P typ then P\<lparr>ap_decode := False\<rparr> else P,
            inner, Some (prefix, typ, value)))"

lemma attr_parser_next_shorter:
  "attr_parser_next func P inner = ok (P', inner', Some x) \<Longrightarrow> length inner' < length inner"
  by (induction func P inner rule: attr_parser_next.induct)
    (auto split: if_splits option.splits)

function attr_parser_drain ::
    "(prefix \<Rightarrow> bytes_ref \<Rightarrow> 'a option run) \<Rightarrow> 'a attr_parser \<Rightarrow> item list \<Rightarrow>
     ('a attr_parser \<times> item list) run" where
  "attr_parser_drain func P inner =
     (case attr_parser_next func P inner of
        None \<Rightarrow> panic
      | Some (P', inner', None) \<Rightarrow> ok (P', [])
      | Some (P', inner', Some x) \<Rightarrow>
          map_option (\<lambda>(P'', xs). (P'', x # xs)) (attr_parser_drain func P' inner'))"
  by pat_completeness auto
termination
  by (relation "measure (\<lambda>(func, P, inner). length inner)") (auto dest: attr_parser_next_shorter)

declare attr_parser_drain.simps [simp del]

definition attr_parser_new :: "u16 \<Rightarrow> (u16 \<Rightarrow> bool) \<Rightarrow> 'a attr_parser" where
  [simp]: "attr_parser_new T mp = \<lparr>ap_typ = T, ap_must_precede = mp, ap_decode = True, dest = None\<rparr>"

definition parse_with_err ::
    "u16 \<Rightarrow> (u16 \<Rightarrow> bool) \<Rightarrow> ('e, 'a) attr_decode \<Rightarrow> item list \<Rightarrow> (('e + 'a) option \<times> item list) run" where
  "parse_with_err T mp dec items = do {
     (P, xs) \<leftarrow> attr_parser_drain (\<lambda>p v. do { r \<leftarrow> dec p v; ok (Some r) })
       (attr_parser_new T mp) items;
     ok (dest P, xs)
   }"

text \<open>\<^verbatim>\<open>Result::ok\<close>\<close>

fun ok_of :: "'e + 'a \<Rightarrow> 'a option" where
  "ok_of (Inl e) = None"
| "ok_of (Inr a) = Some a"

definition parse ::
    "u16 \<Rightarrow> (u16 \<Rightarrow> bool) \<Rightarrow> ('e, 'a) attr_decode \<Rightarrow> item list \<Rightarrow> ('a option \<times> item list) run" where
  "parse T mp dec items = do {
     (P, xs) \<leftarrow> attr_parser_drain (\<lambda>p v. do { r \<leftarrow> dec p v; ok (ok_of r) })
       (attr_parser_new T mp) items;
     ok (dest P, xs)
   }"

definition collect_unknown_all :: "item list \<Rightarrow> u16 list" where
  "collect_unknown_all items = filter comprehension_required (map (\<lambda>(_, typ, _). typ) items)"

fun note_unknown :: "u16 \<Rightarrow> u16 list \<Rightarrow> u16 list" where
  "note_unknown typ [] = []"
| "note_unknown typ (d # ds) =
     (if d = typ then d # ds else if d = 0 then typ # ds else d # note_unknown typ ds)"

definition collect_unknown :: "nat \<Rightarrow> item list \<Rightarrow> u16 list option" where
  "collect_unknown N items =
     (let ret = foldl (\<lambda>ret (_, typ, _). if comprehension_required typ then note_unknown typ ret else ret)
                  (replicate N 0) items
      in if list_all (\<lambda>t. t = 0) ret then None else Some ret)"

section \<open>What an adaptor finds\<close>

text \<open>
  An adaptor removes every attribute of its type from the stream and decodes the first one,
  provided no attribute it has to precede came earlier.
\<close>

definition item_typ :: "item \<Rightarrow> u16" where
  "item_typ x = fst (snd x)"

definition candidate :: "u16 \<Rightarrow> (u16 \<Rightarrow> bool) \<Rightarrow> item list \<Rightarrow> item option" where
  "candidate T mp items =
     find (\<lambda>x. item_typ x = T) (takeWhile (\<lambda>x. item_typ x = T \<or> \<not> mp (item_typ x)) items)"

lemma drain_Nil: "attr_parser_drain func P [] = ok (P, [])"
  by (subst attr_parser_drain.simps) simp

lemma drain_skip:
  "item_typ x = ap_typ P \<Longrightarrow> \<not> ap_decode P \<Longrightarrow>
    attr_parser_drain func P (x # items) = attr_parser_drain func P items"
  by (cases x, subst (1 2) attr_parser_drain.simps) (simp add: item_typ_def)

lemma drain_take:
  "ap_typ P = T \<Longrightarrow> ap_decode P \<Longrightarrow>
    attr_parser_drain func P ((p, T, v) # items) =
    do { d \<leftarrow> func p v; attr_parser_drain func (P\<lparr>ap_decode := False, dest := d\<rparr>) items }"
  by (cases "func p v") (simp_all add: attr_parser_drain.simps [of func P "_ # _"]
      attr_parser_drain.simps [of func "_ \<lparr>dest := _\<rparr>"])

lemma drain_pass:
  "item_typ x \<noteq> ap_typ P \<Longrightarrow>
    attr_parser_drain func P (x # items) = map_option (\<lambda>(P', xs). (P', x # xs))
      (attr_parser_drain func (if ap_must_precede P (item_typ x) then P\<lparr>ap_decode := False\<rparr> else P) items)"
  by (cases x, subst attr_parser_drain.simps) (simp add: item_typ_def)

lemma drain_disarmed:
  "\<not> ap_decode P \<Longrightarrow> attr_parser_drain func P items = ok (P, filter (\<lambda>x. item_typ x \<noteq> ap_typ P) items)"
proof (induction items)
  case (Cons x items)
  have same: "P\<lparr>ap_decode := False\<rparr> = P" using Cons.prems by (cases P) simp
  show ?case
    using Cons drain_pass [of x P func items, unfolded same if_cancel]
    by (cases "item_typ x = ap_typ P") (simp_all add: drain_skip)
qed (simp add: drain_Nil)

lemma drain_armed:
  "ap_decode P \<Longrightarrow> attr_parser_drain func P items =
    (case candidate (ap_typ P) (ap_must_precede P) items of
       None \<Rightarrow> ok (P\<lparr>ap_decode := list_all (\<lambda>x. \<not> ap_must_precede P (item_typ x)) items\<rparr>,
                  filter (\<lambda>x. item_typ x \<noteq> ap_typ P) items)
     | Some (p, _, v) \<Rightarrow> do {
         d \<leftarrow> func p v;
         ok (P\<lparr>ap_decode := False, dest := d\<rparr>, filter (\<lambda>x. item_typ x \<noteq> ap_typ P) items) })"
proof (induction items)
  case Nil
  then show ?case by (simp add: drain_Nil candidate_def)
next
  case (Cons x items)
  consider (mine) "item_typ x = ap_typ P" | (late) "item_typ x \<noteq> ap_typ P" "ap_must_precede P (item_typ x)"
    | (other) "item_typ x \<noteq> ap_typ P" "\<not> ap_must_precede P (item_typ x)" by blast
  then show ?case
  proof cases
    case mine
    obtain p v where "x = (p, ap_typ P, v)" using mine by (cases x) (simp add: item_typ_def)
    then show ?thesis
      using Cons.prems by (simp add: drain_take drain_disarmed candidate_def item_typ_def)
  next
    case late
    then show ?thesis by (simp add: drain_pass drain_disarmed candidate_def)
  next
    case other
    then have "candidate (ap_typ P) (ap_must_precede P) (x # items) =
        candidate (ap_typ P) (ap_must_precede P) items"
      by (simp add: candidate_def)
    with other Cons show ?thesis
      by (auto simp: drain_pass split: option.splits bind_splits)
  qed
qed

lemma parse_spec:
  "parse T mp dec items =
    (case candidate T mp items of
       None \<Rightarrow> ok (None, filter (\<lambda>x. item_typ x \<noteq> T) items)
     | Some (p, _, v) \<Rightarrow> do { r \<leftarrow> dec p v; ok (ok_of r, filter (\<lambda>x. item_typ x \<noteq> T) items) })"
  by (auto simp: parse_def drain_armed split: option.splits bind_splits)

lemma parse_with_err_spec:
  "parse_with_err T mp dec items =
    (case candidate T mp items of
       None \<Rightarrow> ok (None, filter (\<lambda>x. item_typ x \<noteq> T) items)
     | Some (p, _, v) \<Rightarrow> do { r \<leftarrow> dec p v; ok (Some r, filter (\<lambda>x. item_typ x \<noteq> T) items) })"
  by (auto simp: parse_with_err_def drain_armed split: option.splits bind_splits)

section \<open>What is reported as unknown\<close>

text \<open>\<open>first_seen\<close> keeps the first occurrence of every element.\<close>

definition first_seen :: "'a list \<Rightarrow> 'a list" where
  "first_seen xs = rev (remdups (rev xs))"

lemma first_seen_snoc: "first_seen (xs @ [x]) = (if x \<in> set xs then first_seen xs else first_seen xs @ [x])"
  by (simp add: first_seen_def)

lemma set_first_seen [simp]: "set (first_seen xs) = set xs"
  by (simp add: first_seen_def)

lemma distinct_first_seen: "distinct (first_seen xs)"
  by (simp add: first_seen_def)

lemma note_unknown_slots:
  assumes "\<forall>k \<in> set ks. k \<noteq> 0"
  shows "note_unknown t (ks @ replicate m 0) =
    (if t \<in> set ks \<or> t = 0 \<or> m = 0 then ks @ replicate m 0 else ks @ t # replicate (m - 1) 0)"
  using assms by (induction ks) (cases m; auto)+

definition unknown_types :: "item list \<Rightarrow> u16 list" where
  "unknown_types items = first_seen (filter (\<lambda>t. t \<noteq> 0) (collect_unknown_all items))"

lemma collect_unknown_loop:
  "foldl (\<lambda>ret (_, typ, _). if comprehension_required typ then note_unknown typ ret else ret)
     (replicate N 0) items =
   take N (unknown_types items) @ replicate (N - length (unknown_types items)) 0"
proof (induction items rule: rev_induct)
  case Nil
  then show ?case by (simp add: unknown_types_def collect_unknown_all_def first_seen_def)
next
  case (snoc x items)
  obtain p t v where x: "x = (p, t, v)" by (cases x)
  let ?us = "unknown_types items"
  have nz: "\<forall>k \<in> set (take N ?us). k \<noteq> 0"
    by (auto simp: unknown_types_def dest: in_set_takeD)
  show ?case
  proof (cases "comprehension_required t \<and> t \<noteq> 0 \<and> t \<notin> set ?us")
    case True
    then have "unknown_types (items @ [x]) = ?us @ [t]"
      by (auto simp: unknown_types_def collect_unknown_all_def x first_seen_snoc)
    moreover have "t \<notin> set (take N ?us)" using True by (auto dest: in_set_takeD)
    ultimately show ?thesis
      using True nz snoc by (simp add: x note_unknown_slots)
  next
    case False
    then have "unknown_types (items @ [x]) = ?us"
      by (auto simp: unknown_types_def collect_unknown_all_def x first_seen_snoc)
    moreover have "t \<in> set ?us \<Longrightarrow> t \<in> set (take N ?us) \<or> N - length ?us = 0"
      by (metis diff_is_0_eq nat_le_linear take_all)
    ultimately show ?thesis
      using False nz snoc by (auto simp: x note_unknown_slots)
  qed
qed

text \<open>
  The result of \<open>collect_unknown\<close> is the list of the first \<open>N\<close> distinct comprehension-required
  types, in the order of the message, padded with zeros. A type of 0 is never reported.
\<close>

lemma collect_unknown_eq:
  "collect_unknown N items =
    (if take N (unknown_types items) = [] then None
     else Some (take N (unknown_types items) @ replicate (N - length (unknown_types items)) 0))"
proof -
  have "\<forall>k \<in> set (take N (unknown_types items)). k \<noteq> 0"
    by (auto simp: unknown_types_def dest: in_set_takeD)
  then have "list_all (\<lambda>t. t = 0) (take N (unknown_types items)) \<longleftrightarrow> take N (unknown_types items) = []"
    by (cases "take N (unknown_types items)") auto
  then show ?thesis
    unfolding collect_unknown_def Let_def collect_unknown_loop
    by (simp add: list_all_append) (simp add: list_all_iff)
qed

lemma collect_unknown_zeros_last:
  assumes "collect_unknown N items = Some us" and "N < 32768"
  shows "zeros_last N us"
proof -
  let ?ts = "take N (unknown_types items)"
  have us: "us = ?ts @ replicate (N - length (unknown_types items)) 0"
    using assms(1) by (simp add: collect_unknown_eq split: if_splits)
  have "\<forall>k \<in> set ?ts. k \<noteq> 0" by (auto simp: unknown_types_def dest: in_set_takeD)
  then have "dropWhile (\<lambda>a. a \<noteq> 0) us = replicate (N - length (unknown_types items)) 0"
    by (simp add: us dropWhile_append)
  then show ?thesis using assms(2) us by (auto simp: zeros_last_def)
qed

section \<open>Chains of adaptors\<close>

text \<open>
  \<open>dec_total\<close>: a decoder does not panic on an item the iterator yields. What an adaptor with such
  a decoder hands to its client is \<open>found\<close>; adaptors for other types further up the chain only
  make their own type invisible.
\<close>

definition dec_total :: "('e, 'a) attr_decode \<Rightarrow> bool" where
  "dec_total dec \<longleftrightarrow> (\<forall>p ptr v. prefix_ok p \<longrightarrow> dec p (ptr, v) \<noteq> panic)"

definition decoded :: "('e, 'a) attr_decode \<Rightarrow> item \<Rightarrow> 'a option" where
  "decoded dec x = Option.bind (dec (fst x) (snd (snd x))) ok_of"

definition found :: "u16 \<Rightarrow> (u16 \<Rightarrow> bool) \<Rightarrow> ('e, 'a) attr_decode \<Rightarrow> item list \<Rightarrow> 'a option" where
  "found T mp dec items = Option.bind (candidate T mp items) (decoded dec)"

definition hide :: "u16 \<Rightarrow> item list \<Rightarrow> item list" where
  "hide T items = filter (\<lambda>x. item_typ x \<noteq> T) items"

text \<open>The first attribute of the type counts when nothing before it must follow it, and none counts after one that must.\<close>

lemma found_first:
  assumes "item_typ x = T" and "\<forall>y \<in> set xs. item_typ y \<noteq> T \<and> \<not> mp (item_typ y)"
  shows "found T mp dec (xs @ x # ys) = decoded dec x"
proof -
  have "takeWhile (\<lambda>x. item_typ x = T \<or> \<not> mp (item_typ x)) (xs @ zs) = xs @ takeWhile (\<lambda>x. item_typ x = T \<or> \<not> mp (item_typ x)) zs" for zs
    using assms(2) by (induction xs) auto
  moreover have "find (\<lambda>x. item_typ x = T) (xs @ zs) = find (\<lambda>x. item_typ x = T) zs" for zs
    using assms(2) by (induction xs) auto
  ultimately show ?thesis using assms(1) by (simp add: found_def candidate_def)
qed

lemma found_blocked:
  assumes "\<forall>y \<in> set xs. item_typ y \<noteq> T" and "item_typ m \<noteq> T" and "mp (item_typ m)"
  shows "found T mp dec (xs @ m # ys) = None"
proof -
  have "find (\<lambda>x. item_typ x = T) (takeWhile (\<lambda>x. item_typ x = T \<or> \<not> mp (item_typ x)) (xs @ m # ys)) = None"
    using assms by (induction xs) auto
  then show ?thesis by (simp add: found_def candidate_def)
qed

lemma candidate_mem:
  assumes "candidate T mp items = Some x"
  shows "x \<in> set items" and "item_typ x = T"
  using assms by (auto simp: candidate_def find_Some_iff dest: nth_mem set_takeWhileD)

lemma parse_found:
  assumes "dec_total dec" and "\<forall>x \<in> set items. prefix_ok (fst x)"
  shows "parse T mp dec items = ok (found T mp dec items, hide T items)"
proof (cases "candidate T mp items")
  case (Some x)
  obtain p t ptr v where x: "x = (p, t, (ptr, v))" by (cases x) auto
  have "prefix_ok p" using assms(2) candidate_mem(1) [OF Some] by (auto simp: x)
  then obtain r where "dec p (ptr, v) = ok r" using assms(1) unfolding dec_total_def by blast
  then show ?thesis by (simp add: parse_spec Some x found_def decoded_def hide_def)
qed (simp add: parse_spec found_def hide_def)

text \<open>After adaptors for the types \<open>Ts\<close>.\<close>

definition hides :: "u16 list \<Rightarrow> item list \<Rightarrow> item list" where
  "hides Ts items = filter (\<lambda>x. item_typ x \<notin> set Ts) items"

lemma hides_Nil: "hides [] items = items"
  by (simp add: hides_def)

lemma hide_hides: "hide T (hides Ts items) = hides (Ts @ [T]) items"
  by (simp add: hide_def hides_def conj_commute)

lemma candidate_hides:
  "T \<notin> set Ts \<Longrightarrow> candidate T mp (hides Ts items) = candidate T (\<lambda>t. mp t \<and> t \<notin> set Ts) items"
  by (induction items) (auto simp: candidate_def hides_def)

lemma parse_hides:
  assumes "\<forall>x \<in> set items. prefix_ok (fst x)" and "dec_total dec" and "T \<notin> set Ts"
    and "\<And>t. mp t \<and> t \<notin> set Ts \<longleftrightarrow> mp' t" and "Ts' = Ts @ [T]"
  shows "parse T mp dec (hides Ts items) = ok (found T mp' dec items, hides Ts' items)"
proof -
  have "\<forall>x \<in> set (hides Ts items). prefix_ok (fst x)" using assms(1) by (simp add: hides_def)
  then show ?thesis
    using assms by (simp add: parse_found hide_hides found_def candidate_hides)
qed

lemma maybe_xor_total:
  assumes "prefix_ok p" and "length bs \<le> 16"
  shows "\<exists>cs. maybe_xor masked p bs = ok cs"
  using maybe_xor_involutive [OF assms] by blast

lemma sockaddr_decode_total: "dec_total (sockaddr_decode masked)"
  unfolding dec_total_def
proof (intro allI impI)
  fix p ptr and v :: "byte list"
  assume p: "prefix_ok p"
  have sub: "\<exists>cs. maybe_xor masked p (sub v i n) = ok cs" if "n \<le> 16" for i n
    using that by (intro maybe_xor_total [OF p]) simp
  obtain po o4 o16 where "maybe_xor masked p (sub v 2 2) = ok po"
      "maybe_xor masked p (sub v 4 4) = ok o4" "maybe_xor masked p (sub v 4 16) = ok o16"
    using sub [of 2 2] sub [of 4 4] sub [of 16 4] by auto
  then show "sockaddr_decode masked p (ptr, v) \<noteq> panic"
    by (auto simp: index_def Let_def)
qed

lemma plain_decoders_total:
  "dec_total str_decode" "dec_total (integrity_decode L)" "dec_total channel_decode"
  "dec_total (numeric_decode :: (try_from_slice_error, 'a::len word) attr_decode)"
  "dec_total byte_decode" "dec_total (slice_decode :: ('e, bytes_ref) attr_decode)"
  "dec_total (fingerprint_decode E)" "dec_total (empty_decode :: ('f, unit) attr_decode)"
  by (auto simp: dec_total_def index_def)

lemma error_code_decode_total: "dec_total error_code_decode"
  unfolding dec_total_def
proof (intro allI impI)
  fix p ptr and v :: "byte list"
  have "unat (ucast (v ! 2 AND 7) :: u16) = unat (v ! 2) mod 8"
  proof -
    have "(7 :: byte) = mask 3" by (simp add: mask_eq_exp_minus_1)
    then have "v ! 2 AND 7 = take_bit 3 (v ! 2)" by (simp add: take_bit_eq_mask)
    then show ?thesis
      using byte_bound [of "v ! 2"] by (simp add: unsigned_ucast_eq unsigned_take_bit_eq take_bit_nat_def)
  qed
  then have m: "mul_ck (ucast (v ! 2 AND 7)) 100 = ok (ucast (v ! 2 AND 7) * 100 :: u16)"
      "unat (ucast (v ! 2 AND 7) * 100 :: u16) \<le> 700"
    by (auto simp: mul_ck_fits unat_word_ariths)
  moreover have "unat (ucast (v ! 3 mod 100) :: u16) < 100"
    by (simp add: unsigned_ucast_eq take_bit_nat_def unat_mod)
  ultimately have "add_ck (ucast (v ! 2 AND 7) * 100 :: u16) (ucast (v ! 3 mod 100)) \<noteq> panic"
    by simp
  with m show "error_code_decode p (ptr, v) \<noteq> panic"
    by (auto simp: index_def Let_def)
qed

lemmas decoders_total = plain_decoders_total sockaddr_decode_total error_code_decode_total

end
