(* ===== verification/Common.thy ===== *)
theory Common
  imports Attr_Parse
begin

text \<open>
  \<^verbatim>\<open>src/common/mod.rs\<close>: the TURN request handler \<open>handle_turn\<close>, the handler \<open>handle_net\<close> for packets
  from the TUN interface, and the UDP checksum.

  A handler returns what the Rust function returns and, for \<open>handle_turn\<close>, the packets it sends
  to the network, in order; the result of the send is ignored by the code. The buffer is shared
  and mutated in place, so a returned message is the whole buffer after the writes. The random
  transaction id of \<open>handle_net\<close> is an argument.
\<close>

section \<open>UDP checksum\<close>

definition udp_checksum_fill :: "ip6_header \<Rightarrow> udp_header \<Rightarrow> buf \<Rightarrow> udp_header run" where
  "udp_checksum_fill ip udp data = do {
     let udp = udp\<lparr>checksum := 0\<rparr>;
     c \<leftarrow> ip_checksum [to_be_bytes (src ip), to_be_bytes (dst ip), [0, next_header ip],
            to_be_bytes (payload_length ip), udp_as_bytes udp, data];
     ok (udp\<lparr>checksum := (if c = 0 then 0xffff else c)\<rparr>)
   }"

section \<open>TURN requests\<close>

record turn_attrs =
  ta_username :: "str option"
  ta_realm :: "str option"
  ta_integrity :: "integrity option"
  ta_nonce :: "str option"
  ta_lifetime :: "u32 option"
  ta_requested_transport :: "byte option"
  ta_channel :: "u16 option"
  ta_xor_peer :: "socket_addr option"
  ta_data :: "bytes_ref option"
  ta_unknown :: "u16 list option"

definition parse_turn_attrs :: "stun \<Rightarrow> turn_attrs run" where
  "parse_turn_attrs msg = do {
     items \<leftarrow> attrs msg;
     (username, items) \<leftarrow> parse USERNAME must_precede_default str_decode items;
     (realm, items) \<leftarrow> parse REALM must_precede_default str_decode items;
     (integrity, items) \<leftarrow> parse MESSAGE_INTEGRITY must_precede_integrity (integrity_decode 20) items;
     (nonce, items) \<leftarrow> parse NONCE must_precede_default str_decode items;
     (lifetime, items) \<leftarrow> parse LIFETIME must_precede_default numeric_decode items;
     (transport, items) \<leftarrow> parse REQUESTED_TRANSPORT must_precede_default byte_decode items;
     (channel, items) \<leftarrow> parse CHANNEL_NUMBER must_precede_default channel_decode items;
     (xor_peer, items) \<leftarrow> parse XOR_PEER_ADDRESS must_precede_default (sockaddr_decode True) items;
     (data, items) \<leftarrow> parse DATA must_precede_default (slice_decode :: (unit, bytes_ref) attr_decode) items;
     ok \<lparr>ta_username = username, ta_realm = realm, ta_integrity = integrity, ta_nonce = nonce,
         ta_lifetime = lifetime, ta_requested_transport = transport, ta_channel = channel,
         ta_xor_peer = xor_peer, ta_data = data, ta_unknown = collect_unknown 8 items\<rparr>
   }"

definition method_unknown :: "stun_method \<Rightarrow> bool" where
  "method_unknown m \<longleftrightarrow>
     m \<notin> {Binding, Allocate, Refresh, CreatePermission, Send, ChannelBind}"

definition turn_key :: "('x) extern_scheme \<Rightarrow> turn_attrs \<Rightarrow> byte list" where
  "turn_key E a =
     (case (ta_username a, ta_realm a, ta_integrity a) of
        (Some username, Some realm, Some _) \<Rightarrow>
          to_be_bytes (md5 E (username @ str_lit '':'' @ realm @ str_lit '':password''))
      | _ \<Rightarrow> replicate 16 0)"

definition append_u :: "u16 \<Rightarrow> attr_enc \<Rightarrow> stun \<Rightarrow> stun run" where
  "append_u T a msg = unwrap (stun_append T a msg)"

text \<open>\<^verbatim>\<open>msg.set_length(0); msg.set_class(c);\<close>, the start of every reply.\<close>

definition start_reply :: "stun_class \<Rightarrow> stun \<Rightarrow> stun run" where
  "start_reply c msg = do { msg \<leftarrow> set_length 0 msg; set_class c msg }"

definition copy_within :: "nat \<Rightarrow> nat \<Rightarrow> nat \<Rightarrow> buf \<Rightarrow> buf run" where
  "copy_within i n d b =
     (if i + n \<le> length b \<and> d + n \<le> length b then ok (overwrite b d (sub b i n)) else panic)"

text \<open>The \<^verbatim>\<open>(Class::Indication, Method::Send)\<close> arm: the packets it sends.\<close>

definition turn_send ::
    "('x) extern_scheme \<Rightarrow> socket_addr_v6 \<Rightarrow> socket_addr option \<Rightarrow> bytes_ref option \<Rightarrow> stun \<Rightarrow> buf list run" where
  "turn_send E relayed xor_peer data msg =
    (case (xor_peer, data) of
       (Some (SocketAddr (IpV6 peer) peer_port), Some (ptr, d)) \<Rightarrow> do {
         let len = length d;
         assert (4 \<le> ptr);
         let i = ptr - 4;
         if 48 + len > length msg then ok [] else do {
         msg \<leftarrow> copy_within i (4 + len) 44 msg;
         n \<leftarrow> add_ck (of_nat len) 8;
         (ip, rest) \<leftarrow> from_prefix 40 ip6_of_bytes msg;
         (udp, rest) \<leftarrow> from_prefix 8 udp_of_bytes rest;
         data \<leftarrow> slice rest 0 len;
         let ip = ip\<lparr>
           flags := set_flow_label E 0 (set_traffic_class E 0 (set_version E 6 (flags ip))),
           payload_length := n, next_header := IP_PROTO_UDP, hop_limit := 64,
           src := v6_ip relayed, dst := peer\<rparr>;
         let udp = udp\<lparr>src_port := v6_port relayed, dst_port := peer_port, udp_length := n\<rparr>;
         udp \<leftarrow> udp_checksum_fill ip udp data;
         let msg = ip6_as_bytes ip @ udp_as_bytes udp @ rest;
         packet \<leftarrow> slice msg 0 (ip6_len ip);
         ok [packet] } }
     | _ \<Rightarrow> ok [])"

text \<open>The match on class and method; the arms are tried in the order of the source.\<close>

definition turn_match ::
    "('x) extern_scheme \<Rightarrow> socket_addr \<Rightarrow> socket_addr_v6 \<Rightarrow> turn_attrs \<Rightarrow> byte list \<Rightarrow>
     stun_class \<Rightarrow> stun_method \<Rightarrow> stun \<Rightarrow> (stun option \<times> buf list) run" where
  "turn_match E canonical relayed a key cls meth msg =
    (let reply = (\<lambda>m. ok (Some m, [])); drop = ok (None, []) in
     if cls = Error \<or> cls = Success then drop
     else if cls = Request \<and> meth = Binding then do {
       msg \<leftarrow> start_reply Success msg;
       msg \<leftarrow> append_u XOR_MAPPED_ADDRESS (sockaddr_enc True canonical) msg;
       reply msg }
     else if cls = Request \<and> method_unknown meth then do {
       msg \<leftarrow> start_reply Error msg;
       msg \<leftarrow> append_u ERROR_CODE (error_code_enc (404, [])) msg;
       reply msg }
     else if cls = Request \<and> ta_unknown a \<noteq> None then do {
       msg \<leftarrow> start_reply Error msg;
       msg \<leftarrow> append_u ERROR_CODE (error_code_enc (420, [])) msg;
       msg \<leftarrow> append_u UNKNOWN_ATTRIBUTES (unknown_attrs_enc (the (ta_unknown a))) msg;
       reply msg }
     else if ta_unknown a \<noteq> None then drop
     else if cls = Request \<and> (ta_username a = None \<or> ta_realm a = None) then do {
       msg \<leftarrow> start_reply Error msg;
       msg \<leftarrow> append_u ERROR_CODE (error_code_enc (401, [])) msg;
       msg \<leftarrow> append_u REALM (str_enc (str_lit ''none'')) msg;
       msg \<leftarrow> append_u NONCE (str_enc (str_lit ''none'')) msg;
       reply msg }
     else if cls = Request \<and> ta_integrity a = None then drop
     else if cls = Request \<and> \<not> verify E (the (ta_integrity a)) key then do {
       msg \<leftarrow> start_reply Error msg;
       msg \<leftarrow> append_u ERROR_CODE (error_code_enc (403, [])) msg;
       reply msg }
     else if cls = Request \<and> meth = Allocate \<and> ta_requested_transport a \<noteq> Some 17 then do {
       msg \<leftarrow> start_reply Error msg;
       msg \<leftarrow> append_u ERROR_CODE (error_code_enc (442, [])) msg;
       msg \<leftarrow> append_u MESSAGE_INTEGRITY (integrity_enc E key) msg;
       reply msg }
     else if cls = Request \<and> meth = Allocate then do {
       msg \<leftarrow> start_reply Success msg;
       msg \<leftarrow> append_u XOR_MAPPED_ADDRESS (sockaddr_enc True canonical) msg;
       msg \<leftarrow> append_u XOR_RELAYED_ADDRESS (sockaddr_enc True (sa_of_v6 relayed)) msg;
       msg \<leftarrow> append_u LIFETIME (numeric_enc (case ta_lifetime a of None \<Rightarrow> 1000 | Some l \<Rightarrow> l)) msg;
       msg \<leftarrow> append_u MESSAGE_INTEGRITY (integrity_enc E key) msg;
       reply msg }
     else if cls = Request \<and> meth = Refresh \<and> ta_lifetime a = Some 0 then drop
     else if cls = Request \<and> meth = Refresh then do {
       msg \<leftarrow> start_reply Success msg;
       msg \<leftarrow> append_u LIFETIME (numeric_enc (case ta_lifetime a of None \<Rightarrow> 1000 | Some l \<Rightarrow> l)) msg;
       msg \<leftarrow> append_u MESSAGE_INTEGRITY (integrity_enc E key) msg;
       reply msg }
     else if cls = Request \<and> meth = CreatePermission then do {
       msg \<leftarrow> start_reply Success msg;
       msg \<leftarrow> append_u MESSAGE_INTEGRITY (integrity_enc E key) msg;
       reply msg }
     else if cls = Request \<and> meth = ChannelBind then do {
       msg \<leftarrow> start_reply Error msg;
       msg \<leftarrow> append_u ERROR_CODE (error_code_enc (438, [])) msg;
       msg \<leftarrow> append_u MESSAGE_INTEGRITY (integrity_enc E key) msg;
       reply msg }
     else if cls = Indication \<and> meth = Send then do {
       sent \<leftarrow> turn_send E relayed (ta_xor_peer a) (ta_data a) msg;
       ok (None, sent) }
     else drop)"

definition handle_turn ::
    "('x) extern_scheme \<Rightarrow> socket_addr \<Rightarrow> socket_addr_v6 \<Rightarrow> stun \<Rightarrow> (stun option \<times> buf list) run" where
  "handle_turn E canonical relayed msg = do {
     txid \<leftarrow> get_txid msg;
     if txid = replicate 12 0 then ok (None, []) else do {
     a \<leftarrow> parse_turn_attrs msg;
     m \<leftarrow> get_method msg;
     c \<leftarrow> get_class msg;
     turn_match E canonical relayed a (turn_key E a) c m msg
     }}"

section \<open>Packets from the network\<close>

definition v6_addr :: "u128 \<Rightarrow> u16 \<Rightarrow> socket_addr_v6" where
  "v6_addr ip port = \<lparr>v6_ip = ip, v6_port = port\<rparr>"

text \<open>The shared start of both Data indications.\<close>

definition start_data_indication :: "byte list \<Rightarrow> buf \<Rightarrow> stun run" where
  "start_data_indication txid buffer = do {
     msg \<leftarrow> set_class Indication buffer;
     msg \<leftarrow> set_method Data msg;
     msg \<leftarrow> set_length 0 msg;
     msg \<leftarrow> set_cookie MAGIC_COOKIE msg;
     set_txid txid msg
   }"

definition net_udp :: "byte list \<Rightarrow> ip6_header \<Rightarrow> buf \<Rightarrow> buf \<Rightarrow> (socket_addr_v6 \<times> stun) option run" where
  "net_udp txid ip rest buffer =
    (if payload_length ip < 8 then ok None else do {
     (udp, _) \<leftarrow> from_prefix 8 udp_of_bytes rest;
     if udp_length udp \<noteq> payload_length ip then ok None else do {
     m \<leftarrow> sub_ck 4 (udp_length udp mod 4);
     let padding = m mod 4;
     k \<leftarrow> add_ck (24 + 4 - 8) padding;
     case checked_add k (udp_length udp) of
       None \<Rightarrow> ok None
     | Some stun_length \<Rightarrow> do {
     data_len \<leftarrow> sub_ck (udp_length udp) 8;
     let sender = v6_addr (src ip) (src_port udp);
     let receiver = v6_addr (dst ip) (dst_port udp);
     msg \<leftarrow> start_data_indication txid buffer;
     msg \<leftarrow> append_u XOR_PEER_ADDRESS (sockaddr_enc True (sa_of_v6 sender)) msg;
     msg \<leftarrow> put msg 44 (stun_attr_as_bytes \<lparr>sah_typ = DATA, sah_length = data_len\<rparr>);
     msg \<leftarrow> put msg (48 + unat data_len) (replicate (unat padding) 0);
     msg \<leftarrow> set_length stun_length msg;
     ok (Some (receiver, msg))
     }}})"

definition net_icmp :: "byte list \<Rightarrow> ip6_header \<Rightarrow> buf \<Rightarrow> buf \<Rightarrow> (socket_addr_v6 \<times> stun) option run" where
  "net_icmp txid ip rest buffer =
    (if payload_length ip < 8 + 40 + 8 then ok None else do {
     (icmp, rest) \<leftarrow> from_prefix 8 icmp6_of_bytes rest;
     if \<not> (1 \<le> icmp_typ icmp \<and> icmp_typ icmp \<le> 3) then ok None else do {
     (inner, rest) \<leftarrow> from_prefix 40 ip6_of_bytes rest;
     if next_header inner \<noteq> IP_PROTO_UDP then ok None
     else if payload_length inner < 8 then ok None else do {
     (udp, _) \<leftarrow> from_prefix 8 udp_of_bytes rest;
     if udp_length udp \<noteq> payload_length inner then ok None
     else if dst ip \<noteq> src inner then ok None else do {
     let inner_sender = v6_addr (src inner) (src_port udp);
     let inner_receiver = v6_addr (dst inner) (dst_port udp);
     msg \<leftarrow> start_data_indication txid buffer;
     msg \<leftarrow> append_u XOR_PEER_ADDRESS (sockaddr_enc True (sa_of_v6 inner_receiver)) msg;
     msg \<leftarrow> append_u ICMP (icmp_enc (icmp_typ icmp, icmp_code icmp, icmp_arg icmp)) msg;
     ok (Some (inner_sender, msg))
     }}}})"

definition handle_net ::
    "('x) bitfield_scheme \<Rightarrow> byte list \<Rightarrow> nat \<Rightarrow> buf \<Rightarrow> (socket_addr_v6 \<times> stun) option run" where
  "handle_net E txid len buffer = do {
     (ip, rest) \<leftarrow> from_prefix 40 ip6_of_bytes buffer;
     if version E (flags ip) \<noteq> 6 then ok None
     else if ip6_len ip \<noteq> len then ok None
     else if next_header ip = IP_PROTO_UDP then net_udp txid ip rest buffer
     else if next_header ip = IP_PROTO_ICMP6 then net_icmp txid ip rest buffer
     else ok None
   }"

end
