(* ===== verification/Turn_Replies.thy ===== *)
theory Turn_Replies
  imports Common
begin

text \<open>
  What the TURN server answers. \<open>turn_spec\<close> is the abstract policy: from the class, the method,
  the attributes of a request and the outcome of authentication to an action, a list of attribute
  values for a response. The handler \<open>handle_turn\<close> refines it: it never panics on a buffer of at
  least 100 bytes, and the response it builds in place is a well-formed STUN message that answers
  the request and whose attributes decode to the values of the policy, with a verifying
  MESSAGE-INTEGRITY where the policy asks for one.
\<close>

section \<open>Responses as lists of values\<close>

datatype attr_value =
    XorMapped socket_addr
  | XorRelayed socket_addr
  | XorPeer socket_addr
  | Lifetime u32
  | ErrorCode u16
  | Realm str
  | Nonce str
  | UnknownTypes "u16 list"
  | MessageIntegrity
  | Fingerprint

fun av_type :: "attr_value \<Rightarrow> u16" where
  "av_type (XorMapped _) = XOR_MAPPED_ADDRESS"
| "av_type (XorRelayed _) = XOR_RELAYED_ADDRESS"
| "av_type (XorPeer _) = XOR_PEER_ADDRESS"
| "av_type (Lifetime _) = LIFETIME"
| "av_type (ErrorCode _) = ERROR_CODE"
| "av_type (Realm _) = REALM"
| "av_type (Nonce _) = NONCE"
| "av_type (UnknownTypes _) = UNKNOWN_ATTRIBUTES"
| "av_type MessageIntegrity = MESSAGE_INTEGRITY"
| "av_type Fingerprint = FINGERPRINT"

fun av_enc :: "('x) extern_scheme \<Rightarrow> byte list \<Rightarrow> attr_value \<Rightarrow> attr_enc" where
  "av_enc E key (XorMapped a) = sockaddr_enc True a"
| "av_enc E key (XorRelayed a) = sockaddr_enc True a"
| "av_enc E key (XorPeer a) = sockaddr_enc True a"
| "av_enc E key (Lifetime l) = numeric_enc l"
| "av_enc E key (ErrorCode c) = error_code_enc (c, [])"
| "av_enc E key (Realm s) = str_enc s"
| "av_enc E key (Nonce s) = str_enc s"
| "av_enc E key (UnknownTypes us) = unknown_attrs_enc us"
| "av_enc E key MessageIntegrity = integrity_enc E key"
| "av_enc E key Fingerprint = fingerprint_enc E ()"

fun av_size :: "attr_value \<Rightarrow> nat" where
  "av_size (XorMapped a) = sockaddr_size a"
| "av_size (XorRelayed a) = sockaddr_size a"
| "av_size (XorPeer a) = sockaddr_size a"
| "av_size (Lifetime _) = 4"
| "av_size (ErrorCode _) = 4"
| "av_size (Realm s) = length s"
| "av_size (Nonce s) = length s"
| "av_size (UnknownTypes us) = length (filter (\<lambda>a. a \<noteq> 0) us) * 2"
| "av_size MessageIntegrity = 20"
| "av_size Fingerprint = 4"

fun av_ok :: "attr_value \<Rightarrow> bool" where
  "av_ok (ErrorCode c) = (c \<le> 799)"
| "av_ok (Realm s) = (utf8_valid s \<and> length s < 65536)"
| "av_ok (Nonce s) = (utf8_valid s \<and> length s < 65536)"
| "av_ok (UnknownTypes us) = zeros_last 8 us"
| "av_ok _ = True"

definition av_room :: "attr_value \<Rightarrow> nat" where
  "av_room v = 4 + av_size v + pad4 (av_size v)"

text \<open>What a reader that decodes the attribute \<open>x\<close> sees.\<close>

fun shows_value :: "('x) extern_scheme \<Rightarrow> byte list \<Rightarrow> attr_value \<Rightarrow> item \<Rightarrow> bool" where
  "shows_value E key (XorMapped a) x \<longleftrightarrow>
     item_typ x = XOR_MAPPED_ADDRESS \<and> decoded (sockaddr_decode True) x = Some a"
| "shows_value E key (XorRelayed a) x \<longleftrightarrow>
     item_typ x = XOR_RELAYED_ADDRESS \<and> decoded (sockaddr_decode True) x = Some a"
| "shows_value E key (XorPeer a) x \<longleftrightarrow>
     item_typ x = XOR_PEER_ADDRESS \<and> decoded (sockaddr_decode True) x = Some a"
| "shows_value E key (Lifetime l) x \<longleftrightarrow>
     item_typ x = LIFETIME \<and> decoded numeric_decode x = Some l"
| "shows_value E key (ErrorCode c) x \<longleftrightarrow>
     item_typ x = ERROR_CODE \<and> decoded error_code_decode x = Some (c, [])"
| "shows_value E key (Realm s) x \<longleftrightarrow> item_typ x = REALM \<and> decoded str_decode x = Some s"
| "shows_value E key (Nonce s) x \<longleftrightarrow> item_typ x = NONCE \<and> decoded str_decode x = Some s"
| "shows_value E key (UnknownTypes us) x \<longleftrightarrow>
     item_typ x = UNKNOWN_ATTRIBUTES \<and>
     decoded (unknown_attrs_decode 8 :: (unit, u16 list) attr_decode) x = Some us"
| "shows_value E key MessageIntegrity x \<longleftrightarrow>
     item_typ x = MESSAGE_INTEGRITY \<and>
     (case decoded (integrity_decode 20) x of None \<Rightarrow> False | Some i \<Rightarrow> verify E i key)"
| "shows_value E key Fingerprint x \<longleftrightarrow>
     item_typ x = FINGERPRINT \<and> decoded (fingerprint_decode E) x = Some ()"

context attr_codec
begin

lemma append_u_step:
  assumes "holds_attrs b xs" and "val a"
    and "unat (length_of b) + (4 + size a + pad4 (size a)) < 65536"
    and "20 + unat (length_of b) + (4 + size a + pad4 (size a)) \<le> length b"
  shows "\<exists>c x. append_u T (enc a) b = ok c \<and> same_header b c \<and>
    unat (length_of c) = unat (length_of b) + (4 + size a + pad4 (size a)) \<and>
    holds_attrs c (xs @ [x]) \<and> item_typ x = T \<and> decoded dec x = Some (seen (fst x) (item_ptr x) a)"
proof -
  obtain c x where "stun_append T (enc a) b = ok (Inr c)" "same_header b c"
      "unat (length_of c) = unat (length_of b) + 4 + size a + pad4 (size a)"
      "holds_attrs c (xs @ [x])" "fst (snd x) = T" "length (item_bytes x) = size a"
      "dec (fst x) (snd (snd x)) = ok (Inr (seen (fst x) (item_ptr x) a))"
    using append_step [of b xs a T] assms by auto
  then show ?thesis
    by (intro exI [of _ c] exI [of _ x]) (simp add: append_u_def item_typ_def decoded_def)
qed

end

lemma append_value:
  assumes "holds_attrs b xs" and "av_ok v" and "unat (length_of b) + av_room v < 65536"
    and "20 + unat (length_of b) + av_room v \<le> length b"
  shows "\<exists>c x. append_u (av_type v) (av_enc E key v) b = ok c \<and> same_header b c \<and>
    unat (length_of c) = unat (length_of b) + av_room v \<and> holds_attrs c (xs @ [x]) \<and>
    shows_value E key v x"
proof (cases v)
  case (XorMapped a)
  then show ?thesis
    using sockaddr.append_u_step [of b xs a XOR_MAPPED_ADDRESS True] assms by (simp add: av_room_def)
next
  case (XorRelayed a)
  then show ?thesis
    using sockaddr.append_u_step [of b xs a XOR_RELAYED_ADDRESS True] assms by (simp add: av_room_def)
next
  case (XorPeer a)
  then show ?thesis
    using sockaddr.append_u_step [of b xs a XOR_PEER_ADDRESS True] assms by (simp add: av_room_def)
next
  case (Lifetime l)
  then show ?thesis
    using num32.append_u_step [of b xs LIFETIME l] assms by (simp add: av_room_def)
next
  case (ErrorCode c)
  then show ?thesis
    using error_code.append_u_step [of b xs "(c, [])" ERROR_CODE] assms
    by (simp add: av_room_def error_code_ok_def del: error_code_enc.simps)
next
  case (Realm s)
  then show ?thesis
    using str.append_u_step [of b xs s REALM] assms by (simp add: av_room_def)
next
  case (Nonce s)
  then show ?thesis
    using str.append_u_step [of b xs s NONCE] assms by (simp add: av_room_def)
next
  case (UnknownTypes us)
  then show ?thesis
    using unknown_attrs.append_u_step [of b xs 8 us UNKNOWN_ATTRIBUTES] assms
    by (simp add: av_room_def)
next
  case MessageIntegrity
  obtain c x where "append_u MESSAGE_INTEGRITY (integrity_enc E key) b = ok c" "same_header b c"
      "unat (length_of c) = unat (length_of b) + av_room v" "holds_attrs c (xs @ [x])"
      "item_typ x = MESSAGE_INTEGRITY"
      "decoded (integrity_decode 20) x = Some \<lparr>mac_prefix = fst x, mac = mac_of E key (fst x)\<rparr>"
    using integrity.append_u_step [of b xs MESSAGE_INTEGRITY E key] assms MessageIntegrity
    by (auto simp: av_room_def)
  then show ?thesis
    by (intro exI [of _ c] exI [of _ x]) (simp add: MessageIntegrity verify_def)
next
  case Fingerprint
  then show ?thesis
    using fingerprint.append_u_step [of b xs FINGERPRINT E "()"] assms by (simp add: av_room_def)
qed

fun append_all :: "('x) extern_scheme \<Rightarrow> byte list \<Rightarrow> attr_value list \<Rightarrow> stun \<Rightarrow> stun run" where
  "append_all E key [] msg = ok msg"
| "append_all E key (v # vs) msg = do {
     msg \<leftarrow> append_u (av_type v) (av_enc E key v) msg;
     append_all E key vs msg }"

definition total_room :: "attr_value list \<Rightarrow> nat" where
  "total_room vs = sum_list (map av_room vs)"

lemma total_room_simps [simp]:
  "total_room [] = 0" "total_room (v # vs) = av_room v + total_room vs"
  by (simp_all add: total_room_def)

lemma append_all_ok:
  assumes "holds_attrs b xs" and "list_all av_ok vs"
    and "unat (length_of b) + total_room vs < 65536"
    and "20 + unat (length_of b) + total_room vs \<le> length b"
  shows "\<exists>c ys. append_all E key vs b = ok c \<and> same_header b c \<and>
    unat (length_of c) = unat (length_of b) + total_room vs \<and> holds_attrs c (xs @ ys) \<and>
    list_all2 (shows_value E key) vs ys"
  using assms
proof (induction vs arbitrary: b xs)
  case Nil
  then show ?case by (intro exI [of _ b] exI [of _ "[]"]) (simp add: same_header_def)
next
  case (Cons v vs)
  then obtain c x where c: "append_u (av_type v) (av_enc E key v) b = ok c" "same_header b c"
      "unat (length_of c) = unat (length_of b) + av_room v" "holds_attrs c (xs @ [x])"
      "shows_value E key v x"
    using append_value [of b xs v E key] by auto
  then obtain d ys where d: "append_all E key vs c = ok d" "same_header c d"
      "unat (length_of d) = unat (length_of c) + total_room vs" "holds_attrs d ((xs @ [x]) @ ys)"
      "list_all2 (shows_value E key) vs ys"
    using Cons.IH [of c "xs @ [x]"] Cons.prems same_header_fields(4) [OF c(2)] by auto
  then show ?case
    using c same_header_trans [of b c d]
    by (intro exI [of _ d] exI [of _ "x # ys"]) simp
qed

section \<open>The start of a response\<close>

lemma start_reply_ok:
  assumes "20 \<le> length b"
  shows "\<exists>c. start_reply cls b = ok c \<and> length c = length b \<and> length_of c = 0 \<and>
    typ_of c = typ_with_class cls (typ_of b) \<and> cookie_of c = cookie_of b \<and> txid_of c = txid_of b"
  using assms by (simp add: start_reply_def set_class_def fields_of_overwrite)

text \<open>
  \<open>is_reply\<close>: the message \<open>r\<close> answers the request \<open>req\<close> with class \<open>c\<close> and the values \<open>vs\<close>. It keeps the
  method, the cookie and the transaction id, its length field is exact and fits the buffer, and its
  attributes are the values, in order and nothing else.
\<close>

definition is_reply ::
    "('x) extern_scheme \<Rightarrow> byte list \<Rightarrow> stun \<Rightarrow> stun_class \<Rightarrow> attr_value list \<Rightarrow> stun \<Rightarrow> bool" where
  "is_reply E key req c vs r \<longleftrightarrow>
     length r = length req \<and> class_of r = c \<and>
     raw_method_of (typ_of r) = raw_method_of (typ_of req) \<and>
     drop_bit 14 (typ_of r) = drop_bit 14 (typ_of req) \<and>
     cookie_of r = cookie_of req \<and> txid_of r = txid_of req \<and>
     unat (length_of r) = total_room vs \<and> 20 + total_room vs \<le> length r \<and>
     (case attrs r of None \<Rightarrow> False | Some items \<Rightarrow> list_all2 (shows_value E key) vs items)"

definition build_reply ::
    "('x) extern_scheme \<Rightarrow> byte list \<Rightarrow> stun_class \<Rightarrow> attr_value list \<Rightarrow> stun \<Rightarrow> stun run" where
  "build_reply E key c vs msg = do {
     msg \<leftarrow> start_reply c msg;
     append_all E key vs msg }"

definition respond ::
    "('x) extern_scheme \<Rightarrow> byte list \<Rightarrow> stun_class \<Rightarrow> attr_value list \<Rightarrow> stun \<Rightarrow> (stun option \<times> buf list) run" where
  "respond E key c vs msg = do { msg \<leftarrow> build_reply E key c vs msg; ok (Some msg, []) }"

lemma build_reply_ok:
  assumes "20 + total_room vs \<le> length msg" and "total_room vs < 65536" and "list_all av_ok vs"
  shows "\<exists>r. build_reply E key c vs msg = ok r \<and> is_reply E key msg c vs r"
proof -
  have "20 \<le> length msg" using assms(1) by simp
  from start_reply_ok [OF this] obtain m where m: "start_reply c msg = ok m" "length m = length msg"
      "length_of m = 0" "typ_of m = typ_with_class c (typ_of msg)" "cookie_of m = cookie_of msg"
      "txid_of m = txid_of msg"
    by blast
  then have "holds_attrs m []" using assms(1) by (simp add: holds_attrs_empty)
  then obtain r ys where r: "append_all E key vs m = ok r" "same_header m r"
      "unat (length_of r) = total_room vs" "holds_attrs r ys" "list_all2 (shows_value E key) vs ys"
    using append_all_ok [of m "[]" vs E key] m assms by auto
  note same = same_header_fields [OF r(2)]
  have "class_of r = c" by (rule class_of_eqI) (simp add: same m class_of_typ_with_class)
  then have "is_reply E key msg c vs r"
    using r m same assms(1) attrs_holds [OF r(4)]
    by (simp add: is_reply_def method_of_typ_with_class top_of_typ_with_class)
  with m r show ?thesis by (simp add: build_reply_def)
qed

lemma respond_ok:
  assumes "20 + total_room vs \<le> length msg" and "total_room vs < 65536" and "list_all av_ok vs"
  shows "\<exists>r. respond E key c vs msg = ok (Some r, []) \<and> is_reply E key msg c vs r"
  using build_reply_ok [OF assms, of E key c] by (auto simp: respond_def)

section \<open>The attributes of a request\<close>

text \<open>
  \<open>turn_attrs_of\<close> describes the outcome of the whole chain of adaptors at once. USERNAME and REALM
  count only when they come before MESSAGE-INTEGRITY. The other attributes are looked for in a
  stream from which the MESSAGE-INTEGRITY adaptor has already removed the attribute, so for them
  only MESSAGE-INTEGRITY-SHA256 and FINGERPRINT end the search (\<open>late\<close>).
\<close>

definition late :: "u16 \<Rightarrow> bool" where
  "late t \<longleftrightarrow> t = MESSAGE_INTEGRITY_SHA256 \<or> t = FINGERPRINT"

definition turn_known :: "u16 list" where
  "turn_known = [USERNAME, REALM, MESSAGE_INTEGRITY, NONCE, LIFETIME, REQUESTED_TRANSPORT,
     CHANNEL_NUMBER, XOR_PEER_ADDRESS, DATA]"

definition turn_attrs_of :: "item list \<Rightarrow> turn_attrs" where
  "turn_attrs_of items = \<lparr>
     ta_username = found USERNAME must_precede_default str_decode items,
     ta_realm = found REALM must_precede_default str_decode items,
     ta_integrity = found MESSAGE_INTEGRITY must_precede_integrity (integrity_decode 20) items,
     ta_nonce = found NONCE late str_decode items,
     ta_lifetime = found LIFETIME late numeric_decode items,
     ta_requested_transport = found REQUESTED_TRANSPORT late byte_decode items,
     ta_channel = found CHANNEL_NUMBER late channel_decode items,
     ta_xor_peer = found XOR_PEER_ADDRESS late (sockaddr_decode True) items,
     ta_data = found DATA late (slice_decode :: (unit, bytes_ref) attr_decode) items,
     ta_unknown = collect_unknown 8 (filter (\<lambda>x. item_typ x \<notin> set turn_known) items)\<rparr>"

lemmas stage_simps = must_precede_default_def must_precede_integrity_def late_def turn_known_def
  attr_typ_defs

lemma parse_turn_attrs_eq:
  assumes "attrs msg = ok items"
  shows "parse_turn_attrs msg = ok (turn_attrs_of items)"
proof -
  have ok: "\<forall>x \<in> set items. prefix_ok (fst x)"
    using attrs_items [of msg] assms by (auto simp: item_ok_def)
  note stage = parse_hides [OF ok]
  have s1: "parse USERNAME must_precede_default str_decode (hides [] items) =
      ok (found USERNAME must_precede_default str_decode items, hides [USERNAME] items)"
    by (rule stage) (auto simp: stage_simps decoders_total)
  have s2: "parse REALM must_precede_default str_decode (hides [USERNAME] items) =
      ok (found REALM must_precede_default str_decode items, hides [USERNAME, REALM] items)"
    by (rule stage) (auto simp: stage_simps decoders_total)
  have s3: "parse MESSAGE_INTEGRITY must_precede_integrity (integrity_decode 20) (hides [USERNAME, REALM] items) =
      ok (found MESSAGE_INTEGRITY must_precede_integrity (integrity_decode 20) items, hides [USERNAME, REALM, MESSAGE_INTEGRITY] items)"
    by (rule stage) (auto simp: stage_simps decoders_total)
  have s4: "parse NONCE must_precede_default str_decode (hides [USERNAME, REALM, MESSAGE_INTEGRITY] items) =
      ok (found NONCE late str_decode items, hides [USERNAME, REALM, MESSAGE_INTEGRITY, NONCE] items)"
    by (rule stage) (auto simp: stage_simps decoders_total)
  have s5: "parse LIFETIME must_precede_default (numeric_decode :: (try_from_slice_error, u32) attr_decode) (hides [USERNAME, REALM, MESSAGE_INTEGRITY, NONCE] items) =
      ok (found LIFETIME late (numeric_decode :: (try_from_slice_error, u32) attr_decode) items, hides [USERNAME, REALM, MESSAGE_INTEGRITY, NONCE, LIFETIME] items)"
    by (rule stage) (auto simp: stage_simps decoders_total)
  have s6: "parse REQUESTED_TRANSPORT must_precede_default byte_decode (hides [USERNAME, REALM, MESSAGE_INTEGRITY, NONCE, LIFETIME] items) =
      ok (found REQUESTED_TRANSPORT late byte_decode items, hides [USERNAME, REALM, MESSAGE_INTEGRITY, NONCE, LIFETIME, REQUESTED_TRANSPORT] items)"
    by (rule stage) (auto simp: stage_simps decoders_total)
  have s7: "parse CHANNEL_NUMBER must_precede_default channel_decode (hides [USERNAME, REALM, MESSAGE_INTEGRITY, NONCE, LIFETIME, REQUESTED_TRANSPORT] items) =
      ok (found CHANNEL_NUMBER late channel_decode items, hides [USERNAME, REALM, MESSAGE_INTEGRITY, NONCE, LIFETIME, REQUESTED_TRANSPORT, CHANNEL_NUMBER] items)"
    by (rule stage) (auto simp: stage_simps decoders_total)
  have s8: "parse XOR_PEER_ADDRESS must_precede_default (sockaddr_decode True) (hides [USERNAME, REALM, MESSAGE_INTEGRITY, NONCE, LIFETIME, REQUESTED_TRANSPORT, CHANNEL_NUMBER] items) =
      ok (found XOR_PEER_ADDRESS late (sockaddr_decode True) items, hides [USERNAME, REALM, MESSAGE_INTEGRITY, NONCE, LIFETIME, REQUESTED_TRANSPORT, CHANNEL_NUMBER, XOR_PEER_ADDRESS] items)"
    by (rule stage) (auto simp: stage_simps decoders_total)
  have s9: "parse DATA must_precede_default (slice_decode :: (unit, bytes_ref) attr_decode) (hides [USERNAME, REALM, MESSAGE_INTEGRITY, NONCE, LIFETIME, REQUESTED_TRANSPORT, CHANNEL_NUMBER, XOR_PEER_ADDRESS] items) =
      ok (found DATA late (slice_decode :: (unit, bytes_ref) attr_decode) items, hides turn_known items)"
    by (rule stage) (auto simp: stage_simps decoders_total)
  show ?thesis
    using assms s1 s2 s3 s4 s5 s6 s7 s8 s9
    by (simp add: parse_turn_attrs_def turn_attrs_of_def hides_Nil) (simp add: hides_def)
qed

section \<open>The policy\<close>

datatype turn_action = Ignore | Respond stun_class "attr_value list" | Relay

definition auth_policy :: "('x) extern_scheme \<Rightarrow> byte list \<Rightarrow> turn_attrs \<Rightarrow> turn_action \<Rightarrow> turn_action" where
  "auth_policy E key a act =
     (case (ta_username a, ta_realm a, ta_integrity a) of
        (Some _, Some _, Some i) \<Rightarrow> if verify E i key then act else Respond Error [ErrorCode 403]
      | (Some _, Some _, None) \<Rightarrow> Ignore
      | _ \<Rightarrow> Respond Error [ErrorCode 401, Realm (str_lit ''none''), Nonce (str_lit ''none'')])"

definition lifetime_of :: "turn_attrs \<Rightarrow> u32" where
  "lifetime_of a = (case ta_lifetime a of None \<Rightarrow> 1000 | Some l \<Rightarrow> l)"

fun method_policy :: "socket_addr \<Rightarrow> socket_addr_v6 \<Rightarrow> turn_attrs \<Rightarrow> stun_method \<Rightarrow> turn_action" where
  "method_policy canonical relayed a Allocate =
     (if ta_requested_transport a = Some 17
      then Respond Success [XorMapped canonical, XorRelayed (sa_of_v6 relayed),
             Lifetime (lifetime_of a), MessageIntegrity]
      else Respond Error [ErrorCode 442, MessageIntegrity])"
| "method_policy canonical relayed a Refresh =
     (if ta_lifetime a = Some 0 then Ignore
      else Respond Success [Lifetime (lifetime_of a), MessageIntegrity])"
| "method_policy canonical relayed a CreatePermission = Respond Success [MessageIntegrity]"
| "method_policy canonical relayed a ChannelBind = Respond Error [ErrorCode 438, MessageIntegrity]"
| "method_policy canonical relayed a _ = Ignore"

definition turn_spec ::
    "('x) extern_scheme \<Rightarrow> socket_addr \<Rightarrow> socket_addr_v6 \<Rightarrow> turn_attrs \<Rightarrow> stun_class \<Rightarrow> stun_method \<Rightarrow> turn_action" where
  "turn_spec E canonical relayed a c m =
     (case c of
        Request \<Rightarrow>
          (if m = Binding then Respond Success [XorMapped canonical]
           else if m = Data \<or> m = Unknown then Respond Error [ErrorCode 404]
           else case ta_unknown a of
             Some us \<Rightarrow> Respond Error [ErrorCode 420, UnknownTypes us]
           | None \<Rightarrow> auth_policy E (turn_key E a) a (method_policy canonical relayed a m))
      | Indication \<Rightarrow> if m = Send \<and> ta_unknown a = None then Relay else Ignore
      | Success \<Rightarrow> Ignore
      | Error \<Rightarrow> Ignore)"

lemma av_room_bounds:
  "av_room (XorMapped a) \<le> 24" "av_room (XorRelayed a) \<le> 24" "av_room (XorPeer a) \<le> 24"
  "av_room (Lifetime l) = 8" "av_room (ErrorCode c) = 8" "av_room MessageIntegrity = 24"
  "av_room Fingerprint = 8"
  by (auto simp: av_room_def sockaddr_size_def pad4_def split: ip_addr.splits)

lemma unknown_room: "zeros_last 8 us \<Longrightarrow> av_room (UnknownTypes us) \<le> 20"
proof -
  assume "zeros_last 8 us"
  then have "length us = 8" unfolding zeros_last_def by blast
  then have "length (filter (\<lambda>a. a \<noteq> 0) us) \<le> 8"
    using length_filter_le [of "\<lambda>a. a \<noteq> 0" us] by simp
  then show ?thesis
    using pad4_le [of "length (filter (\<lambda>a. a \<noteq> 0) us) * 2" 4] by (simp add: av_room_def)
qed

lemma none_str: "av_ok (Realm (str_lit ''none''))" "av_ok (Nonce (str_lit ''none''))"
  "av_room (Realm (str_lit ''none'')) = 8" "av_room (Nonce (str_lit ''none'')) = 8"
  by (simp_all add: str_lit_def av_room_def pad4_def of_char_of)

lemma turn_spec_fits:
  assumes "turn_spec E canonical relayed (turn_attrs_of items) c m = Respond cls vs"
  shows "list_all av_ok vs \<and> total_room vs \<le> 80"
proof -
  have "ta_unknown (turn_attrs_of items) = Some us \<Longrightarrow> zeros_last 8 us" for us
    using collect_unknown_zeros_last [of 8 _ us] by (simp add: turn_attrs_of_def)
  then have "ta_unknown (turn_attrs_of items) = Some us \<Longrightarrow> av_ok (UnknownTypes us) \<and> av_room (UnknownTypes us) \<le> 20" for us
    using unknown_room by simp
  then show ?thesis
    using assms av_room_bounds(1) [of canonical] av_room_bounds(2) [of "sa_of_v6 relayed"]
    by (cases m; cases c)
      (auto simp: turn_spec_def auth_policy_def none_str av_room_bounds(4-7) simp del: av_ok.simps(2-4)
        split: option.splits if_splits)
qed

lemma turn_spec_request:
  assumes "turn_spec E canonical relayed a c m = Respond cls vs"
  shows "c = Request \<and> cls \<in> {Success, Error}"
  using assms by (cases m) (auto simp: turn_spec_def auth_policy_def split: class_splits if_splits option.splits)

lemma turn_match_spec:
  "turn_match E canonical relayed a (turn_key E a) c m msg =
    (case turn_spec E canonical relayed a c m of
       Ignore \<Rightarrow> ok (None, [])
     | Respond cls vs \<Rightarrow> respond E (turn_key E a) cls vs msg
     | Relay \<Rightarrow> do { sent \<leftarrow> turn_send E relayed (ta_xor_peer a) (ta_data a) msg; ok (None, sent) })"
  by (cases c; cases m) (simp_all add: turn_match_def turn_spec_def auth_policy_def lifetime_of_def
    method_unknown_def respond_def build_reply_def Let_def split: option.splits)

end
