(* ===== verification/Relay.thy ===== *)
theory Relay
  imports Turn_Replies
begin

text \<open>
  The data path. A Send indication becomes a UDP packet on the TUN interface (\<open>turn_send\<close>), and a
  packet from the interface becomes a Data indication (\<open>handle_net\<close>). The two are inverse to each
  other: what a client sends to a peer arrives at the peer's client as the same bytes, from the
  sender's relayed address.
\<close>

section \<open>The UDP checksum\<close>

text \<open>The pseudo header and the datagram that the checksum covers.\<close>

definition udp_sum :: "ip6_header \<Rightarrow> udp_header \<Rightarrow> buf \<Rightarrow> byte list list" where
  "udp_sum ip udp data = [to_be_bytes (src ip), to_be_bytes (dst ip), [0, next_header ip],
     to_be_bytes (payload_length ip), udp_as_bytes udp, data]"

definition udp_checksum_valid :: "ip6_header \<Rightarrow> udp_header \<Rightarrow> buf \<Rightarrow> bool" where
  "udp_checksum_valid ip udp data \<longleftrightarrow> ip_checksum (udp_sum ip udp data) = ok 0"

lemma sum16_u16: "sum16 (to_be_bytes (w :: u16)) = unat w"
proof -
  have "unat w div 256 < 256" using u16_bound [of w] by (simp add: less_mult_imp_div_less)
  then show ?thesis
    by (simp add: to_be_bytes_u16 unat_of_nat_byte unsigned_ucast_eq take_bit_nat_def)
qed

lemma sum16_udp_sum:
  "sum16 (concat (udp_sum ip (udp\<lparr>checksum := c\<rparr>) data)) =
   sum16 (concat (udp_sum ip (udp\<lparr>checksum := 0\<rparr>) data)) + unat c"
  by (simp add: udp_sum_def udp_as_bytes_def sum16_append sum16_u16)

lemma unat_eq_u16: "unat c = 65535 - n \<Longrightarrow> n \<le> 65535 \<Longrightarrow> c = (0 :: u16) \<longleftrightarrow> n = 65535"
  by (metis diff_is_0_eq diff_diff_cancel le_antisym minus_nat.diff_0 unat_eq_zero)

lemma udp_checksum_fill_ok:
  assumes "length data \<le> 131028"
  obtains c where "udp_checksum_fill ip udp data = ok (udp\<lparr>checksum := c\<rparr>)" "c \<noteq> 0"
    "udp_checksum_valid ip (udp\<lparr>checksum := c\<rparr>) data"
proof -
  let ?base = "sum16 (concat (udp_sum ip (udp\<lparr>checksum := 0\<rparr>) data))"
  have len: "length (concat (udp_sum ip u data)) \<le> 131072" for u
    using assms by (simp add: udp_sum_def udp_as_bytes_def)
  have norm: "ones_norm n \<le> 65535" for n
    using mod_less_divisor [of 65535 "n - 1"] unfolding ones_norm_def by (auto simp: less_Suc_eq_le)
  obtain d where d: "ip_checksum (udp_sum ip (udp\<lparr>checksum := 0\<rparr>) data) = ok d"
      "unat d = 65535 - ones_norm ?base"
    using ip_checksum_sum16 [OF len] by blast
  let ?c = "if d = 0 then 0xffff else d"
  have "ones_norm (?base + unat ?c) = 65535"
  proof (cases "d = 0")
    case True
    then have b: "ones_norm ?base = 65535" using unat_eq_u16 [OF d(2) norm] by simp
    then have "0 < ?base" by (metis gr0I ones_norm_def zero_neq_numeral)
    with b True show ?thesis by (simp add: ones_norm_65535)
  next
    case False
    then show ?thesis using d(2) ones_norm_complement [of ?base] by simp
  qed
  then have "udp_checksum_valid ip (udp\<lparr>checksum := ?c\<rparr>) data"
    using ip_checksum_sum16 [OF len, of "udp\<lparr>checksum := ?c\<rparr>"]
    by (auto simp: udp_checksum_valid_def sum16_udp_sum [of ip ?c udp] unat_eq_zero)
  moreover have "udp_checksum_fill ip udp data = ok (udp\<lparr>checksum := ?c\<rparr>)"
    using d(1) by (simp add: udp_checksum_fill_def udp_sum_def Let_def)
  ultimately show thesis by (intro that [of ?c]) auto
qed

section \<open>The flags of an emitted packet\<close>

lemma bit_with_bits:
  "n < 32 \<Longrightarrow> bit (with_bits v msb lsb x) n \<longleftrightarrow>
    (if lsb \<le> n \<and> n \<le> msb then bit x (n - lsb) else bit v n)"
  by (auto simp: with_bits_def bit_simps)

lemma emitted_flags:
  assumes "bitfield_ok E"
  shows "set_flow_label E 0 (set_traffic_class E 0 (set_version E 6 f)) = 0x60000000"
proof (rule bit_word_eqI)
  fix n :: nat assume n: "n < LENGTH(32)"
  then have n': "n < 32" by simp
  have num: "(0x60000000 :: u32) = push_bit 29 3" by (simp add: push_bit_eq_mult)
  have eq: "bit (set_flow_label E 0 (set_traffic_class E 0 (set_version E 6 f))) n \<longleftrightarrow>
      28 \<le> n \<and> bit (6 :: u32) (n - 28)"
    using assms n' by (simp add: bitfield_ok_def set_flow_label_def set_traffic_class_def set_version_def
        bit_with_bits)
  consider "n < 28" | "n = 28" | "n = 29" | "n = 30" | "n = 31"
    using n' by linarith
  then show "bit (set_flow_label E 0 (set_traffic_class E 0 (set_version E 6 f))) n \<longleftrightarrow>
      bit (0x60000000 :: u32) n"
    unfolding eq num by cases (simp_all add: bit_simps del: push_bit_numeral)
qed

lemma version_emitted: "bitfield_ok E \<Longrightarrow> version E 0x60000000 = 6"
  by (simp add: bitfield_ok_def version_def bits_of_def)

section \<open>From a Send indication to a packet\<close>

text \<open>
  \<open>is_udp_packet E sender receiver data packet\<close>: a receiver that parses \<open>packet\<close> finds an IPv6
  header and a UDP header with consistent lengths and a checksum that verifies, addressed from
  \<open>sender\<close> to \<open>receiver\<close>, and exactly \<open>data\<close> as payload.
\<close>

definition is_udp_packet ::
    "('x) bitfield_scheme \<Rightarrow> socket_addr_v6 \<Rightarrow> socket_addr_v6 \<Rightarrow> byte list \<Rightarrow> buf \<Rightarrow> bool" where
  "is_udp_packet E sender receiver data packet \<longleftrightarrow>
    (case from_prefix 40 ip6_of_bytes packet of None \<Rightarrow> False | Some (ip, rest) \<Rightarrow>
     (case from_prefix 8 udp_of_bytes rest of None \<Rightarrow> False | Some (udp, payload) \<Rightarrow>
       version E (flags ip) = 6 \<and> traffic_class E (flags ip) = 0 \<and> flow_label E (flags ip) = 0 \<and>
       ip6_len ip = length packet \<and> udp_length udp = payload_length ip \<and>
       next_header ip = IP_PROTO_UDP \<and> hop_limit ip = 64 \<and>
       src ip = v6_ip sender \<and> dst ip = v6_ip receiver \<and>
       src_port udp = v6_port sender \<and> dst_port udp = v6_port receiver \<and>
       payload = data \<and> udp_checksum_valid ip udp data))"

lemma flags_emitted:
  "bitfield_ok E \<Longrightarrow> version E 0x60000000 = 6 \<and> traffic_class E 0x60000000 = 0 \<and> flow_label E 0x60000000 = 0"
  by (simp add: bitfield_ok_def version_def traffic_class_def flow_label_def bits_of_def)

lemma sorted_wrt_pair:
  "sorted_wrt P xs \<Longrightarrow> x \<in> set xs \<Longrightarrow> y \<in> set xs \<Longrightarrow> x \<noteq> y \<Longrightarrow> P x y \<or> P y x"
  by (induction xs) auto

lemma found_item:
  assumes "found T mp dec items = Some r"
  obtains x where "x \<in> set items" "item_typ x = T" "decoded dec x = Some r"
proof -
  obtain x where "candidate T mp items = Some x" "decoded dec x = Some r"
    using assms by (auto simp: found_def bind_eq_Some_conv)
  then show thesis by (intro that) (auto dest: candidate_mem)
qed

lemma sockaddr_v6_size:
  assumes "decoded (sockaddr_decode masked) x = Some (SocketAddr (IpV6 ip) port)"
  shows "20 \<le> length (item_bytes x)"
proof -
  obtain p t ptr v where x: "x = (p, t, (ptr, v))" by (cases x) auto
  from assms show ?thesis
    by (auto simp: x decoded_def item_bytes_def Let_def bind_eq_Some_conv split: if_splits)
qed

lemma send_data:
  assumes "attrs msg = ok items"
    and "found XOR_PEER_ADDRESS mp (sockaddr_decode True) items = Some (SocketAddr (IpV6 peer) port)"
    and "found DATA mp' (slice_decode :: (unit, bytes_ref) attr_decode) items = Some (ptr, d)"
  shows "24 \<le> ptr \<and> d = sub msg ptr (length d) \<and> ptr + length d \<le> length msg \<and> length d \<le> 65507"
proof -
  obtain x where x: "x \<in> set items" "item_typ x = XOR_PEER_ADDRESS" "20 \<le> length (item_bytes x)"
    using assms(2) by (elim found_item) (blast dest: sockaddr_v6_size)
  obtain y where y: "y \<in> set items" "item_typ y = DATA" "item_ptr y = ptr" "item_bytes y = d"
    using assms(3) by (elim found_item) (auto simp: decoded_def item_ptr_def item_bytes_def)
  have ok: "item_ok msg x" "item_ok msg y" and sorted: "sorted_wrt before items"
    using attrs_items [of msg] assms(1) x y by auto
  have "x \<noteq> y" using x(2) y(2) by (auto simp: attr_typ_defs)
  then have "before x y \<or> before y x"
    by (rule sorted_wrt_pair [OF sorted x(1) y(1)])
  with ok x y u16_bound [of "length_of msg"] show ?thesis
    by (auto simp: item_ok_def before_def)
qed

lemma turn_send_packet:
  assumes ptr: "24 \<le> ptr" "d = sub msg ptr (length d)" "ptr + length d \<le> length msg"
    and len: "length d \<le> 65507" and room: "48 + length d \<le> length msg"
  obtains udp flg where
    "turn_send E relayed (Some (SocketAddr (IpV6 peer) port)) (Some (ptr, d)) msg =
       ok [ip6_as_bytes \<lparr>flags = flg, payload_length = of_nat (length d + 8), next_header = IP_PROTO_UDP,
             hop_limit = 64, src = v6_ip relayed, dst = peer\<rparr> @ udp_as_bytes udp @ d]"
    "\<exists>f. flg = set_flow_label E 0 (set_traffic_class E 0 (set_version E 6 f))"
    "src_port udp = v6_port relayed" "dst_port udp = port" "udp_length udp = of_nat (length d + 8)"
    "udp_checksum_valid \<lparr>flags = flg, payload_length = of_nat (length d + 8), next_header = IP_PROTO_UDP,
             hop_limit = 64, src = v6_ip relayed, dst = peer\<rparr> udp d"
proof -
  let ?m = "overwrite msg 44 (sub msg (ptr - 4) (4 + length d))"
  have copy: "copy_within (ptr - 4) (4 + length d) 44 msg = ok ?m" and lm: "length ?m = length msg"
    using ptr room by (simp_all add: copy_within_def)
  have n: "add_ck (of_nat (length d)) (8 :: u16) = ok (of_nat (length d + 8))"
    using len by (simp add: unat_of_nat_u16)
  define ip0 udp0 rest where "ip0 = ip6_of_bytes (take 40 ?m)" and "udp0 = udp_of_bytes (take 8 (drop 40 ?m))"
    and "rest = drop 48 ?m"
  have pre: "from_prefix 40 ip6_of_bytes ?m = ok (ip0, drop 40 ?m)"
      "from_prefix 8 udp_of_bytes (drop 40 ?m) = ok (udp0, rest)"
    using lm room by (simp_all add: from_prefix_def ip0_def udp0_def rest_def)
  have d: "sub rest 0 (length d) = d" and lr: "length d \<le> length rest"
    using ptr room lm by (simp_all add: rest_def sub_drop sub_overwrite_inside sub_sub)
  define flg where "flg = set_flow_label E 0 (set_traffic_class E 0 (set_version E 6 (flags ip0)))"
  define ip where "ip = \<lparr>flags = flg, payload_length = of_nat (length d + 8), next_header = IP_PROTO_UDP,
             hop_limit = 64, src = v6_ip relayed, dst = peer\<rparr>"
  define u0 where "u0 = udp0\<lparr>src_port := v6_port relayed, dst_port := port,
    udp_length := of_nat (length d + 8)\<rparr>"
  have "length d \<le> 131028" using len by simp
  then obtain c where c: "udp_checksum_fill ip u0 d = ok (u0\<lparr>checksum := c\<rparr>)"
      "udp_checksum_valid ip (u0\<lparr>checksum := c\<rparr>) d"
    by (rule udp_checksum_fill_ok)
  have ip: "ip0\<lparr>flags := flg, payload_length := of_nat (length d + 8), next_header := IP_PROTO_UDP,
      hop_limit := 64, src := v6_ip relayed, dst := peer\<rparr> = ip"
    by (simp add: ip_def)
  have il: "ip6_len ip = 48 + length d"
    using len by (simp add: ip6_len_def ip_def unat_of_nat_u16 del: of_nat_add)
  have "slice (ip6_as_bytes ip @ udp_as_bytes (u0\<lparr>checksum := c\<rparr>) @ rest) 0 (ip6_len ip) =
      ok (ip6_as_bytes ip @ udp_as_bytes (u0\<lparr>checksum := c\<rparr>) @ d)"
    using lr d by (simp add: il ip6.length_as_bytes udp.length_as_bytes sub_def)
  then have "turn_send E relayed (Some (SocketAddr (IpV6 peer) port)) (Some (ptr, d)) msg =
      ok [ip6_as_bytes ip @ udp_as_bytes (u0\<lparr>checksum := c\<rparr>) @ d]"
    using ptr(1) room copy n pre d lr c(1) ip
    by (simp add: turn_send_def Let_def flg_def u0_def del: of_nat_add)
  then show thesis
    using c(2) by (intro that [of flg "u0\<lparr>checksum := c\<rparr>"]) (auto simp: ip_def flg_def u0_def simp del: of_nat_add)
qed

lemma turn_send_ok:
  assumes "bitfield_ok E" and "24 \<le> ptr" "d = sub msg ptr (length d)" "ptr + length d \<le> length msg"
    and "length d \<le> 65507" and "48 + length d \<le> length msg"
  obtains packet where
    "turn_send E relayed (Some (SocketAddr (IpV6 peer) port)) (Some (ptr, d)) msg = ok [packet]"
    "is_udp_packet E relayed (v6_addr peer port) d packet"
proof -
  obtain udp flg where s: "turn_send E relayed (Some (SocketAddr (IpV6 peer) port)) (Some (ptr, d)) msg =
       ok [ip6_as_bytes \<lparr>flags = flg, payload_length = of_nat (length d + 8), next_header = IP_PROTO_UDP,
             hop_limit = 64, src = v6_ip relayed, dst = peer\<rparr> @ udp_as_bytes udp @ d]"
    "flg = 0x60000000"
    "src_port udp = v6_port relayed" "dst_port udp = port" "udp_length udp = of_nat (length d + 8)"
    "udp_checksum_valid \<lparr>flags = flg, payload_length = of_nat (length d + 8), next_header = IP_PROTO_UDP,
             hop_limit = 64, src = v6_ip relayed, dst = peer\<rparr> udp d"
    using turn_send_packet [OF assms(2-6), of E relayed peer port] emitted_flags [OF assms(1)]
    by metis
  then show thesis
    using assms(5) flags_emitted [OF assms(1)]
    by (intro that [OF s(1)])
      (simp add: is_udp_packet_def ip6.from_prefix_append udp.from_prefix_append v6_addr_def
        ip6_len_def ip6.length_as_bytes udp.length_as_bytes unat_of_nat_u16 del: of_nat_add)
qed

section \<open>From a packet to a Data indication\<close>

text \<open>
  \<open>is_data_indication txid msg\<close>: the message decodes, as a Data indication with that transaction
  id.
\<close>

definition is_data_indication :: "byte list \<Rightarrow> stun \<Rightarrow> bool" where
  "is_data_indication txid msg \<longleftrightarrow>
     decode msg (length msg) = ok (Inr ()) \<and> get_class msg = ok Indication \<and>
     get_method msg = ok Data \<and> get_txid msg = ok txid"

lemma method_of_data: "raw_method_of (typ_of b) = u16_of_method Data \<Longrightarrow> method_of b = Data"
  by (simp add: method_of_def method_of_u16_def)

lemma start_data_ok:
  assumes "20 \<le> length b" and "length txid = 12"
  shows "\<exists>c. start_data_indication txid b = ok c \<and> length c = length b \<and> length_of c = 0 \<and>
    typ_of c = typ_with_method (u16_of_method Data) (typ_with_class Indication (typ_of b)) \<and>
    cookie_of c = MAGIC_COOKIE \<and> txid_of c = txid \<and> drop 20 c = drop 20 b"
  using assms
  by (simp add: start_data_indication_def set_class_def set_method_def set_raw_method_def
      fields_of_overwrite) (simp add: overwrite_def)

lemma data_indication_header:
  assumes "typ_of c = typ_with_method (u16_of_method Data) (typ_with_class Indication t)"
    and "cookie_of c = MAGIC_COOKIE" and "txid_of c = txid" and "unat (length_of c) mod 4 = 0"
    and "20 + unat (length_of c) \<le> length c"
  shows "is_data_indication txid c"
proof -
  have "drop_bit 14 (typ_of c) = 0"
    unfolding assms(1) by (rule top_of_typ_with_method) simp
  moreover have "class_of c = Indication"
    by (rule class_of_eqI) (simp add: assms(1) class_of_typ_with_method class_of_typ_with_class)
  moreover have "method_of c = Data"
    by (rule method_of_data) (simp add: assms(1) method_of_typ_with_method)
  moreover have "length_of c mod 4 = 0"
    using assms(4) by (simp add: word_unat_eq_iff unat_mod)
  ultimately show ?thesis
    using assms by (simp add: is_data_indication_def decode_Inr)
qed

text \<open>The first attribute of every Data indication is the address of the peer.\<close>

lemma append_peer:
  assumes "44 \<le> length b" and "length txid = 12"
  obtains c x m where "start_data_indication txid b = ok m"
    "append_u XOR_PEER_ADDRESS (sockaddr_enc True (sa_of_v6 a)) m = ok c"
    "length c = length b" "unat (length_of c) = 24" "drop 44 c = drop 44 b" "holds_attrs c [x]"
    "typ_of c = typ_with_method (u16_of_method Data) (typ_with_class Indication (typ_of b))"
    "cookie_of c = MAGIC_COOKIE" "txid_of c = txid"
    "item_typ x = XOR_PEER_ADDRESS" "decoded (sockaddr_decode True) x = Some (sa_of_v6 a)"
proof -
  obtain m where m: "start_data_indication txid b = ok m" "length m = length b" "length_of m = 0"
      "typ_of m = typ_with_method (u16_of_method Data) (typ_with_class Indication (typ_of b))"
      "cookie_of m = MAGIC_COOKIE" "txid_of m = txid" "drop 20 m = drop 20 b"
    using start_data_ok [of b txid] assms by auto
  have size: "sockaddr_size (sa_of_v6 a) = 20" "pad4 20 = 0"
    by (simp_all add: sockaddr_size_def sa_of_v6_def pad4_def)
  have "holds_attrs m []" using m assms(1) by (intro holds_attrs_empty) simp_all
  then obtain c x where c: "stun_append XOR_PEER_ADDRESS (sockaddr_enc True (sa_of_v6 a)) m = ok (Inr c)"
      "same_header m c" "unat (length_of c) = 24" "drop 44 c = drop 44 m" "holds_attrs c ([] @ [x])"
      "fst (snd x) = XOR_PEER_ADDRESS" "sockaddr_decode True (fst x) (snd (snd x)) = ok (Inr (sa_of_v6 a))"
    using sockaddr.append_step [of m "[]" "sa_of_v6 a" XOR_PEER_ADDRESS True] m assms(1) size by auto
  have "drop 24 (drop 20 m) = drop 24 (drop 20 b)" using m(7) by simp
  then have "drop 44 c = drop 44 b" using c(4) by simp
  then show thesis
    using c m same_header_fields [OF c(2)]
    by (intro that [of m c x]) (simp_all add: append_u_def item_typ_def decoded_def)
qed

text \<open>
  The DATA attribute is built around the payload, which is already at its place: writing the
  header before it, the padding after it and the message length gives the same buffer as an
  append of the payload.
\<close>

lemma sub_step: "sub b i n @ drop (i + n) b = drop i b"
  by (metis append_take_drop_id drop_drop sub_def add.commute)

lemma data_in_place:
  assumes "48 + n + pad4 n \<le> length c"
  shows "overwrite (overwrite (overwrite c 44 (to_be_bytes DATA @ to_be_bytes (of_nat n :: u16)))
      (48 + n) (replicate (pad4 n) 0)) 2 (to_be_bytes (of_nat (28 + n + pad4 n) :: u16)) =
    attr_written c 24 DATA (sub c 48 n)"
proof -
  define A B C D V P R where "A = sub c 0 2" and "B = sub c 2 2" and "C = sub c 4 40" and "D = sub c 44 4"
    and "V = sub c 48 n" and "P = sub c (48 + n) (pad4 n)" and "R = drop (48 + n + pad4 n) c"
  have c: "c = A @ B @ C @ D @ V @ P @ R"
    using sub_step [of c 0 2, unfolded add_0 drop_0] sub_step [of c 2 2] sub_step [of c 4 40] sub_step [of c 44 4]
      sub_step [of c 48 n] sub_step [of c "48 + n" "pad4 n"]
    by (simp add: A_def B_def C_def D_def V_def P_def R_def)
  have len: "length A = 2" "length B = 2" "length C = 40" "length D = 4" "length V = n" "length P = pad4 n"
    using assms by (simp_all add: A_def B_def C_def D_def V_def P_def)
  let ?h = "to_be_bytes DATA @ to_be_bytes (of_nat n :: u16)"
  let ?l = "to_be_bytes (of_nat (28 + n + pad4 n) :: u16)"
  have "overwrite (A @ B @ C @ D @ V @ P @ R) 44 ?h = A @ B @ C @ ?h @ V @ P @ R"
    using len by (simp add: overwrite_def)
  moreover have "overwrite (A @ B @ C @ ?h @ V @ P @ R) (48 + n) (replicate (pad4 n) 0) =
      A @ B @ C @ ?h @ V @ replicate (pad4 n) 0 @ R"
    using len by (simp add: overwrite_def)
  moreover have "overwrite (A @ B @ C @ ?h @ V @ replicate (pad4 n) 0 @ R) 2 ?l =
      A @ ?l @ C @ ?h @ V @ replicate (pad4 n) 0 @ R"
    using len by (simp add: overwrite_def)
  moreover have "attr_written c 24 DATA V = A @ ?l @ C @ ?h @ V @ replicate (pad4 n) 0 @ R"
    using len by (simp add: attr_written_def A_def C_def R_def del: of_nat_add)
  ultimately show ?thesis using c V_def by (metis (no_types))
qed

lemma net_udp_ok:
  assumes "40 \<le> length buffer" and "from_prefix 8 udp_of_bytes rest = Some (udp, r)"
    and "udp_length udp = payload_length ip" and n: "unat (udp_length udp) = 8 + n"
    and room: "28 + n + pad4 n < 65536" "48 + n + pad4 n \<le> length buffer" and "length txid = 12"
  obtains msg x y where "net_udp txid ip rest buffer = ok (Some (v6_addr (dst ip) (dst_port udp), msg))"
    "is_data_indication txid msg" "length msg = length buffer"
    "unat (length_of msg) = 28 + n + pad4 n" "attrs msg = ok [x, y]"
    "item_typ x = XOR_PEER_ADDRESS"
    "decoded (sockaddr_decode True) x = Some (sa_of_v6 (v6_addr (src ip) (src_port udp)))"
    "item_typ y = DATA" "item_bytes y = sub buffer 48 n"
proof -
  let ?u = "udp_length udp" and ?a = "v6_addr (src ip) (src_port udp)"
  define pd where "pd = (4 - ?u mod 4) mod 4"
  have pd: "sub_ck 4 (?u mod 4) = ok (4 - ?u mod 4)" "unat pd = pad4 n"
    using u16_pad [of ?u] n by (simp_all add: pd_def pad4_def mod_add_left_eq flip: mod_add_left_eq [of 8])
  have "44 \<le> length buffer" using room(2) by simp
  then obtain m c x where c: "start_data_indication txid buffer = ok m"
    "append_u XOR_PEER_ADDRESS (sockaddr_enc True (sa_of_v6 ?a)) m = ok c"
    "length c = length buffer" "unat (length_of c) = 24" "drop 44 c = drop 44 buffer" "holds_attrs c [x]"
    "typ_of c = typ_with_method (u16_of_method Data) (typ_with_class Indication (typ_of buffer))"
    "cookie_of c = MAGIC_COOKIE" "txid_of c = txid"
    "item_typ x = XOR_PEER_ADDRESS" "decoded (sockaddr_decode True) x = Some (sa_of_v6 ?a)"
    using assms(7) by (rule append_peer)
  let ?f = "attr_written c 24 DATA (sub c 48 n)" and ?e = "28 + n + pad4 n"
  have d: "sub c 48 n = sub buffer 48 n"
    using c(5) sub_drop [of 44 c 4 n] sub_drop [of 44 buffer 4 n] by simp
  have ld: "length (sub c 48 n) = n" using room(2) c(3) by simp
  have e: "unat (length_of c) + 4 + length (sub c 48 n) + pad4 (length (sub c 48 n)) = ?e"
    by (simp only: c(4) ld)
  have room': "20 + ?e \<le> length c" using room(2) c(3) by simp
  note facts = attr_written_holds [of c "[x]" "sub c 48 n" DATA, unfolded e, OF c(6) room(1) room',
      unfolded c(4)]
  note same = same_header_fields [OF facts(1)]
  have len_f: "unat (length_of ?f) = ?e" using facts(2) room(1) by (simp add: unat_of_nat_u16 del: of_nat_add)
  have "?e mod 4 = 0" using pad4_aligned [of n] by (simp add: mod_add_left_eq [of "28::nat", symmetric] add.assoc)
  then have "is_data_indication txid ?f"
    using c same room' len_f by (intro data_indication_header [of _ "typ_of buffer"]) simp_all
  moreover have "net_udp txid ip rest buffer = ok (Some (v6_addr (dst ip) (dst_port udp), ?f))"
  proof -
    have dl: "sub_ck ?u 8 = ok (of_nat n)"
      using n unat_sub_fits [of 8 ?u] room(1) by (simp add: word_unat_eq_iff unat_of_nat)
    have "unat pd < 4" by (simp add: pd(2))
    then have k: "add_ck 20 pd = ok (20 + pd)" and "unat (20 + pd) = 20 + unat pd"
      by (simp_all add: unat_add_fits)
    then have k': "unat (20 + pd) = 20 + pad4 n" using pd(2) by simp
    have l: "checked_add (20 + pd) ?u = Some (of_nat ?e)"
      using n k' room(1) unat_add_fits [of "20 + pd" ?u]
      by (simp add: checked_add_unat word_unat_eq_iff unat_of_nat del: of_nat_add)
    have un: "unat (of_nat n :: u16) = n" using room(1) by (simp add: unat_of_nat_u16)
    have pd_ip: "(4 - payload_length ip mod 4) mod 4 = pd" by (simp add: pd_def assms(3))
    show ?thesis
      using assms(2,3) n pd k l dl c room data_in_place [of n c] un
      by (simp add: net_udp_def Let_def word_less_nat_alt stun_attr_as_bytes_def pd_ip)
  qed
  ultimately show thesis
    using c facts same len_f attrs_holds [OF facts(4)] d
    by (intro that [of ?f x "(prefix_at c 24 ?e, DATA, (48, sub c 48 n))"]) (simp_all add: item_typ_def item_bytes_def)
qed

lemma net_udp_too_long:
  assumes "from_prefix 8 udp_of_bytes rest = Some (udp, r)"
    and "unat (udp_length udp) = 8 + n" and "65536 \<le> 28 + n + pad4 n"
  shows "net_udp txid ip rest buffer = ok None"
proof -
  let ?u = "udp_length udp"
  define pd where "pd = (4 - ?u mod 4) mod 4"
  have pd: "sub_ck 4 (?u mod 4) = ok (4 - ?u mod 4)" "unat pd = pad4 n"
    using u16_pad [of ?u] assms(2) by (simp_all add: pd_def pad4_def flip: mod_add_left_eq [of 8])
  have "unat pd < 4" by (simp add: pd(2))
  then have "add_ck 20 pd = ok (20 + pd)" and "unat (20 + pd) = 20 + unat pd"
    by (simp_all add: unat_add_fits)
  moreover from this have "checked_add (20 + pd) ?u = None"
    using pd(2) assms(2,3) by (simp add: checked_add_unat)
  ultimately show ?thesis
    using assms(1) pd(1) by (cases "udp_length udp = payload_length ip")
      (auto simp: net_udp_def Let_def pd_def)
qed

lemma icmp_written:
  assumes "length v = 8"
  shows "enc_write (icmp_enc (t, c, arg)) p v = ok ([t, c, t, c] @ to_be_bytes arg)"
proof -
  obtain x1 x2 x3 x4 r where "v = x1 # x2 # x3 # x4 # r" "length r = 4"
    using assms first_four_elems [of v] by auto
  then show ?thesis by (simp add: assign_def overwrite_def)
qed

lemma net_icmp_ok:
  assumes rest: "rest = icmp6_as_bytes icmp @ ip6_as_bytes inner @ udp_as_bytes udp @ r"
    and "56 \<le> unat (payload_length ip)" and "icmp_typ icmp \<in> {1, 2, 3}"
    and "next_header inner = IP_PROTO_UDP" and "8 \<le> unat (payload_length inner)"
    and "udp_length udp = payload_length inner" and "dst ip = src inner"
    and len: "56 \<le> length buffer" and "length txid = 12"
  obtains msg x y where
    "net_icmp txid ip rest buffer = ok (Some (v6_addr (src inner) (src_port udp), msg))"
    "is_data_indication txid msg" "length msg = length buffer" "unat (length_of msg) = 36"
    "attrs msg = ok [x, y]" "item_typ x = XOR_PEER_ADDRESS"
    "decoded (sockaddr_decode True) x = Some (sa_of_v6 (v6_addr (dst inner) (dst_port udp)))"
    "item_typ y = ICMP"
    "item_bytes y = [icmp_typ icmp, icmp_code icmp, icmp_typ icmp, icmp_code icmp] @ to_be_bytes (icmp_arg icmp)"
proof -
  let ?a = "v6_addr (dst inner) (dst_port udp)"
  let ?i = "(icmp_typ icmp, icmp_code icmp, icmp_arg icmp)"
  have "44 \<le> length buffer" using len by simp
  then obtain m c x where c: "start_data_indication txid buffer = ok m"
    "append_u XOR_PEER_ADDRESS (sockaddr_enc True (sa_of_v6 ?a)) m = ok c"
    "length c = length buffer" "unat (length_of c) = 24" "drop 44 c = drop 44 buffer" "holds_attrs c [x]"
    "typ_of c = typ_with_method (u16_of_method Data) (typ_with_class Indication (typ_of buffer))"
    "cookie_of c = MAGIC_COOKIE" "txid_of c = txid"
    "item_typ x = XOR_PEER_ADDRESS" "decoded (sockaddr_decode True) x = Some (sa_of_v6 ?a)"
    using assms(9) by (rule append_peer)
  let ?v = "[icmp_typ icmp, icmp_code icmp, icmp_typ icmp, icmp_code icmp] @ to_be_bytes (icmp_arg icmp)"
  have e: "unat (length_of c) + 4 + unat (8 :: u16) + pad4 (unat (8 :: u16)) = 36"
    using c(4) by (simp add: pad4_def)
  have el: "enc_length (icmp_enc ?i) = ok 8" by simp
  have ew: "enc_write (icmp_enc ?i) (prefix_at c (unat (length_of c)) 36)
      (sub c (24 + unat (length_of c)) (unat (8 :: u16))) = ok ?v"
    by (rule icmp_written) (use c(3,4) len in simp)
  obtain f where f: "stun_append ICMP (icmp_enc ?i) c = ok (Inr f)" "same_header c f" "length_of f = 36"
      "holds_attrs f ([x] @ [(prefix_at c 24 36, ICMP, (48, ?v))])"
    using append_holds_attrs [of c "[x]" "icmp_enc ?i" 8 ?v ICMP, unfolded e, OF c(6) el _ _ ew] c(3,4) len
    by (auto simp del: icmp_enc.simps)
  note same = same_header_fields [OF f(2)]
  have "is_data_indication txid f"
    using c same f(3) len by (intro data_indication_header [of _ "typ_of buffer"]) simp_all
  moreover have "from_prefix 8 icmp6_of_bytes rest = Some (icmp, ip6_as_bytes inner @ udp_as_bytes udp @ r)"
    by (simp add: rest icmp6.from_prefix_append)
  then have "net_icmp txid ip rest buffer = ok (Some (v6_addr (src inner) (src_port udp), f))"
    using assms(2-7) c f(1)
    by (auto simp: net_icmp_def ip6.from_prefix_append udp.from_prefix_append append_u_def
        word_less_nat_alt simp del: icmp_enc.simps)
  ultimately show thesis
    using c same f attrs_holds [OF f(4)]
    by (intro that [of f x "(prefix_at c 24 36, ICMP, (48, ?v))"]) (simp_all add: item_typ_def item_bytes_def)
qed

text \<open>
  \<open>handle_net\<close> does not panic on a packet that was read into a buffer whose size is a multiple of
  four: the padding of a Data indication always fits.
\<close>

lemma pad4_fits: "4 dvd k \<Longrightarrow> n \<le> k \<Longrightarrow> n + pad4 n \<le> k"
  by (auto simp: pad4_le elim!: dvdE)

definition net_result :: "byte list \<Rightarrow> (socket_addr_v6 \<times> stun) option run \<Rightarrow> bool" where
  "net_result txid r \<longleftrightarrow>
    (case r of None \<Rightarrow> False | Some None \<Rightarrow> True | Some (Some (_, msg)) \<Rightarrow> is_data_indication txid msg)"

lemma net_result_None [simp]: "net_result txid (ok None)"
  by (simp add: net_result_def)

lemma net_udp_total:
  assumes "48 + n \<le> length buffer" and "4 dvd length buffer" and "length txid = 12"
    and "unat (payload_length ip) = 8 + n"
  shows "net_result txid (net_udp txid ip (drop 40 buffer) buffer)"
proof -
  have "8 \<le> length (drop 40 buffer)" using assms(1) by simp
  then obtain udp r where udp: "from_prefix 8 udp_of_bytes (drop 40 buffer) = Some (udp, r)"
    by (simp add: from_prefix_def)
  have room: "48 + n + pad4 n \<le> length buffer"
    using pad4_fits [OF assms(2,1)] by (simp add: pad4_def mod_add_left_eq flip: mod_add_left_eq [of 48])
  consider "udp_length udp \<noteq> payload_length ip" | "udp_length udp = payload_length ip" "28 + n + pad4 n < 65536"
    | "udp_length udp = payload_length ip" "65536 \<le> 28 + n + pad4 n" by linarith
  then show ?thesis
  proof cases
    case 1
    then show ?thesis using udp by (simp add: net_udp_def)
  next
    case 2
    then show ?thesis
      using net_udp_ok [OF _ udp, of buffer ip n txid] assms room by (fastforce simp: net_result_def)
  next
    case 3
    then show ?thesis using net_udp_too_long [OF udp, of n] assms(4) by simp
  qed
qed

lemma net_icmp_total:
  assumes "40 + unat (payload_length ip) \<le> length buffer" and "length txid = 12"
  shows "net_result txid (net_icmp txid ip (drop 40 buffer) buffer)"
proof (cases "56 \<le> unat (payload_length ip)")
  case True
  then have "8 \<le> length (drop 40 buffer)" "40 \<le> length (drop 48 buffer)" "8 \<le> length (drop 88 buffer)" using assms(1) by auto
  then obtain icmp inner udp r where
      "from_prefix 8 icmp6_of_bytes (drop 40 buffer) = Some (icmp, drop 48 buffer)"
      "from_prefix 40 ip6_of_bytes (drop 48 buffer) = Some (inner, drop 88 buffer)"
      "from_prefix 8 udp_of_bytes (drop 88 buffer) = Some (udp, r)"
    by (simp add: from_prefix_def)
  note parts = this
  then have rest: "drop 40 buffer = icmp6_as_bytes icmp @ ip6_as_bytes inner @ udp_as_bytes udp @ r"
    by (simp add: icmp6.from_prefix_Some ip6.from_prefix_Some udp.from_prefix_Some)
  show ?thesis
  proof (cases "icmp_typ icmp \<in> {1, 2, 3} \<and> next_header inner = IP_PROTO_UDP \<and>
      8 \<le> unat (payload_length inner) \<and> udp_length udp = payload_length inner \<and> dst ip = src inner")
    case ok: True
    then show ?thesis
      using net_icmp_ok [OF rest True, of buffer txid] assms True by (fastforce simp: net_result_def)
  next
    case False
    have "1 \<le> t \<and> t \<le> 3 \<longleftrightarrow> t \<in> {1, 2, 3 :: byte}" for t
      by (simp add: word_le_nat_alt word_unat_eq_iff) linarith
    with False parts show ?thesis
      by (auto simp: net_icmp_def word_less_nat_alt)
  qed
next
  case False
  then show ?thesis by (simp add: net_icmp_def word_less_nat_alt)
qed

lemma handle_net_result:
  assumes "40 \<le> length buffer" and "4 dvd length buffer" and "len \<le> length buffer" and "length txid = 12"
  shows "net_result txid (handle_net E txid len buffer)"
proof -
  define ip where "ip = ip6_of_bytes (take 40 buffer)"
  have pre: "from_prefix 40 ip6_of_bytes buffer = Some (ip, drop 40 buffer)"
    using assms(1) by (simp add: from_prefix_def ip_def)
  show ?thesis
  proof (cases "ip6_len ip = len")
    case True
    then have len: "40 + unat (payload_length ip) \<le> length buffer" using assms(3) by (simp add: ip6_len_def)
    have "net_result txid (net_udp txid ip (drop 40 buffer) buffer)"
    proof (cases "8 \<le> unat (payload_length ip)")
      case True
      with len show ?thesis
        using net_udp_total [of "unat (payload_length ip) - 8" buffer txid ip] assms by simp
    next
      case False
      then show ?thesis by (simp add: net_udp_def word_less_nat_alt)
    qed
    moreover have "net_result txid (net_icmp txid ip (drop 40 buffer) buffer)"
      using net_icmp_total [OF len] assms(4) by blast
    ultimately show ?thesis by (simp add: handle_net_def pre)
  qed (simp add: handle_net_def pre)
qed

lemma handle_net_total:
  assumes "40 \<le> length buffer" and "4 dvd length buffer" and "len \<le> length buffer" and "length txid = 12"
  shows "handle_net E txid len buffer \<noteq> panic"
  using handle_net_result [OF assms, of E] by (auto simp: net_result_def split: option.splits)

text \<open>
  Receiving a packet: \<open>carries_udp\<close> is what a receiver that does not look at the checksum sees of
  a packet, and every packet that is sent has this form.
\<close>

definition carries_udp ::
    "('x) bitfield_scheme \<Rightarrow> socket_addr_v6 \<Rightarrow> socket_addr_v6 \<Rightarrow> byte list \<Rightarrow> buf \<Rightarrow> bool" where
  "carries_udp E sender receiver data packet \<longleftrightarrow>
    (case from_prefix 40 ip6_of_bytes packet of None \<Rightarrow> False | Some (ip, rest) \<Rightarrow>
     (case from_prefix 8 udp_of_bytes rest of None \<Rightarrow> False | Some (udp, payload) \<Rightarrow>
       version E (flags ip) = 6 \<and> ip6_len ip = length packet \<and> udp_length udp = payload_length ip \<and>
       next_header ip = IP_PROTO_UDP \<and>
       v6_addr (src ip) (src_port udp) = sender \<and> v6_addr (dst ip) (dst_port udp) = receiver \<and>
       payload = data))"

definition packet_checksum_ok :: "buf \<Rightarrow> bool" where
  "packet_checksum_ok packet \<longleftrightarrow>
    (case from_prefix 40 ip6_of_bytes packet of None \<Rightarrow> False | Some (ip, rest) \<Rightarrow>
     (case from_prefix 8 udp_of_bytes rest of None \<Rightarrow> False | Some (udp, payload) \<Rightarrow>
       udp_checksum_valid ip udp payload))"

lemma is_udp_packet_carries:
  "is_udp_packet E sender receiver data packet \<Longrightarrow> carries_udp E sender receiver data packet"
  by (auto simp: is_udp_packet_def carries_udp_def v6_addr_def split: option.splits)

lemma udp_packet_parts:
  assumes "carries_udp E sender receiver data packet"
  obtains ip udp where "packet = ip6_as_bytes ip @ udp_as_bytes udp @ data" "version E (flags ip) = 6"
    "ip6_len ip = length packet" "udp_length udp = payload_length ip" "next_header ip = IP_PROTO_UDP"
    "v6_addr (src ip) (src_port udp) = sender" "v6_addr (dst ip) (dst_port udp) = receiver"
    "unat (udp_length udp) = 8 + length data"
proof -
  from assms obtain ip rest udp where p: "from_prefix 40 ip6_of_bytes packet = Some (ip, rest)"
      "from_prefix 8 udp_of_bytes rest = Some (udp, data)"
    by (auto simp: carries_udp_def split: option.splits)
  then have packet: "packet = ip6_as_bytes ip @ udp_as_bytes udp @ data"
    by (simp add: ip6.from_prefix_Some udp.from_prefix_Some)
  then have "length packet = 48 + length data"
    by (simp add: ip6.length_as_bytes udp.length_as_bytes)
  with assms p packet show thesis
    by (intro that [of ip udp]) (auto simp: carries_udp_def ip6_len_def)
qed

lemma handle_net_packet:
  assumes "carries_udp E sender receiver data packet" and "length data \<le> 65504"
    and "4 dvd length (packet @ slack)" and "length txid = 12"
  obtains msg x y where
    "handle_net E txid (length packet) (packet @ slack) = ok (Some (receiver, msg))"
    "is_data_indication txid msg" "attrs msg = ok [x, y]"
    "item_typ x = XOR_PEER_ADDRESS" "decoded (sockaddr_decode True) x = Some (sa_of_v6 sender)"
    "item_typ y = DATA" "item_bytes y = data"
proof -
  obtain ip udp where p: "packet = ip6_as_bytes ip @ udp_as_bytes udp @ data" "version E (flags ip) = 6"
    "ip6_len ip = length packet" "udp_length udp = payload_length ip" "next_header ip = IP_PROTO_UDP"
    "v6_addr (src ip) (src_port udp) = sender" "v6_addr (dst ip) (dst_port udp) = receiver"
    "unat (udp_length udp) = 8 + length data"
    using assms(1) by (rule udp_packet_parts)
  let ?b = "packet @ slack" and ?rest = "udp_as_bytes udp @ data @ slack" and ?n = "length data"
  have lp: "length packet = 48 + ?n"
    by (simp add: p(1) ip6.length_as_bytes udp.length_as_bytes)
  have room: "28 + ?n + pad4 ?n < 65536" "48 + ?n + pad4 ?n \<le> length ?b"
    using pad4_le [of ?n 16376] assms(2) pad4_fits [OF assms(3), of "48 + ?n"] lp
    by (simp_all add: pad4_def mod_add_left_eq flip: mod_add_left_eq [of 48])
  have pre: "from_prefix 40 ip6_of_bytes ?b = Some (ip, ?rest)"
      "from_prefix 8 udp_of_bytes ?rest = Some (udp, data @ slack)"
    by (simp_all add: p(1) ip6.from_prefix_append udp.from_prefix_append)
  have "40 \<le> length ?b" using lp by simp
  then obtain msg x y where m: "net_udp txid ip ?rest ?b = ok (Some (v6_addr (dst ip) (dst_port udp), msg))"
    "is_data_indication txid msg" "attrs msg = ok [x, y]" "item_typ x = XOR_PEER_ADDRESS"
    "decoded (sockaddr_decode True) x = Some (sa_of_v6 (v6_addr (src ip) (src_port udp)))"
    "item_typ y = DATA" "item_bytes y = sub ?b 48 ?n"
    using pre(2) p(4,8) room assms(4) by (rule net_udp_ok)
  have "sub ?b 48 ?n = data"
    by (simp add: p(1) sub_def ip6.length_as_bytes udp.length_as_bytes)
  moreover have "handle_net E txid (length packet) ?b = ok (Some (receiver, msg))"
    using m(1) pre(1) p by (simp add: handle_net_def)
  ultimately show thesis using m p(6) by (intro that) simp_all
qed

end
