(* ===== verification/Turn_Server.thy ===== *)
theory Turn_Server
  imports Relay
begin

text \<open>
  The TURN handler as a whole: \<open>handle_turn\<close> refines the policy \<open>turn_spec\<close>, its consequences for
  authentication and for what is answered at all, and the packets that a Send indication emits.
\<close>

section \<open>The handler and the policy\<close>

lemma handle_turn_eq:
  assumes "20 \<le> length msg" and "attrs msg = ok items" and "a = turn_attrs_of items"
  shows "handle_turn E canonical relayed msg =
    (if txid_of msg = replicate 12 0 then ok (None, [])
     else case turn_spec E canonical relayed a (class_of msg) (method_of msg) of
       Ignore \<Rightarrow> ok (None, [])
     | Respond cls vs \<Rightarrow> respond E (turn_key E a) cls vs msg
     | Relay \<Rightarrow> do { sent \<leftarrow> turn_send E relayed (ta_xor_peer a) (ta_data a) msg; ok (None, sent) })"
  using assms parse_turn_attrs_eq [OF assms(2)] turn_match_spec [of E canonical relayed a]
  by (simp add: handle_turn_def)

lemma respond_policy:
  assumes "turn_spec E canonical relayed (turn_attrs_of items) c m = Respond cls vs" and "100 \<le> length msg"
  shows "\<exists>r. respond E key cls vs msg = ok (Some r, []) \<and> is_reply E key msg cls vs r"
  using turn_spec_fits [OF assms(1)] assms(2) by (intro respond_ok) auto

lemma turn_send_other:
  "(\<forall>ip port. xor_peer \<noteq> Some (SocketAddr (IpV6 ip) port)) \<or> data = None \<Longrightarrow>
    turn_send E relayed xor_peer data msg = ok []"
  by (auto simp: turn_send_def split: option.splits socket_addr.splits ip_addr.splits)

lemma turn_send_total:
  assumes "attrs msg = ok items" and "a = turn_attrs_of items"
  shows "\<exists>sent. turn_send E relayed (ta_xor_peer a) (ta_data a) msg = ok sent"
proof (cases "(\<exists>ip port. ta_xor_peer a = Some (SocketAddr (IpV6 ip) port)) \<and> ta_data a \<noteq> None")
  case True
  then obtain peer port ptr d where a: "ta_xor_peer a = Some (SocketAddr (IpV6 peer) port)"
      "ta_data a = Some (ptr, d)" by auto
  then have d: "24 \<le> ptr" "d = sub msg ptr (length d)" "ptr + length d \<le> length msg" "length d \<le> 65507"
    using send_data [OF assms(1), of late peer port late ptr d] by (auto simp: assms(2) turn_attrs_of_def)
  show ?thesis
  proof (cases "48 + length d \<le> length msg")
    case True
    then show ?thesis
      using turn_send_packet [OF d, of E relayed peer port] a by metis
  next
    case False
    then show ?thesis using d(1) a by (simp add: turn_send_def assert_def)
  qed
next
  case False
  then show ?thesis using turn_send_other [of "ta_xor_peer a" "ta_data a" E relayed msg] by blast
qed

text \<open>
  What a message that the policy relays makes the server send: one packet with the data to the peer when the message has data and an
  IPv6 peer and the buffer has room for the headers before the data, and otherwise nothing.
\<close>

definition relayed_packets :: "('x) bitfield_scheme \<Rightarrow> socket_addr_v6 \<Rightarrow> nat \<Rightarrow> turn_attrs \<Rightarrow> buf list \<Rightarrow> bool" where
  "relayed_packets E relayed room a sent \<longleftrightarrow>
    (case (ta_xor_peer a, ta_data a) of
       (Some (SocketAddr (IpV6 peer) port), Some (_, d)) \<Rightarrow>
         if 48 + length d \<le> room then \<exists>packet. sent = [packet] \<and> is_udp_packet E relayed (v6_addr peer port) d packet
         else sent = []
     | _ \<Rightarrow> sent = [])"

lemma turn_send_relays:
  assumes "bitfield_ok E" and "attrs msg = ok items" and "a = turn_attrs_of items"
  shows "\<exists>sent. turn_send E relayed (ta_xor_peer a) (ta_data a) msg = ok sent \<and> relayed_packets E relayed (length msg) a sent"
proof (cases "(\<exists>ip port. ta_xor_peer a = Some (SocketAddr (IpV6 ip) port)) \<and> ta_data a \<noteq> None")
  case True
  then obtain peer port ptr d where a: "ta_xor_peer a = Some (SocketAddr (IpV6 peer) port)"
      "ta_data a = Some (ptr, d)" by auto
  then have d: "24 \<le> ptr" "d = sub msg ptr (length d)" "ptr + length d \<le> length msg" "length d \<le> 65507"
    using send_data [OF assms(2), of late peer port late ptr d] by (auto simp: assms(3) turn_attrs_of_def)
  show ?thesis
  proof (cases "48 + length d \<le> length msg")
    case True
    with assms(1) d obtain packet where "turn_send E relayed (Some (SocketAddr (IpV6 peer) port)) (Some (ptr, d)) msg = ok [packet]"
        "is_udp_packet E relayed (v6_addr peer port) d packet"
      by (rule turn_send_ok)
    then show ?thesis using True by (simp add: a relayed_packets_def)
  next
    case False
    then show ?thesis using d(1) a by (simp add: turn_send_def assert_def relayed_packets_def)
  qed
next
  case False
  then have "relayed_packets E relayed (length msg) a []"
    by (auto simp: relayed_packets_def split: option.splits socket_addr.splits ip_addr.splits)
  then show ?thesis using False turn_send_other [of "ta_xor_peer a" "ta_data a" E relayed msg] by blast
qed

lemma handle_turn_cases:
  assumes len: "100 \<le> length msg"
  obtains items where "attrs msg = ok items"
    "(\<exists>cls vs r. turn_spec E canonical relayed (turn_attrs_of items) (class_of msg) (method_of msg) = Respond cls vs \<and>
        txid_of msg \<noteq> replicate 12 0 \<and> handle_turn E canonical relayed msg = ok (Some r, []) \<and>
        is_reply E (turn_key E (turn_attrs_of items)) msg cls vs r) \<or>
     (\<exists>sent. handle_turn E canonical relayed msg = ok (None, sent))"
proof -
  obtain items where items: "attrs msg = ok items" using attrs_items [of msg] by blast
  let ?a = "turn_attrs_of items"
  have 20: "20 \<le> length msg" using len by simp
  note eq = handle_turn_eq [OF 20 items refl, of E canonical relayed]
  show thesis
  proof (cases "turn_spec E canonical relayed ?a (class_of msg) (method_of msg)")
    case (Respond cls vs)
    then obtain r where "respond E (turn_key E ?a) cls vs msg = ok (Some r, [])"
        "is_reply E (turn_key E ?a) msg cls vs r"
      using respond_policy [OF _ len] by blast
    with Respond show ?thesis by (intro that [OF items]) (auto simp: eq)
  next
    case Relay
    then show ?thesis
      using turn_send_total [OF items refl, of E relayed] by (intro that [OF items]) (auto simp: eq)
  qed (use that [OF items] eq in auto)
qed

lemma handle_turn_answer:
  assumes "100 \<le> length msg" and "handle_turn E canonical relayed msg = ok (Some r, sent)"
  obtains items cls vs where "attrs msg = ok items"
    "turn_spec E canonical relayed (turn_attrs_of items) (class_of msg) (method_of msg) = Respond cls vs"
    "txid_of msg \<noteq> replicate 12 0" "sent = []"
    "is_reply E (turn_key E (turn_attrs_of items)) msg cls vs r"
proof -
  obtain items where items: "attrs msg = ok items"
    "(\<exists>cls vs r. turn_spec E canonical relayed (turn_attrs_of items) (class_of msg) (method_of msg) = Respond cls vs \<and>
        txid_of msg \<noteq> replicate 12 0 \<and> handle_turn E canonical relayed msg = ok (Some r, []) \<and>
        is_reply E (turn_key E (turn_attrs_of items)) msg cls vs r) \<or>
     (\<exists>sent. handle_turn E canonical relayed msg = ok (None, sent))"
    using assms(1) by (rule handle_turn_cases)
  from items(2) show thesis
    using assms(2) that [OF items(1)] by auto
qed

lemma total_room_aligned: "total_room vs mod 4 = 0"
proof (induction vs)
  case (Cons v vs)
  have "av_room v mod 4 = 0"
    using pad4_aligned [of "av_size v"] by (simp add: av_room_def add.assoc mod_add_left_eq [of 4, symmetric])
  with Cons show ?case by (simp add: mod_eq_0_iff_dvd)
qed simp

lemma is_reply_decodes:
  assumes "is_reply E key msg cls vs r" and "20 \<le> length msg" and "len \<le> length msg"
    and "decode msg len = ok (Inr ())"
  shows "decode r (length r) = ok (Inr ())"
proof -
  have "length_of r mod 4 = 0"
    using assms(1) total_room_aligned [of vs] by (simp add: is_reply_def word_unat_eq_iff unat_mod)
  with assms show ?thesis by (simp add: is_reply_def decode_Inr)
qed

text \<open>
  \<open>reply_datagram\<close>: the bytes \<open>d\<close>, on their own, are a STUN message that answers the request with
  class \<open>c\<close> and the values \<open>vs\<close>. This is what a server puts on the wire: the buffer, cut to the
  length of the message.
\<close>

definition reply_datagram ::
    "('x) extern_scheme \<Rightarrow> byte list \<Rightarrow> stun \<Rightarrow> stun_class \<Rightarrow> attr_value list \<Rightarrow> buf \<Rightarrow> bool" where
  "reply_datagram E key req c vs d \<longleftrightarrow>
     decode d (length d) = ok (Inr ()) \<and> length d = 20 + total_room vs \<and> get_class d = ok c \<and>
     get_method d = get_method req \<and> get_txid d = get_txid req \<and>
     (case attrs d of None \<Rightarrow> False | Some items \<Rightarrow> list_all2 (shows_value E key) vs items)"

lemma reply_datagram_cong:
  "get_method req = get_method req' \<Longrightarrow> get_txid req = get_txid req' \<Longrightarrow>
    reply_datagram E key req c vs d = reply_datagram E key req' c vs d"
  by (simp add: reply_datagram_def)

lemma fields_take:
  assumes "20 \<le> n"
  shows "typ_of (take n b) = typ_of b" "length_of (take n b) = length_of b"
    "cookie_of (take n b) = cookie_of b" "txid_of (take n b) = txid_of b"
    "class_of (take n b) = class_of b" "method_of (take n b) = method_of b"
  using assms by (simp_all add: field_defs class_of_def method_of_def sub_take)

lemma fields_append:
  assumes "20 \<le> length b"
  shows "typ_of (b @ r) = typ_of b" "length_of (b @ r) = length_of b"
    "cookie_of (b @ r) = cookie_of b" "txid_of (b @ r) = txid_of b"
    "class_of (b @ r) = class_of b" "method_of (b @ r) = method_of b"
  using assms by (simp_all add: field_defs class_of_def method_of_def sub_append_left)

lemma is_reply_datagram:
  assumes "is_reply E key req c vs r" and "20 \<le> length req" and "len \<le> length req"
    and "decode req len = ok (Inr ())"
  shows "stun_len r = ok (20 + total_room vs)"
    and "slice r 0 (20 + total_room vs) = ok (take (20 + total_room vs) r)"
    and "reply_datagram E key req c vs (take (20 + total_room vs) r)"
proof -
  let ?n = "20 + total_room vs"
  have n: "unat (length_of r) = total_room vs" "?n \<le> length r" "length r = length req"
    using assms(1) by (simp_all add: is_reply_def)
  then show "stun_len r = ok ?n" "slice r 0 ?n = ok (take ?n r)"
    using assms(2) by (simp_all add: stun_len_def take_sub)
  have d: "decode r (length r) = ok (Inr ())" using assms by (rule is_reply_decodes)
  have "decode (take ?n r) ?n = ok (Inr ())"
    using n d by (simp add: decode_Inr fields_take)
  moreover have "attrs (take ?n r) = attrs r" using attrs_take [of r] n by simp
  ultimately show "reply_datagram E key req c vs (take ?n r)"
    using assms(1,2) n by (simp add: reply_datagram_def is_reply_def fields_take min_absorb2 method_of_def)
qed

lemma handle_turn_send:
  assumes "bitfield_ok E" and "20 \<le> length msg" and "txid_of msg \<noteq> replicate 12 0" and "attrs msg = ok items"
    and "class_of msg = Indication" and "method_of msg = Send"
    and a: "a = turn_attrs_of items" "ta_unknown a = None"
      "ta_xor_peer a = Some (SocketAddr (IpV6 peer) port)" "ta_data a = Some (ptr, d)"
    and room: "48 + length d \<le> length msg"
  obtains packet where "handle_turn E canonical relayed msg = ok (None, [packet])"
    "is_udp_packet E relayed (v6_addr peer port) d packet" "length d \<le> 65507"
proof -
  have d: "24 \<le> ptr" "d = sub msg ptr (length d)" "ptr + length d \<le> length msg" "length d \<le> 65507"
    using send_data [OF assms(4), of late peer port late ptr d] a by (auto simp: turn_attrs_of_def)
  obtain packet where p: "turn_send E relayed (Some (SocketAddr (IpV6 peer) port)) (Some (ptr, d)) msg = ok [packet]"
      "is_udp_packet E relayed (v6_addr peer port) d packet"
    using assms(1) d room by (rule turn_send_ok)
  have "turn_spec E canonical relayed a Indication Send = Relay"
    using a(2) by (simp add: turn_spec_def)
  then have "handle_turn E canonical relayed msg = ok (None, [packet])"
    using handle_turn_eq [OF assms(2,4) a(1), of E canonical relayed] assms(3,5,6) a(3,4) p(1) by simp
  with p(2) d(4) show thesis by (intro that)
qed

text \<open>A Data indication, cut to its own length, is the same indication.\<close>

lemma data_indication_take:
  assumes "is_data_indication txid msg"
  defines "n \<equiv> 20 + unat (length_of msg)"
  shows "stun_len msg = ok n" "slice msg 0 n = ok (take n msg)" "is_data_indication txid (take n msg)"
    "attrs (take n msg) = attrs msg"
proof -
  have d: "n \<le> length msg" using assms by (simp add: is_data_indication_def decode_Inr)
  then have 20: "20 \<le> length msg" "20 \<le> n" by (simp_all add: n_def)
  show "stun_len msg = ok n" using 20 by (simp add: stun_len_def n_def)
  show "slice msg 0 n = ok (take n msg)" using d by (simp add: take_sub)
  show "attrs (take n msg) = attrs msg" unfolding n_def by (rule attrs_take) (use d in \<open>simp add: n_def\<close>)
  have "decode msg (length msg) = ok (Inr ())" using assms(1) by (simp add: is_data_indication_def)
  then have "decode (take n msg) n = ok (Inr ())"
    using d 20 by (simp add: decode_Inr fields_take) (simp add: n_def)
  moreover have "class_of msg = Indication" "method_of msg = Data" "txid_of msg = txid"
    using assms(1) 20 by (simp_all add: is_data_indication_def)
  ultimately show "is_data_indication txid (take n msg)"
    using d 20 by (simp add: is_data_indication_def fields_take min_absorb2)
qed

text \<open>Every packet that a message makes the server send has the client's relayed address as its source.\<close>

lemma handle_turn_source:
  assumes "bitfield_ok E" and "20 \<le> length msg" and "handle_turn E canonical relayed msg = ok (r, sent)" and "packet \<in> set sent"
  shows "\<exists>peer d. is_udp_packet E relayed peer d packet"
proof -
  obtain items where items: "attrs msg = ok items" using attrs_items [of msg] by blast
  let ?a = "turn_attrs_of items"
  have s: "turn_send E relayed (ta_xor_peer ?a) (ta_data ?a) msg = ok sent"
    using assms(3,4) handle_turn_eq [OF assms(2) items refl, of E canonical relayed]
    by (auto simp: bind_eq_Some_conv respond_def split: if_splits turn_action.splits)
  have "\<not> ((\<forall>ip port. ta_xor_peer ?a \<noteq> Some (SocketAddr (IpV6 ip) port)) \<or> ta_data ?a = None)"
  proof
    assume "(\<forall>ip port. ta_xor_peer ?a \<noteq> Some (SocketAddr (IpV6 ip) port)) \<or> ta_data ?a = None"
    from turn_send_other [OF this, of E relayed msg] s assms(4) show False by simp
  qed
  then obtain peer port ptr d where a: "ta_xor_peer ?a = Some (SocketAddr (IpV6 peer) port)" "ta_data ?a = Some (ptr, d)"
    by auto
  have d: "24 \<le> ptr" "d = sub msg ptr (length d)" "ptr + length d \<le> length msg" "length d \<le> 65507"
    using send_data [OF items, of late peer port late ptr d] a by (auto simp: turn_attrs_of_def)
  show ?thesis
  proof (cases "48 + length d \<le> length msg")
    case True
    with assms(1) d obtain p where "turn_send E relayed (Some (SocketAddr (IpV6 peer) port)) (Some (ptr, d)) msg = ok [p]"
        "is_udp_packet E relayed (v6_addr peer port) d p"
      by (rule turn_send_ok)
    moreover from this(1) s a assms(4) have "packet = p" by auto
    ultimately show ?thesis by blast
  next
    case False
    then show ?thesis using s a assms(4) d(1) by (simp add: turn_send_def assert_def)
  qed
qed

end
