(* ===== verification/Samples.thy ===== *)
theory Samples
  imports Turn_Server
begin

text \<open>
  Concrete messages, and an instance of the crates' functions, on which the properties are
  exercised: a Binding request, an Allocate request with credentials, and a Send indication with
  the data \<open>hello\<close>. The hash functions of the instance are constant; the bit ranges are the
  documented ones.
\<close>

definition sample_extern :: extern where
  "sample_extern = \<lparr>bit_range_u8 = (\<lambda>v m l. ucast (bits_of v m l)), bit_range_u32 = bits_of,
     set_bit_range_u8 = (\<lambda>v m l x. with_bits v m l (ucast x)), set_bit_range_u32 = with_bits,
     hmac_sha1 = (\<lambda>k m. 0), md5 = (\<lambda>m. 0), crc32 = (\<lambda>m. 0)\<rparr>"

lemma sample_bitfield: "bitfield_ok sample_extern"
  by (simp add: bitfield_ok_def sample_extern_def)

definition sample_txid :: "byte list" where
  "sample_txid = [1, 2, 3, 4, 5, 6, 7, 8, 9, 10, 11, 12]"

definition sample_head :: "u16 \<Rightarrow> u16 \<Rightarrow> byte list" where
  "sample_head typ len = to_be_bytes typ @ to_be_bytes len @ [0x21, 0x12, 0xA4, 0x42] @ sample_txid"

definition binding_request :: stun where
  "binding_request = sample_head 0x0001 0 @ replicate 80 0"

definition allocate_request :: stun where
  "allocate_request = sample_head 0x0003 48 @
     [0x00, 0x06, 0x00, 0x01, 0x75, 0, 0, 0] @
     [0x00, 0x14, 0x00, 0x01, 0x72, 0, 0, 0] @
     [0x00, 0x19, 0x00, 0x04, 17, 0, 0, 0] @
     [0x00, 0x08, 0x00, 0x14] @ replicate 20 0 @ replicate 32 0"

definition send_indication :: stun where
  "send_indication = sample_head 0x0016 36 @
     [0x00, 0x12, 0x00, 0x14, 0, 2, 0xB3, 0x26, 0xDF, 0x92, 0xA4, 0x42, 1, 2, 3, 4, 5, 6, 7, 8, 9, 10, 11, 13] @
     [0x00, 0x13, 0x00, 0x05, 0x68, 0x65, 0x6C, 0x6C, 0x6F, 0, 0, 0] @ replicate 44 0"

lemmas bytes_simps = sub_def from_be_bytes_def to_be_bytes_u16

lemma binding_request_attrs: "attrs binding_request = ok []"
  by (rule attrs_holds, rule holds_attrs_empty)
    (simp_all add: binding_request_def sample_head_def sample_txid_def length_of_def bytes_simps)

lemmas sample_simps = sample_head_def sample_txid_def length_of_def attr_len_at_def item_at_def
  item_typ_def bytes_simps typ_of_def txid_of_def cookie_of_def

lemma sample_lengths [simp]:
  "length binding_request = 100" "length allocate_request = 100" "length send_indication = 100"
  by (simp_all add: binding_request_def allocate_request_def send_indication_def sample_simps)

lemma sample_length_fields:
  "length_of binding_request = 0" "length_of allocate_request = 48" "length_of send_indication = 36"
  by (simp_all add: binding_request_def allocate_request_def send_indication_def sample_simps)

lemma sample_types:
  "typ_of binding_request = 0x0001" "typ_of allocate_request = 0x0003" "typ_of send_indication = 0x0016"
  by (simp_all add: binding_request_def allocate_request_def send_indication_def sample_simps)

lemma sample_txids:
  "txid_of binding_request = sample_txid" "txid_of allocate_request = sample_txid"
  "txid_of send_indication = sample_txid"
  by (simp_all add: binding_request_def allocate_request_def send_indication_def sample_simps)

lemma sample_cookies:
  "cookie_of binding_request = MAGIC_COOKIE" "cookie_of allocate_request = MAGIC_COOKIE"
  "cookie_of send_indication = MAGIC_COOKIE"
  by (simp_all add: binding_request_def allocate_request_def send_indication_def sample_simps
      MAGIC_COOKIE_def)

lemma sample_class_method:
  "class_of binding_request = Request" "class_of allocate_request = Request"
  "class_of send_indication = Indication"
  "method_of binding_request = Binding" "method_of allocate_request = Allocate"
  "method_of send_indication = Send"
  by (simp_all add: class_of_def method_of_def sample_types raw_method_of_def method_of_u16_def)

lemma allocate_lens:
  "attr_len_at allocate_request 0 = 1" "attr_len_at allocate_request 8 = 1"
  "attr_len_at allocate_request 16 = 4" "attr_len_at allocate_request 24 = 20"
  by (simp_all add: allocate_request_def sample_simps)

lemma send_lens: "attr_len_at send_indication 0 = 20" "attr_len_at send_indication 24 = 5"
  by (simp_all add: send_indication_def sample_simps)

lemma allocate_attrs: "attrs allocate_request =
  ok [item_at allocate_request 0, item_at allocate_request 8, item_at allocate_request 16, item_at allocate_request 24]"
  by (simp add: attrs_def iter_at_0 attrs_collect_at attr_end_def pad4_def allocate_lens sample_length_fields)

lemma send_attrs: "attrs send_indication = ok [item_at send_indication 0, item_at send_indication 24]"
  by (simp add: attrs_def iter_at_0 attrs_collect_at attr_end_def pad4_def send_lens sample_length_fields)

lemma allocate_typs:
  "item_typ (item_at allocate_request 0) = USERNAME" "item_typ (item_at allocate_request 8) = REALM"
  "item_typ (item_at allocate_request 16) = REQUESTED_TRANSPORT"
  "item_typ (item_at allocate_request 24) = MESSAGE_INTEGRITY"
  by (simp_all add: allocate_request_def sample_simps attr_typ_defs)

lemma send_typs:
  "item_typ (item_at send_indication 0) = XOR_PEER_ADDRESS" "item_typ (item_at send_indication 24) = DATA"
  by (simp_all add: send_indication_def sample_simps attr_typ_defs)

definition hello :: "byte list" where
  "hello = [0x68, 0x65, 0x6C, 0x6C, 0x6F]"

lemma send_peer_item:
  "item_at send_indication 0 = (prefix_at send_indication 0 24, XOR_PEER_ADDRESS,
     (24, [0, 2, 0xB3, 0x26, 0xDF, 0x92, 0xA4, 0x42, 1, 2, 3, 4, 5, 6, 7, 8, 9, 10, 11, 13]))"
  "prefix_rest (prefix_at send_indication 0 24) = [0x21, 0x12, 0xA4, 0x42] @ sample_txid"
  "item_at send_indication 24 = (prefix_at send_indication 24 36, DATA, (48, hello))"
  by (simp_all add: send_indication_def sample_simps attr_end_def pad4_def attr_typ_defs
      hello_def prefix_at_def)

lemma send_values:
  "decoded (sockaddr_decode True) (item_at send_indication 0) =
     Some (SocketAddr (IpV6 0xFE800000000000000000000000000001) 0x9234)"
  "decoded (slice_decode :: (unit, bytes_ref) attr_decode) (item_at send_indication 24) = Some (48, hello)"
  by (simp_all add: decoded_def send_peer_item index_def maybe_xor_def xor_bytes_def sample_txid_def bytes_simps)

lemma allocate_items:
  "item_at allocate_request 0 = (prefix_at allocate_request 0 8, USERNAME, (24, [0x75]))"
  "item_at allocate_request 8 = (prefix_at allocate_request 8 16, REALM, (32, [0x72]))"
  "item_at allocate_request 16 = (prefix_at allocate_request 16 24, REQUESTED_TRANSPORT, (40, [17, 0, 0, 0]))"
  "item_at allocate_request 24 = (prefix_at allocate_request 24 48, MESSAGE_INTEGRITY, (48, replicate 20 0))"
  by (simp_all add: allocate_request_def sample_simps attr_end_def pad4_def attr_typ_defs prefix_at_def)

lemma allocate_turn_attrs:
  "turn_attrs_of [item_at allocate_request 0, item_at allocate_request 8, item_at allocate_request 16,
     item_at allocate_request 24] =
   \<lparr>ta_username = Some [0x75], ta_realm = Some [0x72],
     ta_integrity = Some \<lparr>mac_prefix = prefix_at allocate_request 24 48, mac = replicate 20 0\<rparr>,
     ta_nonce = None, ta_lifetime = None, ta_requested_transport = Some 17, ta_channel = None,
     ta_xor_peer = None, ta_data = None, ta_unknown = None\<rparr>"
  by (simp add: turn_attrs_of_def allocate_items found_def candidate_def item_typ_def decoded_def
      stage_simps index_def collect_unknown_def Let_def list_all_iff)

lemma send_turn_attrs:
  "turn_attrs_of [item_at send_indication 0, item_at send_indication 24] =
   \<lparr>ta_username = None, ta_realm = None, ta_integrity = None, ta_nonce = None, ta_lifetime = None,
     ta_requested_transport = None, ta_channel = None,
     ta_xor_peer = Some (SocketAddr (IpV6 0xFE800000000000000000000000000001) 0x9234),
     ta_data = Some (48, hello), ta_unknown = None\<rparr>"
  by (simp add: turn_attrs_of_def found_def candidate_def send_typs send_values
      stage_simps collect_unknown_def Let_def list_all_iff)

lemma allocate_verifies:
  "verify sample_extern \<lparr>mac_prefix = p, mac = replicate 20 0\<rparr> key"
  by (simp add: verify_def mac_of_def sample_extern_def to_be_bytes_def map_replicate_const)

text \<open>The Allocate request is answered with success, and the Send indication is relayed.\<close>

definition sample_canonical :: socket_addr where
  "sample_canonical = SocketAddr (IpV4 0x01020304) 99"

definition sample_relayed :: socket_addr_v6 where
  "sample_relayed = v6_addr 7 8"

definition allocate_items_list :: "item list" where
  "allocate_items_list = [item_at allocate_request 0, item_at allocate_request 8,
     item_at allocate_request 16, item_at allocate_request 24]"

lemma length_sample_txid [simp]: "length sample_txid = 12"
  by (simp add: sample_txid_def)

lemma sample_txid_nonzero: "sample_txid \<noteq> replicate 12 0"
  by (simp add: sample_txid_def numeral_eq_Suc)

lemma allocate_run:
  "\<exists>r. handle_turn sample_extern sample_canonical sample_relayed allocate_request = ok (Some r, []) \<and>
    is_reply sample_extern (turn_key sample_extern (turn_attrs_of allocate_items_list)) allocate_request Success
      [XorMapped sample_canonical, XorRelayed (sa_of_v6 sample_relayed), Lifetime 1000, MessageIntegrity] r"
proof -
  let ?a = "turn_attrs_of allocate_items_list"
  let ?vs = "[XorMapped sample_canonical, XorRelayed (sa_of_v6 sample_relayed), Lifetime 1000, MessageIntegrity]"
  have spec: "turn_spec sample_extern sample_canonical sample_relayed ?a Request Allocate = Respond Success ?vs"
    by (simp add: allocate_items_list_def allocate_turn_attrs turn_spec_def auth_policy_def
        allocate_verifies lifetime_of_def)
  have "attrs allocate_request = ok allocate_items_list"
    by (simp add: allocate_items_list_def allocate_attrs)
  from handle_turn_eq [OF _ this refl, of sample_extern sample_canonical sample_relayed]
  have "handle_turn sample_extern sample_canonical sample_relayed allocate_request =
      respond sample_extern (turn_key sample_extern ?a) Success ?vs allocate_request"
    by (simp add: sample_class_method sample_txids sample_txid_nonzero spec)
  then show ?thesis using respond_policy [OF spec, of allocate_request] by simp
qed

lemma send_run:
  obtains packet where
    "handle_turn sample_extern sample_canonical sample_relayed send_indication = ok (None, [packet])"
    "is_udp_packet sample_extern sample_relayed (v6_addr 0xFE800000000000000000000000000001 0x9234) hello packet"
  by (rule handle_turn_send [OF sample_bitfield _ _ send_attrs _ _ refl,
        where peer = "0xFE800000000000000000000000000001" and port = "0x9234" and ptr = 48 and d = hello
          and relayed = sample_relayed and canonical = sample_canonical])
    (simp_all add: send_turn_attrs sample_class_method sample_txids sample_txid_nonzero hello_def)

text \<open>The outer and the inner header of an ICMPv6 error.\<close>

definition sample_ip :: "byte \<Rightarrow> u16 \<Rightarrow> u128 \<Rightarrow> u128 \<Rightarrow> ip6_header" where
  "sample_ip proto len s d = \<lparr>flags = 0x60000000, payload_length = len, next_header = proto,
     hop_limit = 64, src = s, dst = d\<rparr>"

definition sample_udp :: "u16 \<Rightarrow> udp_header" where
  "sample_udp len = \<lparr>src_port = 1000, dst_port = 2000, udp_length = len, checksum = 0\<rparr>"

definition sample_icmp :: icmp6_header where
  "sample_icmp = \<lparr>icmp_typ = 1, icmp_code = 4, icmp_checksum = 0, icmp_arg = 0\<rparr>"

text \<open>A request with an XOR-PEER-ADDRESS after its MESSAGE-INTEGRITY.\<close>

definition late_request :: stun where
  "late_request = sample_head 0x0008 48 @ [0x00, 0x08, 0x00, 0x14] @ replicate 20 0 @
     [0x00, 0x12, 0x00, 0x14, 0, 2, 0xB3, 0x26, 0xDF, 0x92, 0xA4, 0x42, 1, 2, 3, 4, 5, 6, 7, 8, 9, 10, 11, 13]"

lemma late_lens:
  "length late_request = 68" "length_of late_request = 48"
  "attr_len_at late_request 0 = 20" "attr_len_at late_request 24 = 20"
  by (simp_all add: late_request_def sample_simps)

lemma late_attrs: "attrs late_request = ok [item_at late_request 0, item_at late_request 24]"
  by (simp add: attrs_def iter_at_0 attrs_collect_at attr_end_def pad4_def late_lens)

lemma late_peer_item:
  "item_at late_request 24 = (prefix_at late_request 24 48, XOR_PEER_ADDRESS,
     (48, [0, 2, 0xB3, 0x26, 0xDF, 0x92, 0xA4, 0x42, 1, 2, 3, 4, 5, 6, 7, 8, 9, 10, 11, 13]))"
  "prefix_rest (prefix_at late_request 24 48) =
     [0x21, 0x12, 0xA4, 0x42] @ sample_txid @ [0x00, 0x08, 0x00, 0x14] @ replicate 20 0"
  by (simp_all add: late_request_def sample_simps attr_end_def pad4_def attr_typ_defs prefix_at_def)

lemma late_items:
  "item_typ (item_at late_request 0) = MESSAGE_INTEGRITY"
  "item_typ (item_at late_request 24) = XOR_PEER_ADDRESS"
  "decoded (sockaddr_decode True) (item_at late_request 24) =
     Some (SocketAddr (IpV6 0xFE800000000000000000000000000001) 0x9234)"
  by (simp_all add: late_peer_item decoded_def index_def maybe_xor_def xor_bytes_def sample_txid_def bytes_simps)
    (simp_all add: late_request_def sample_simps attr_typ_defs)

end
