(* ===== verification/Rfc5769.thy ===== *)
theory Rfc5769
  imports Samples
begin

text \<open>
  \<^verbatim>\<open>src/stun/rfc5769.rs\<close>: the sample request of RFC 5769, section 2.1, and the chain of parsers that the unit test
  runs on it. The test's assertions are proved for every HMAC-SHA1 and CRC-32 that give the values which the RFC publishes for the two
  texts; the texts are written out, so that they show which bytes and which length field are covered.
\<close>

definition VECTOR_2_1 :: buf where
  "VECTOR_2_1 = [
     0x00, 0x01, 0x00, 0x58,
     0x21, 0x12, 0xa4, 0x42,
     0xb7, 0xe7, 0xa7, 0x01,
     0xbc, 0x34, 0xd6, 0x86,
     0xfa, 0x87, 0xdf, 0xae,
     0x80, 0x22, 0x00, 0x10,
     0x53, 0x54, 0x55, 0x4e,
     0x20, 0x74, 0x65, 0x73,
     0x74, 0x20, 0x63, 0x6c,
     0x69, 0x65, 0x6e, 0x74,
     0x00, 0x24, 0x00, 0x04,
     0x6e, 0x00, 0x01, 0xff,
     0x80, 0x29, 0x00, 0x08,
     0x93, 0x2f, 0xf9, 0xb1,
     0x51, 0x26, 0x3b, 0x36,
     0x00, 0x06, 0x00, 0x09,
     0x65, 0x76, 0x74, 0x6a,
     0x3a, 0x68, 0x36, 0x76,
     0x59, 0x20, 0x20, 0x20,
     0x00, 0x08, 0x00, 0x14,
     0x9a, 0xea, 0xa7, 0x0c,
     0xbf, 0xd8, 0xcb, 0x56,
     0x78, 0x1e, 0xf2, 0xb5,
     0xb2, 0xd3, 0xf2, 0x49,
     0xc1, 0xb5, 0x71, 0xa2,
     0x80, 0x28, 0x00, 0x04,
     0xe5, 0x7a, 0x3b, 0xcf]"

record vector_attrs =
  va_software :: "str option"
  va_priority :: "u32 option"
  va_ice_controlled :: "u64 option"
  va_username :: "str option"
  va_integrity :: "integrity option"
  va_fingerprint :: "unit option"
  va_unknown :: "u16 list option"

definition parse_vector :: "('x) extern_scheme \<Rightarrow> stun \<Rightarrow> vector_attrs run" where
  "parse_vector E msg = do {
     items \<leftarrow> attrs msg;
     (software, items) \<leftarrow> parse SOFTWARE must_precede_default str_decode items;
     (priority, items) \<leftarrow> parse PRIORITY must_precede_default numeric_decode items;
     (ice_controlled, items) \<leftarrow> parse ICE_CONTROLLED must_precede_default numeric_decode items;
     (username, items) \<leftarrow> parse USERNAME must_precede_default str_decode items;
     (integrity, items) \<leftarrow> parse MESSAGE_INTEGRITY must_precede_integrity (integrity_decode 20) items;
     (fingerprint, items) \<leftarrow> parse FINGERPRINT must_precede_fingerprint (fingerprint_decode E) items;
     ok \<lparr>va_software = software, va_priority = priority, va_ice_controlled = ice_controlled, va_username = username,
       va_integrity = integrity, va_fingerprint = fingerprint, va_unknown = collect_unknown 4 items\<rparr> }"

text \<open>The two texts: the message before the attribute, with the length field of a message that ends with it.\<close>

definition hmac_text :: buf where
  "hmac_text = [0x00, 0x01, 0x00, 0x50] @ sub VECTOR_2_1 4 72"

definition crc_text :: buf where
  "crc_text = take 100 VECTOR_2_1"

lemma vector_length [simp]: "length VECTOR_2_1 = 108"
  by (simp add: VECTOR_2_1_def)

lemmas vector_simps = VECTOR_2_1_def length_of_def attr_len_at_def item_at_def bytes_simps typ_of_def cookie_of_def

lemma vector_fields:
  "length_of VECTOR_2_1 = 88" "typ_of VECTOR_2_1 = 1" "cookie_of VECTOR_2_1 = MAGIC_COOKIE"
  by (simp_all add: vector_simps MAGIC_COOKIE_def)

lemma vector_lens:
  "attr_len_at VECTOR_2_1 0 = 16" "attr_len_at VECTOR_2_1 20 = 4" "attr_len_at VECTOR_2_1 28 = 8"
  "attr_len_at VECTOR_2_1 40 = 9" "attr_len_at VECTOR_2_1 56 = 20" "attr_len_at VECTOR_2_1 80 = 4"
  by (simp_all add: vector_simps)

lemma vector_attrs: "attrs VECTOR_2_1 = ok (map (item_at VECTOR_2_1) [0, 20, 28, 40, 56, 80])"
  by (simp add: attrs_def iter_at_0 attrs_collect_at attr_end_def pad4_def vector_lens vector_fields)

lemma vector_items:
  "item_at VECTOR_2_1 0 = (prefix_at VECTOR_2_1 0 20, SOFTWARE, (24, str_lit ''STUN test client''))"
  "item_at VECTOR_2_1 20 = (prefix_at VECTOR_2_1 20 28, PRIORITY, (44, [0x6e, 0x00, 0x01, 0xff]))"
  "item_at VECTOR_2_1 28 = (prefix_at VECTOR_2_1 28 40, ICE_CONTROLLED,
     (52, [0x93, 0x2f, 0xf9, 0xb1, 0x51, 0x26, 0x3b, 0x36]))"
  "item_at VECTOR_2_1 40 = (prefix_at VECTOR_2_1 40 56, USERNAME, (64, str_lit ''evtj:h6vY''))"
  "item_at VECTOR_2_1 56 = (prefix_at VECTOR_2_1 56 80, MESSAGE_INTEGRITY,
     (80, [0x9a, 0xea, 0xa7, 0x0c, 0xbf, 0xd8, 0xcb, 0x56, 0x78, 0x1e, 0xf2, 0xb5, 0xb2, 0xd3, 0xf2, 0x49, 0xc1, 0xb5, 0x71, 0xa2]))"
  "item_at VECTOR_2_1 80 = (prefix_at VECTOR_2_1 80 88, FINGERPRINT, (104, [0xe5, 0x7a, 0x3b, 0xcf]))"
  by (simp_all add: vector_simps attr_end_def pad4_def attr_typ_defs prefix_at_def str_lit_def)

lemma vector_texts:
  "reduce_over_prefix (prefix_at VECTOR_2_1 56 80) = hmac_text"
  "reduce_over_prefix (prefix_at VECTOR_2_1 80 88) = crc_text"
  by (simp_all add: reduce_over_prefix_def prefix_at_def vector_simps hmac_text_def crc_text_def)

lemma vector_values:
  "from_be_bytes [0x6e, 0x00, 0x01, 0xff] = (0x6e0001ff :: u32)"
  "from_be_bytes [0x93, 0x2f, 0xf9, 0xb1, 0x51, 0x26, 0x3b, 0x36] = (0x932ff9b151263b36 :: u64)"
  "from_be_bytes [0xe5, 0x7a, 0x3b, 0xcf] = (0xe57a3bcf :: u32)"
  "to_be_bytes (0x9aeaa70cbfd8cb56781ef2b5b2d3f249c1b571a2 :: 160 word) =
     [0x9a, 0xea, 0xa7, 0x0c, 0xbf, 0xd8, 0xcb, 0x56, 0x78, 0x1e, 0xf2, 0xb5, 0xb2, 0xd3, 0xf2, 0x49, 0xc1, 0xb5, 0x71, 0xa2]"
  by (simp_all add: from_be_bytes_def to_be_bytes_def upt_rec)

lemma vector_utf8: "utf8_valid (str_lit ''STUN test client'')" "utf8_valid (str_lit ''evtj:h6vY'')"
  by (simp_all add: str_lit_def)

lemma vector_parse:
  assumes "crc32 E crc_text XOR FINGERPRINT_MAGIC = 0xe57a3bcf"
  shows "parse_vector E VECTOR_2_1 = ok \<lparr>va_software = Some (str_lit ''STUN test client''), va_priority = Some 0x6e0001ff,
    va_ice_controlled = Some 0x932ff9b151263b36, va_username = Some (str_lit ''evtj:h6vY''),
    va_integrity = Some \<lparr>mac_prefix = prefix_at VECTOR_2_1 56 80,
      mac = to_be_bytes (0x9aeaa70cbfd8cb56781ef2b5b2d3f249c1b571a2 :: 160 word)\<rparr>,
    va_fingerprint = Some (), va_unknown = None\<rparr>"
  using assms
  by (simp add: parse_vector_def vector_attrs vector_items parse_spec candidate_def item_typ_def stage_simps
      must_precede_fingerprint_def vector_utf8 vector_values fingerprint_of_def vector_texts collect_unknown_def list_all_iff)

text \<open>The assertions of the test.\<close>

theorem decode_vector_2_1:
  assumes "hmac_sha1 E (str_lit ''VOkJxbRl1RmTxUk/WvJxBt'') hmac_text = 0x9aeaa70cbfd8cb56781ef2b5b2d3f249c1b571a2"
    and "hmac_sha1 E (str_lit ''wrong password'') hmac_text \<noteq> 0x9aeaa70cbfd8cb56781ef2b5b2d3f249c1b571a2"
    and "crc32 E crc_text XOR FINGERPRINT_MAGIC = 0xe57a3bcf"
  shows "\<exists>a integrity. stun_new VECTOR_2_1 = ok VECTOR_2_1 \<and> decode VECTOR_2_1 (length VECTOR_2_1) = ok (Inr ()) \<and>
    get_class VECTOR_2_1 = ok Request \<and> get_method VECTOR_2_1 = ok Binding \<and>
    parse_vector E VECTOR_2_1 = ok a \<and> va_unknown a = None \<and>
    va_software a = Some (str_lit ''STUN test client'') \<and> va_priority a = Some 0x6e0001ff \<and>
    va_ice_controlled a = Some 0x932ff9b151263b36 \<and> va_username a = Some (str_lit ''evtj:h6vY'') \<and>
    va_integrity a = Some integrity \<and> verify E integrity (str_lit ''VOkJxbRl1RmTxUk/WvJxBt'') \<and>
    \<not> verify E integrity (str_lit ''wrong password'') \<and> va_fingerprint a = Some ()"
proof -
  let ?i = "\<lparr>mac_prefix = prefix_at VECTOR_2_1 56 80, mac = to_be_bytes (0x9aeaa70cbfd8cb56781ef2b5b2d3f249c1b571a2 :: 160 word)\<rparr>"
  have "verify E ?i (str_lit ''VOkJxbRl1RmTxUk/WvJxBt'')" "\<not> verify E ?i (str_lit ''wrong password'')"
    using assms(1,2) by (auto simp: verify_def mac_of_def vector_texts to_be_bytes_inject)
  moreover have "stun_new VECTOR_2_1 = ok VECTOR_2_1" "decode VECTOR_2_1 108 = ok (Inr ())"
      "get_class VECTOR_2_1 = ok Request" "get_method VECTOR_2_1 = ok Binding"
    by (simp_all add: stun_new_def decode_Inr vector_fields class_of_def method_of_def raw_method_of_def method_of_u16_def)
  ultimately show ?thesis using vector_parse [OF assms(3)] by simp
qed

end
