(* ===== verification/Declared.thy ===== *)
theory Declared
  imports Stun_Header
begin

text \<open>
  The macros \<^verbatim>\<open>declare!\<close> and \<^verbatim>\<open>declare_fields!\<close> of \<^verbatim>\<open>src/stun/util.rs\<close>, as functions on the declarations they are given.
  The expansion accumulates an offset, an alignment and the expression of the length; a \<open>layout\<close> holds what it generates: the
  fields with their offsets and the constants. \<open>None\<close> is an invocation that no rule matches. The generated accessors, constructor,
  length and iterator are functions of the layout.

  The declaration of \<^verbatim>\<open>Stun\<close> in \<^verbatim>\<open>src/stun/mod.rs\<close> expands to the accessors of \<open>Stun_Header\<close>.
\<close>

section \<open>The program\<close>

datatype int_ty = U8 | U16 | U32
datatype field_ty = IntTy int_ty | ArrayTy nat
datatype len_expr = LenOffset nat | SelfMinLen
datatype field_decl = Field field_ty string | LenField len_expr int_ty string | Align nat | Items string

record layout =
  lay_fields :: "(string \<times> nat \<times> field_ty) list"
  lay_align :: nat
  lay_min_len :: nat
  lay_len_offset :: len_expr
  lay_len_field :: "string option"
  lay_items :: "string option"

fun field_size :: "field_ty \<Rightarrow> nat" where
  "field_size (IntTy U8) = 1"
| "field_size (IntTy U16) = 2"
| "field_size (IntTy U32) = 4"
| "field_size (ArrayTy n) = n"

definition add_field :: "string \<Rightarrow> nat \<Rightarrow> field_ty \<Rightarrow> layout \<Rightarrow> layout" where
  "add_field f offset ty L = L\<lparr>lay_fields := (f, offset, ty) # lay_fields L\<rparr>"

function declare_fields :: "nat \<Rightarrow> nat \<Rightarrow> len_expr \<Rightarrow> string option \<Rightarrow> field_decl list \<Rightarrow> layout option" where
  "declare_fields offset align len_offset len_field [] =
     Some \<lparr>lay_fields = [], lay_align = align, lay_min_len = offset, lay_len_offset = len_offset,
       lay_len_field = len_field, lay_items = None\<rparr>"
| "declare_fields offset align len_offset len_field [Items typ] =
     map_option (\<lambda>L. L\<lparr>lay_items := Some typ\<rparr>) (declare_fields offset align len_offset len_field [])"
| "declare_fields offset align len_offset len_field (Items typ # d # ds) = None"
| "declare_fields offset align _ _ (LenField len_offset typ field # ds) =
     declare_fields offset align len_offset (Some field) (Field (IntTy typ) field # ds)"
| "declare_fields offset _ len_offset len_field (Align align # ds) =
     declare_fields offset align len_offset len_field ds"
| "declare_fields offset align len_offset len_field (Field ty field # ds) =
     map_option (add_field field offset ty) (declare_fields (offset + field_size ty) align len_offset len_field ds)"
  by pat_completeness auto
termination
  by (relation "measure (\<lambda>(_, _, _, _, ds). size_list (\<lambda>d. case d of LenField _ _ _ \<Rightarrow> 2 | _ \<Rightarrow> 1) ds)") auto

definition declare_struct :: "field_decl list \<Rightarrow> layout option" where
  "declare_struct ds = declare_fields 0 1 (LenOffset 0) None ds"

text \<open>The accessors. A setter of an array hands out its bytes; the caller fills them.\<close>

datatype field_val = V8 byte | V16 u16 | V32 u32 | VArray "byte list"

fun read_field :: "field_ty \<Rightarrow> nat \<Rightarrow> buf \<Rightarrow> field_val run" where
  "read_field (IntTy U8) offset b = do { v \<leftarrow> index b offset; ok (V8 v) }"
| "read_field (IntTy U16) offset b = do { v \<leftarrow> get_be b offset 2; ok (V16 v) }"
| "read_field (IntTy U32) offset b = do { v \<leftarrow> get_be b offset 4; ok (V32 v) }"
| "read_field (ArrayTy n) offset b = do { bs \<leftarrow> slice b offset n; ok (VArray bs) }"

fun write_field :: "nat \<Rightarrow> field_val \<Rightarrow> buf \<Rightarrow> buf run" where
  "write_field offset (V8 v) b = assign b offset v"
| "write_field offset (V16 v) b = set_be b offset v"
| "write_field offset (V32 v) b = set_be b offset v"
| "write_field offset (VArray bs) b = put b offset bs"

fun field_typed :: "field_ty \<Rightarrow> field_val \<Rightarrow> bool" where
  "field_typed (IntTy U8) (V8 _) = True"
| "field_typed (IntTy U16) (V16 _) = True"
| "field_typed (IntTy U32) (V32 _) = True"
| "field_typed (ArrayTy n) (VArray bs) = (length bs = n)"
| "field_typed _ _ = False"

definition struct_new :: "layout \<Rightarrow> buf \<Rightarrow> buf run" where
  "struct_new L b = do { assert (lay_min_len L \<le> length b); ok b }"

definition len_offset_of :: "layout \<Rightarrow> nat" where
  "len_offset_of L = (case lay_len_offset L of LenOffset n \<Rightarrow> n | SelfMinLen \<Rightarrow> lay_min_len L)"

definition fakededed_length :: "layout \<Rightarrow> buf \<Rightarrow> nat run" where
  "fakededed_length L b = do { assert (len_offset_of L \<le> length b); ok (length b - len_offset_of L) }"

fun usize_of :: "field_val \<Rightarrow> nat run" where
  "usize_of (V8 v) = ok (unat v)"
| "usize_of (V16 v) = ok (unat v)"
| "usize_of (V32 v) = ok (unat v)"
| "usize_of (VArray _) = panic"

definition struct_len :: "layout \<Rightarrow> buf \<Rightarrow> nat run" where
  "struct_len L b = do {
     n \<leftarrow> (case lay_len_field L of
        None \<Rightarrow> fakededed_length L b
      | Some f \<Rightarrow> (case map_of (lay_fields L) f of
          None \<Rightarrow> panic
        | Some (offset, ty) \<Rightarrow> do { v \<leftarrow> read_field ty offset b; usize_of v }));
     ok (n + len_offset_of L) }"

text \<open>\<^verbatim>\<open>VarIter::next\<close> over items of the layout \<open>I\<close>, and the iterator of a container of the layout \<open>L\<close>.\<close>

definition var_next :: "layout \<Rightarrow> buf \<Rightarrow> (buf option \<times> buf) run" where
  "var_next I buffer =
     (if length buffer < lay_min_len I then ok (None, buffer) else do {
      len \<leftarrow> struct_len I buffer;
      if length buffer < len then ok (None, buffer) else do {
      let ret = take len buffer;
      let align = lay_align I;
      assert (align \<noteq> 0);
      let padding = (align - len mod align) mod align;
      let total = len + padding;
      ok (Some ret, if length buffer \<ge> total then drop total buffer else []) }})"

definition var_items :: "layout \<Rightarrow> buf \<Rightarrow> buf run" where
  "var_items L b = do {
     assert (lay_min_len L \<le> length b);
     n \<leftarrow> struct_len L b;
     slice (drop (lay_min_len L) b) 0 n }"

text \<open>The declaration of \<^verbatim>\<open>Stun\<close>.\<close>

definition STUN_DECL :: "field_decl list" where
  "STUN_DECL = [Field (IntTy U16) ''typ'', LenField SelfMinLen U16 ''length'', Field (IntTy U32) ''cookie'',
     Field (ArrayTy 12) ''txid'']"

section \<open>Fields lie side by side\<close>

fun fields_tile :: "nat \<Rightarrow> (string \<times> nat \<times> field_ty) list \<Rightarrow> nat \<Rightarrow> bool" where
  "fields_tile offset [] stop = (offset = stop)"
| "fields_tile offset ((f, at, ty) # fs) stop = (at = offset \<and> fields_tile (offset + field_size ty) fs stop)"

lemma declare_fields_tile:
  "declare_fields offset align len_offset len_field ds = Some L \<Longrightarrow> fields_tile offset (lay_fields L) (lay_min_len L)"
  by (induction offset align len_offset len_field ds arbitrary: L rule: declare_fields.induct) (auto simp: add_field_def)

lemma fields_tile_bounds:
  "fields_tile offset fs stop \<Longrightarrow> i < length fs \<Longrightarrow> fs ! i = (f, at, ty) \<Longrightarrow> offset \<le> at \<and> at + field_size ty \<le> stop"
proof (induction offset fs stop arbitrary: i rule: fields_tile.induct)
  case (2 offset f' at' ty' fs stop)
  have le: "fields_tile offset fs stop \<Longrightarrow> offset \<le> stop" for offset
    by (induction offset fs stop rule: fields_tile.induct) auto
  show ?case
  proof (cases i)
    case (Suc k)
    then show ?thesis using "2.IH" [of k] "2.prems" by auto
  qed (use "2.prems" in \<open>auto dest!: le\<close>)
qed simp

lemma fields_tile_disjoint:
  assumes "fields_tile offset fs stop" and "i < j" and "j < length fs"
    and "fs ! i = (f, at, ty)" and "fs ! j = (g, at', ty')"
  shows "at + field_size ty \<le> at'"
  using assms
proof (induction offset fs stop arbitrary: i j rule: fields_tile.induct)
  case (2 offset f' o' ty' fs stop)
  obtain k where k: "j = Suc k" using "2.prems"(2) by (cases j) auto
  show ?case
  proof (cases i)
    case 0
    then show ?thesis using "2.prems" k fields_tile_bounds [of "offset + field_size ty'" fs stop k] by auto
  next
    case (Suc i')
    then show ?thesis using "2.IH" [of i' k] "2.prems" k by auto
  qed
qed simp

section \<open>What the accessors read and write\<close>

text \<open>Every field is read from and written to its own bytes.\<close>

fun field_of_bytes :: "field_ty \<Rightarrow> byte list \<Rightarrow> field_val" where
  "field_of_bytes (IntTy U8) bs = V8 (hd bs)"
| "field_of_bytes (IntTy U16) bs = V16 (from_be_bytes bs)"
| "field_of_bytes (IntTy U32) bs = V32 (from_be_bytes bs)"
| "field_of_bytes (ArrayTy n) bs = VArray bs"

fun field_bytes :: "field_val \<Rightarrow> byte list" where
  "field_bytes (V8 v) = [v]"
| "field_bytes (V16 v) = to_be_bytes v"
| "field_bytes (V32 v) = to_be_bytes v"
| "field_bytes (VArray bs) = bs"

lemma read_field_eq:
  "offset + field_size ty \<le> length b \<Longrightarrow> read_field ty offset b = ok (field_of_bytes ty (sub b offset (field_size ty)))"
  by (cases "(ty, offset, b)" rule: read_field.cases)
    (auto simp: index_def get_be_def sub_def hd_conv_nth)

lemma field_bytes_size: "field_typed ty v \<Longrightarrow> length (field_bytes v) = field_size ty"
  by (cases "(ty, v)" rule: field_typed.cases) auto

lemma field_bytes_inverse: "field_typed ty v \<Longrightarrow> field_of_bytes ty (field_bytes v) = v"
  by (cases "(ty, v)" rule: field_typed.cases) (auto simp: be_simps)

lemma write_field_eq:
  assumes "field_typed ty v" and "offset + field_size ty \<le> length b"
  shows "write_field offset v b = ok (overwrite b offset (field_bytes v))"
proof -
  note n = field_bytes_size [OF assms(1)]
  show ?thesis
  proof (cases v)
    case (V8 x)
    then have "offset < length b" using n assms(2) by simp
    then show ?thesis by (simp add: V8 assign_def overwrite_def upd_conv_take_nth_drop)
  qed (use n assms(2) in \<open>auto simp: set_be_def\<close>)
qed


lemma struct_fields:
  assumes "declare_struct ds = Some L" and "lay_min_len L \<le> length b"
    and "i < length (lay_fields L)" and "lay_fields L ! i = (f, at, ty)"
  shows "at + field_size ty \<le> lay_min_len L" "read_field ty at b = ok (field_of_bytes ty (sub b at (field_size ty)))"
proof -
  have "fields_tile 0 (lay_fields L) (lay_min_len L)"
    using assms(1) declare_fields_tile by (simp add: declare_struct_def)
  then show "at + field_size ty \<le> lay_min_len L" using fields_tile_bounds assms(3,4) by blast
  then show "read_field ty at b = ok (field_of_bytes ty (sub b at (field_size ty)))"
    using assms(2) by (intro read_field_eq) simp
qed

lemma struct_fields_apart:
  assumes "declare_struct ds = Some L" and "i \<noteq> j" and "i < length (lay_fields L)" and "j < length (lay_fields L)"
    and "lay_fields L ! i = (f, at, ty)" and "lay_fields L ! j = (g, at', ty')"
  shows "at + field_size ty \<le> at' \<or> at' + field_size ty' \<le> at"
proof -
  have "fields_tile 0 (lay_fields L) (lay_min_len L)"
    using assms(1) declare_fields_tile by (simp add: declare_struct_def)
  then show ?thesis
    using fields_tile_disjoint [of 0 "lay_fields L" "lay_min_len L"] assms(2-6) by (metis nat_neq_iff)
qed

lemma struct_write:
  assumes "declare_struct ds = Some L" and "lay_min_len L \<le> length b"
    and "i < length (lay_fields L)" and "lay_fields L ! i = (f, at, ty)" and "field_typed ty v"
  obtains b' where "write_field at v b = ok b'" "length b' = length b" "read_field ty at b' = ok v"
    "drop (lay_min_len L) b' = drop (lay_min_len L) b"
    "\<forall>j g at' ty'. j < length (lay_fields L) \<and> j \<noteq> i \<and> lay_fields L ! j = (g, at', ty') \<longrightarrow>
      read_field ty' at' b' = read_field ty' at' b"
proof -
  note n = field_bytes_size [OF assms(5)]
  note at = struct_fields(1) [OF assms(1-4)]
  have fits: "at + field_size ty \<le> length b" using at assms(2) by simp
  let ?b = "overwrite b at (field_bytes v)"
  have len: "length ?b = length b" using fits n by simp
  have "read_field ty at ?b = ok v"
    using fits n field_bytes_inverse [OF assms(5)] by (simp add: read_field_eq len buf_simps)
  moreover have "read_field ty' at' ?b = read_field ty' at' b"
    if j: "j < length (lay_fields L)" "j \<noteq> i" "lay_fields L ! j = (g, at', ty')" for j g at' ty'
  proof -
    have "sub ?b at' (field_size ty') = sub b at' (field_size ty')"
      using struct_fields_apart [OF assms(1) j(2,1) assms(3) j(3) assms(4)] fits n by (auto simp: buf_simps)
    then show ?thesis using struct_fields(2) [OF assms(1) _ j(1,3)] assms(2) len by simp
  qed
  moreover have "drop (lay_min_len L) ?b = drop (lay_min_len L) b"
    using at n fits by (simp add: overwrite_def)
  ultimately show thesis using that write_field_eq [OF assms(5) fits] len by blast
qed

section \<open>The declaration of the STUN header\<close>

lemma stun_layout:
  "declare_struct STUN_DECL = Some \<lparr>lay_fields = [(''typ'', 0, IntTy U16), (''length'', 2, IntTy U16), (''cookie'', 4, IntTy U32),
     (''txid'', 8, ArrayTy 12)], lay_align = 1, lay_min_len = 20, lay_len_offset = SelfMinLen, lay_len_field = Some ''length'', lay_items = None\<rparr>"
  by (simp add: declare_struct_def STUN_DECL_def add_field_def)

lemma bind_ok_map: "do { v \<leftarrow> x; ok (f v) } = map_option f x"
  by (cases x) simp_all

lemma map_bind_map: "map_option f (map_option g x \<bind> h) = do { v \<leftarrow> x; w \<leftarrow> h (g v); ok (f w) }"
  by (cases x) (simp_all add: bind_ok_map)

lemma stun_accessors:
  assumes "declare_struct STUN_DECL = Some L"
  shows "struct_new L b = stun_new b" "struct_len L b = stun_len b"
    "map_of (lay_fields L) ''typ'' = Some (0, IntTy U16)" "map_of (lay_fields L) ''length'' = Some (2, IntTy U16)"
    "map_of (lay_fields L) ''cookie'' = Some (4, IntTy U32)" "map_of (lay_fields L) ''txid'' = Some (8, ArrayTy 12)"
    "read_field (IntTy U16) 0 b = map_option V16 (get_typ b)" "read_field (IntTy U16) 2 b = map_option V16 (get_length b)"
    "read_field (IntTy U32) 4 b = map_option V32 (get_cookie b)" "read_field (ArrayTy 12) 8 b = map_option VArray (get_txid b)"
    "write_field 0 (V16 t) b = set_typ t b" "write_field 2 (V16 t) b = set_length t b"
    "write_field 4 (V32 c) b = set_cookie c b" "write_field 8 (VArray x) b = set_txid x b"
  using assms unfolding stun_layout
  by (auto simp: struct_new_def stun_new_def struct_len_def stun_len_def len_offset_of_def get_typ_def get_length_def
      get_cookie_def get_txid_def set_typ_def set_length_def set_cookie_def set_txid_def bind_ok_map map_bind_map)

section \<open>The iterator over items\<close>

lemma struct_len_total:
  assumes "declare_struct ds = Some L" and "lay_min_len L \<le> length b" and "lay_len_field L = Some f"
    and "map_of (lay_fields L) f = Some (at, IntTy t)"
  shows "\<exists>n. struct_len L b = ok (n + len_offset_of L)"
proof -
  obtain i where i: "i < length (lay_fields L)" "lay_fields L ! i = (f, at, IntTy t)"
    using map_of_SomeD [OF assms(4)] by (metis in_set_conv_nth)
  show ?thesis
    using struct_fields(2) [OF assms(1,2) i] assms(3,4) by (cases t) (auto simp: struct_len_def)
qed

text \<open>An item is a prefix, what is left of the buffer is a suffix behind it, and a non-empty item makes the rest shorter.\<close>

lemma var_next_item:
  assumes "var_next I buffer = ok (Some item, rest)"
  shows "\<exists>n pad. struct_len I buffer = ok n \<and> item = take n buffer \<and> n \<le> length buffer \<and> rest = drop (n + pad) buffer \<and>
    (n + pad) mod lay_align I = 0 \<and> (0 < n \<longrightarrow> length rest < length buffer)"
proof -
  obtain n where n: "struct_len I buffer = ok n" "n \<le> length buffer" "lay_align I \<noteq> 0" "item = take n buffer"
      "rest = drop (n + (lay_align I - n mod lay_align I) mod lay_align I) buffer"
    using assms by (auto simp: var_next_def Let_def assert_def bind_eq_Some_conv split: if_splits)
  let ?a = "lay_align I"
  have "(n + (?a - n mod ?a) mod ?a) mod ?a = (n mod ?a + (?a - n mod ?a)) mod ?a"
    by (simp add: mod_add_right_eq mod_add_left_eq)
  also have "\<dots> = 0" using n(3) mod_less_divisor [of ?a n] by simp
  finally show ?thesis using n(1,2,4,5) by (intro exI [of _ n] exI [of _ "(?a - n mod ?a) mod ?a"]) auto
qed

text \<open>
  The iterator of a container slices \<^verbatim>\<open>len()\<close> bytes after the fixed part. When the length is declared to include the fixed part, as in
  \<^verbatim>\<open>Stun\<close>, that is too much: on a buffer that holds exactly the message it panics.
\<close>

lemma var_items_out_of_range:
  assumes "lay_len_offset L = SelfMinLen" and "0 < lay_min_len L" and "struct_len L b = ok (length b)"
  shows "var_items L b = panic"
  using assms by (auto simp: var_items_def slice_def assert_def)

end
