(* ===== verification/Attr_Table.thy ===== *)
theory Attr_Table
  imports Turn_Replies
begin

text \<open>
  Which value type each attribute number has: the invocations of the attribute macros in \<^verbatim>\<open>src/stun/rfc8445.rs\<close>,
  \<^verbatim>\<open>rfc8489.rs\<close> and \<^verbatim>\<open>rfc8656.rs\<close>, and the hand-written implementations. In Rust the pair of a number and a type selects the
  implementation of \<^verbatim>\<open>Attr\<close> and \<^verbatim>\<open>AttrEnc\<close>; here the table gives the kind of a number, and \<open>attr_encode\<close> and
  \<open>attr_decode_as\<close> select by kind. The kinds that the table has meet the contract \<open>attr_codec\<close>, so that whatever is
  appended under a number of the table is read back. ICMP is not in the table: its decoder always fails.
\<close>

section \<open>The program\<close>

datatype attr_kind = KAddr bool | KStr | KNum32 | KNum64 | KSlice | KEmpty | KByte | KChannel | KEvenPort | KToken
  | KError | KAddrError | KUnknown | KIntegrity | KFingerprint

definition RFC8445_ATTRS :: "(u16 \<times> attr_kind) list" where
  "RFC8445_ATTRS = [(PRIORITY, KNum32), (ICE_CONTROLLED, KNum64), (ICE_CONTROLLING, KNum64), (USE_CANDIDATE, KEmpty)]"

definition RFC8489_ATTRS :: "(u16 \<times> attr_kind) list" where
  "RFC8489_ATTRS = [(MAPPED_ADDRESS, KAddr False), (USERNAME, KStr), (ALTERNATE_SERVER, KAddr False),
     (XOR_MAPPED_ADDRESS, KAddr True), (REALM, KStr), (NONCE, KStr), (ALTERNATE_DOMAIN, KStr), (SOFTWARE, KStr)]"

definition RFC8656_ATTRS :: "(u16 \<times> attr_kind) list" where
  "RFC8656_ATTRS = [(XOR_PEER_ADDRESS, KAddr True), (XOR_RELAYED_ADDRESS, KAddr True), (LIFETIME, KNum32), (DATA, KSlice),
     (DONT_FRAGMENT, KEmpty)]"

definition BYTE_ATTRS :: "(u16 \<times> attr_kind) list" where
  "BYTE_ATTRS = [(REQUESTED_ADDRESS_FAMILY, KByte), (REQUESTED_TRANSPORT, KByte), (ADDITIONAL_ADDRESS_FAMILY, KByte)]"

definition IMPL_ATTRS :: "(u16 \<times> attr_kind) list" where
  "IMPL_ATTRS = [(UNKNOWN_ATTRIBUTES, KUnknown), (FINGERPRINT, KFingerprint), (ERROR_CODE, KError), (ADDRESS_ERROR_CODE, KAddrError),
     (CHANNEL_NUMBER, KChannel), (EVEN_PORT, KEvenPort), (RESERVATION_TOKEN, KToken), (MESSAGE_INTEGRITY, KIntegrity)]"

definition ATTR_TABLE :: "(u16 \<times> attr_kind) list" where
  "ATTR_TABLE = RFC8445_ATTRS @ RFC8489_ATTRS @ RFC8656_ATTRS @ BYTE_ATTRS @ IMPL_ATTRS"

text \<open>What is encoded, and what a decoder gives: a slice is decoded to its place in the buffer, a key to the code made with it.\<close>

datatype attr_in = InAddr bool socket_addr | InStr str | In32 u32 | In64 u64 | InSlice "byte list" | InEmpty | InByte byte
  | InChannel u16 | InEvenPort bool | InToken "byte list" | InError "u16 \<times> str" | InAddrError "byte \<times> u16 \<times> str"
  | InUnknown "u16 list" | InKey "byte list" | InFingerprint

datatype attr_out = OutAddr socket_addr | OutStr str | Out32 u32 | Out64 u64 | OutSlice bytes_ref | OutEmpty | OutByte byte
  | OutChannel u16 | OutEvenPort bool | OutToken "byte list" | OutError "u16 \<times> str" | OutAddrError "byte \<times> u16 \<times> str"
  | OutUnknown "u16 list" | OutMac integrity | OutFingerprint

fun attr_encode :: "('x) extern_scheme \<Rightarrow> attr_in \<Rightarrow> attr_enc" where
  "attr_encode E (InAddr masked a) = sockaddr_enc masked a"
| "attr_encode E (InStr s) = str_enc s"
| "attr_encode E (In32 n) = numeric_enc n"
| "attr_encode E (In64 n) = numeric_enc n"
| "attr_encode E (InSlice s) = slice_enc s"
| "attr_encode E InEmpty = empty_enc ()"
| "attr_encode E (InByte v) = byte_enc v"
| "attr_encode E (InChannel c) = channel_enc c"
| "attr_encode E (InEvenPort r) = even_port_enc r"
| "attr_encode E (InToken t) = token_enc t"
| "attr_encode E (InError e) = error_code_enc e"
| "attr_encode E (InAddrError e) = address_error_enc e"
| "attr_encode E (InUnknown us) = unknown_attrs_enc us"
| "attr_encode E (InKey key) = integrity_enc E key"
| "attr_encode E InFingerprint = fingerprint_enc E ()"

definition as_out :: "('a \<Rightarrow> attr_out) \<Rightarrow> ('e, 'a) attr_decode \<Rightarrow> (unit, attr_out) attr_decode" where
  "as_out f dec p value = do { r \<leftarrow> dec p value; ok (map_sum (\<lambda>_. ()) f r) }"

fun attr_decode_as :: "('x) extern_scheme \<Rightarrow> nat \<Rightarrow> attr_kind \<Rightarrow> (unit, attr_out) attr_decode" where
  "attr_decode_as E N (KAddr masked) = as_out OutAddr (sockaddr_decode masked)"
| "attr_decode_as E N KStr = as_out OutStr str_decode"
| "attr_decode_as E N KNum32 = as_out Out32 numeric_decode"
| "attr_decode_as E N KNum64 = as_out Out64 numeric_decode"
| "attr_decode_as E N KSlice = as_out OutSlice (slice_decode :: (unit, bytes_ref) attr_decode)"
| "attr_decode_as E N KEmpty = as_out (\<lambda>_. OutEmpty) (empty_decode :: (unit, unit) attr_decode)"
| "attr_decode_as E N KByte = as_out OutByte byte_decode"
| "attr_decode_as E N KChannel = as_out OutChannel channel_decode"
| "attr_decode_as E N KEvenPort = as_out OutEvenPort even_port_decode"
| "attr_decode_as E N KToken = as_out OutToken token_decode"
| "attr_decode_as E N KError = as_out OutError error_code_decode"
| "attr_decode_as E N KAddrError = as_out OutAddrError address_error_decode"
| "attr_decode_as E N KUnknown = as_out OutUnknown (unknown_attrs_decode N :: (unit, u16 list) attr_decode)"
| "attr_decode_as E N KIntegrity = as_out OutMac (integrity_decode 20)"
| "attr_decode_as E N KFingerprint = as_out (\<lambda>_. OutFingerprint) (fingerprint_decode E)"

section \<open>Every kind meets the contract\<close>

fun kind_of :: "attr_in \<Rightarrow> attr_kind" where
  "kind_of (InAddr masked a) = KAddr masked"
| "kind_of (InStr s) = KStr"
| "kind_of (In32 n) = KNum32"
| "kind_of (In64 n) = KNum64"
| "kind_of (InSlice s) = KSlice"
| "kind_of InEmpty = KEmpty"
| "kind_of (InByte v) = KByte"
| "kind_of (InChannel c) = KChannel"
| "kind_of (InEvenPort r) = KEvenPort"
| "kind_of (InToken t) = KToken"
| "kind_of (InError e) = KError"
| "kind_of (InAddrError e) = KAddrError"
| "kind_of (InUnknown us) = KUnknown"
| "kind_of (InKey key) = KIntegrity"
| "kind_of InFingerprint = KFingerprint"

fun in_size :: "attr_in \<Rightarrow> nat" where
  "in_size (InAddr masked a) = sockaddr_size a"
| "in_size (InStr s) = length s"
| "in_size (In32 n) = 4"
| "in_size (In64 n) = 8"
| "in_size (InSlice s) = length s"
| "in_size InEmpty = 0"
| "in_size (InByte v) = 4"
| "in_size (InChannel c) = 4"
| "in_size (InEvenPort r) = 1"
| "in_size (InToken t) = 8"
| "in_size (InError e) = 4 + length (snd e)"
| "in_size (InAddrError e) = 4 + length (snd (snd e))"
| "in_size (InUnknown us) = length (filter (\<lambda>a. a \<noteq> 0) us) * 2"
| "in_size (InKey key) = 20"
| "in_size InFingerprint = 4"

text \<open>The values that the encoders accept: UTF-8 strings, codes up to 799, at most \<open>N\<close> types with zeros last, and what fits a 16-bit length.\<close>

fun in_ok :: "nat \<Rightarrow> attr_in \<Rightarrow> bool" where
  "in_ok N (InStr s) = (utf8_valid s \<and> length s < 65536)"
| "in_ok N (InSlice s) = (length s < 65536)"
| "in_ok N (InToken t) = (length t = 8)"
| "in_ok N (InError e) = error_code_ok e"
| "in_ok N (InAddrError e) = address_error_ok e"
| "in_ok N (InUnknown us) = zeros_last N us"
| "in_ok N _ = True"

fun in_seen :: "('x) extern_scheme \<Rightarrow> prefix \<Rightarrow> nat \<Rightarrow> attr_in \<Rightarrow> attr_out" where
  "in_seen E p ptr (InAddr masked a) = OutAddr a"
| "in_seen E p ptr (InStr s) = OutStr s"
| "in_seen E p ptr (In32 n) = Out32 n"
| "in_seen E p ptr (In64 n) = Out64 n"
| "in_seen E p ptr (InSlice s) = OutSlice (ptr, s)"
| "in_seen E p ptr InEmpty = OutEmpty"
| "in_seen E p ptr (InByte v) = OutByte v"
| "in_seen E p ptr (InChannel c) = OutChannel c"
| "in_seen E p ptr (InEvenPort r) = OutEvenPort r"
| "in_seen E p ptr (InToken t) = OutToken t"
| "in_seen E p ptr (InError e) = OutError e"
| "in_seen E p ptr (InAddrError e) = OutAddrError e"
| "in_seen E p ptr (InUnknown us) = OutUnknown us"
| "in_seen E p ptr (InKey key) = OutMac \<lparr>mac_prefix = p, mac = mac_of E key p\<rparr>"
| "in_seen E p ptr InFingerprint = OutFingerprint"

lemma as_out_Inr: "dec p value = ok (Inr a) \<Longrightarrow> as_out f dec p value = ok (Inr (f a))"
  by (simp add: as_out_def)

text \<open>The contract of one type, for its values as members of \<open>attr_in\<close>.\<close>

lemma codec_values:
  assumes "attr_codec enc dec bytes val seen" and "val a"
  shows "bytes a < 65536 \<and> enc_length (enc a) = ok (of_nat (bytes a)) \<and>
    (\<forall>p v. prefix_ok p \<longrightarrow> length v = bytes a \<longrightarrow>
      (\<exists>w. enc_write (enc a) p v = ok w \<and> length w = bytes a \<and> (\<forall>ptr. as_out f dec p (ptr, w) = ok (Inr (f (seen p ptr a))))))"
  using attr_codec.size_u16 [OF assms] attr_codec.enc_length [OF assms] attr_codec.enc_dec [OF assms] as_out_Inr by metis


definition meets :: "('x) extern_scheme \<Rightarrow> nat \<Rightarrow> attr_in \<Rightarrow> bool" where
  "meets E N v \<longleftrightarrow> in_size v < 65536 \<and> enc_length (attr_encode E v) = ok (of_nat (in_size v)) \<and>
    (\<forall>p b. prefix_ok p \<longrightarrow> length b = in_size v \<longrightarrow>
      (\<exists>w. enc_write (attr_encode E v) p b = ok w \<and> length w = in_size v \<and>
        (\<forall>ptr. attr_decode_as E N (kind_of v) p (ptr, w) = ok (Inr (in_seen E p ptr v)))))"

lemma in_meets:
  assumes ok: "in_ok N v"
  shows "meets E N v"
proof (cases v)
  case (InAddr masked a)
  then show ?thesis using ok codec_values [OF sockaddr.attr_codec_axioms, of a masked OutAddr] by (simp add: meets_def)
next
  case (InStr s)
  then show ?thesis using ok codec_values [OF str.attr_codec_axioms, of s OutStr] by (simp add: meets_def)
next
  case (In32 n)
  then show ?thesis using ok codec_values [OF num32.attr_codec_axioms, of n Out32] by (simp add: meets_def)
next
  case (In64 n)
  then show ?thesis using ok codec_values [OF num64.attr_codec_axioms, of n Out64] by (simp add: meets_def)
next
  case (InSlice s)
  then show ?thesis using ok codec_values [OF data.attr_codec_axioms [where ?'a = unit], of s OutSlice] by (simp add: meets_def)
next
  case InEmpty
  then show ?thesis using ok codec_values [OF empty.attr_codec_axioms [where ?'a = unit], of "()" "\<lambda>_. OutEmpty"] by (simp add: meets_def)
next
  case (InByte x)
  then show ?thesis using ok codec_values [OF byte_attr.attr_codec_axioms, of x OutByte] by (simp add: meets_def)
next
  case (InChannel c)
  then show ?thesis using ok codec_values [OF channel.attr_codec_axioms, of c OutChannel] by (simp add: meets_def)
next
  case (InEvenPort r)
  then show ?thesis using ok codec_values [OF even_port.attr_codec_axioms, of r OutEvenPort] by (simp add: meets_def)
next
  case (InToken t)
  then show ?thesis using ok codec_values [OF token.attr_codec_axioms, of t OutToken] by (simp add: meets_def)
next
  case (InError e)
  then show ?thesis using ok codec_values [OF error_code.attr_codec_axioms, of e OutError] by (simp add: meets_def)
next
  case (InAddrError e)
  then show ?thesis using ok codec_values [OF address_error.attr_codec_axioms, of e OutAddrError] by (simp add: meets_def)
next
  case (InUnknown us)
  then show ?thesis using ok codec_values [OF unknown_attrs.attr_codec_axioms [where ?'a = unit], of N us OutUnknown] by (simp add: meets_def)
next
  case (InKey key)
  then show ?thesis using ok codec_values [OF integrity.attr_codec_axioms, of E key OutMac] by (simp add: meets_def)
next
  case InFingerprint
  then show ?thesis using ok codec_values [OF fingerprint.attr_codec_axioms, of E "()" "\<lambda>_. OutFingerprint"] by (simp add: meets_def)
qed

interpretation table_attr: attr_codec "attr_encode E" "attr_decode_as E N k" in_size "\<lambda>v. in_ok N v \<and> kind_of v = k" "in_seen E"
  for E and N and k
  by unfold_locales (use in_meets [of N _ E] in \<open>auto simp: meets_def\<close>)

lemma table_distinct: "distinct (map fst ATTR_TABLE)"
  by (simp add: ATTR_TABLE_def RFC8445_ATTRS_def RFC8489_ATTRS_def RFC8656_ATTRS_def BYTE_ATTRS_def IMPL_ATTRS_def attr_typ_defs)

end
