(* ===== verification/Stun_Properties.thy ===== *)
theory Stun_Properties
  imports Samples Declared Attr_Table
begin

text \<open>
  The properties of the STUN codec: header, attribute iterator, append, the attribute values and
  the chain of parsers, and of the Internet checksum.
\<close>

section \<open>Messages\<close>

text \<open>
  C11. \<open>Stun::append\<close> refines appending to the list of attributes. For a message that holds the attributes \<open>xs\<close>
  and an encoder that fills the bytes it announces, the append fails with \<open>NotStun\<close> exactly when the length field cannot
  hold the new length \<open>e\<close>, with \<open>TooShort (20 + e)\<close> exactly when the buffer is shorter than that, and otherwise
  gives a message with the same type, cookie and transaction id that holds \<open>xs\<close> and the new attribute.
\<close>

theorem append_refines_snoc:
  fixes n :: u16
  assumes "holds_attrs b xs" and "enc_length a = ok n"
    and "\<forall>p v. prefix_ok p \<and> length v = unat n \<longrightarrow> (\<exists>w. enc_write a p v = ok w \<and> length w = unat n)"
    and "e = unat (length_of b) + 4 + unat n + pad4 (unat n)"
  shows "(65536 \<le> e \<longrightarrow> stun_append T a b = ok (Inl NotStun)) \<and>
    (e < 65536 \<and> length b < 20 + e \<longrightarrow> stun_append T a b = ok (Inl (TooShort (20 + e)))) \<and>
    (e < 65536 \<and> 20 + e \<le> length b \<longrightarrow> (\<exists>c x. stun_append T a b = ok (Inr c) \<and> same_header b c \<and>
       attrs c = ok (xs @ [x]) \<and> item_typ x = T \<and> length (item_bytes x) = unat n \<and>
       unat (length_of c) = e))"
proof (intro conjI impI)
  have b: "4 \<le> length b" using assms(1) by (simp add: holds_attrs_def)
  show "stun_append T a b = ok (Inl NotStun)" if "65536 \<le> e"
    using that stun_append_error(1) [OF assms(2) b] assms(4) by simp
  show "stun_append T a b = ok (Inl (TooShort (20 + e)))" if "e < 65536 \<and> length b < 20 + e"
    using that stun_append_error(2) [OF assms(2) b] assms(4) by simp
  assume e: "e < 65536 \<and> 20 + e \<le> length b"
  let ?off = "unat (length_of b)"
  have "prefix_ok (prefix_at b ?off e)" using e assms(4) by (intro prefix_at_ok) simp
  moreover have "length (sub b (24 + ?off) (unat n)) = unat n" using e assms(4) by auto
  ultimately obtain w where w: "enc_write a (prefix_at b ?off e) (sub b (24 + ?off) (unat n)) = ok w"
      "length w = unat n" using assms(3) by blast
  then obtain c where c: "stun_append T a b = ok (Inr c)" "same_header b c" "length_of c = of_nat e"
      "holds_attrs c (xs @ [(prefix_at b ?off e, T, (24 + ?off, w))])"
    using append_holds_attrs [of b xs a n w T] assms(1,2,4) e by auto
  moreover have "unat (length_of c) = e" using c(3) e by (simp add: unat_of_nat_u16)
  ultimately show "\<exists>c x. stun_append T a b = ok (Inr c) \<and> same_header b c \<and> attrs c = ok (xs @ [x]) \<and>
      item_typ x = T \<and> length (item_bytes x) = unat n \<and> unat (length_of c) = e"
    using w(2) attrs_holds [OF c(4)]
    by (intro exI [of _ c] exI [of _ "(prefix_at b ?off e, T, (24 + ?off, w))"])
      (simp add: item_typ_def item_bytes_def)
qed

theorem append_refines_snoc_witness:
  "\<exists>c x. stun_append SOFTWARE (str_enc hello) binding_request = ok (Inr c) \<and> attrs c = ok [x] \<and>
     item_typ x = SOFTWARE"
proof -
  have "holds_attrs binding_request []"
    by (simp add: holds_attrs_empty sample_length_fields)
  moreover have "\<forall>p v. prefix_ok p \<and> length v = unat (5 :: u16) \<longrightarrow>
      (\<exists>w. enc_write (str_enc hello) p v = ok w \<and> length w = unat (5 :: u16))"
    by (simp add: str_enc_def hello_def copy_from_slice_def)
  ultimately show ?thesis
    using append_refines_snoc [of binding_request "[]" "str_enc hello" 5 12 SOFTWARE]
    by (simp add: str_enc_def hello_def sample_length_fields pad4_def del: split_paired_Ex) blast
qed

text \<open>
  C29. The attribute iterator is total and safe on any buffer: it ends, it does not panic, every item
  has a value inside the buffer and inside the announced length, and the items are disjoint and in buffer order.
\<close>

theorem attrs_safe:
  "\<exists>xs. attrs b = ok xs \<and> sorted_wrt before xs \<and>
    list_all (\<lambda>x. 24 \<le> item_ptr x \<and> item_ptr x + length (item_bytes x) \<le> length b \<and>
      item_ptr x + length (item_bytes x) \<le> 20 + unat (length_of b) \<and>
      item_bytes x = sub b (item_ptr x) (length (item_bytes x))) xs"
proof -
  obtain xs where "attrs b = ok xs" "\<forall>x \<in> set xs. item_ok b x" "sorted_wrt before xs"
    using attrs_items [of b] by blast
  then show ?thesis by (intro exI [of _ xs]) (auto simp: list_all_iff item_ok_def)
qed

text \<open>
  C30. \<open>decode\<close> accepts exactly the messages with two zero bits first, a length that is a multiple of
  four, the magic cookie, and as many bytes as the length says; when it reports \<open>TooShort n\<close>, then \<open>n\<close> is
  more than what was there, and it never panics for a length within the buffer.
\<close>

theorem decode_accepts:
  assumes "len \<le> length b"
  shows "decode b len \<noteq> panic \<and>
    (decode b len = ok (Inr ()) \<longleftrightarrow>
       drop_bit 14 (typ_of b) = 0 \<and> unat (length_of b) mod 4 = 0 \<and> cookie_of b = MAGIC_COOKIE \<and>
       20 + unat (length_of b) \<le> len) \<and>
    (\<forall>n. decode b len = ok (Inl (TooShort n)) \<longrightarrow> len < n)"
proof -
  have "length_of b mod 4 = 0 \<longleftrightarrow> unat (length_of b) mod 4 = 0"
    by (simp add: word_unat_eq_iff unat_mod)
  then show ?thesis
    using decode_Inr [OF assms] by (auto simp: decode_ok [OF assms] split: if_splits)
qed

theorem decode_accepts_witness: "decode send_indication 56 = ok (Inr ())"
  using decode_accepts [of 56 send_indication]
  by (simp add: sample_types sample_length_fields sample_cookies)

text \<open>
  C32. Class and method are independent fields of the type: setting the class reads back and keeps
  the method, setting a named method reads back and keeps the class, and both keep length, cookie and transaction id.
  Setting the method \<open>Unknown\<close> panics.
\<close>

theorem class_method_fields:
  assumes "20 \<le> length b" and "m \<noteq> Unknown"
  shows "(\<exists>c. set_class cls b = ok c \<and> get_class c = ok cls \<and> get_method c = get_method b \<and>
      length_of c = length_of b \<and> cookie_of c = cookie_of b \<and> txid_of c = txid_of b \<and> drop 20 c = drop 20 b) \<and>
    (\<exists>c. set_method m b = ok c \<and> get_method c = ok m \<and> get_class c = get_class b \<and>
      length_of c = length_of b \<and> cookie_of c = cookie_of b \<and> txid_of c = txid_of b \<and> drop 20 c = drop 20 b) \<and>
    set_method Unknown b = panic"
proof (intro conjI)
  let ?c = "overwrite b 0 (to_be_bytes (typ_with_class cls (typ_of b)))"
  have "class_of ?c = cls" using assms(1) by (rule class_of_overwrite_class)
  then show "\<exists>c. set_class cls b = ok c \<and> get_class c = ok cls \<and> get_method c = get_method b \<and>
      length_of c = length_of b \<and> cookie_of c = cookie_of b \<and> txid_of c = txid_of b \<and> drop 20 c = drop 20 b"
    using assms(1)
    by (simp add: set_class_def fields_of_overwrite method_of_def method_of_typ_with_class) (simp add: overwrite_def)
  have m: "u16_of_method m \<le> 0xFFF" "method_of_u16 (u16_of_method m) = m"
    using assms(2) by (cases m; simp add: method_of_u16_def)+
  let ?d = "overwrite b 0 (to_be_bytes (typ_with_method (u16_of_method m) (typ_of b)))"
  have "class_of ?d = class_of b"
    using assms(1) by (simp add: class_of_def fields_of_overwrite class_of_typ_with_method)
  then show "\<exists>c. set_method m b = ok c \<and> get_method c = ok m \<and> get_class c = get_class b \<and>
      length_of c = length_of b \<and> cookie_of c = cookie_of b \<and> txid_of c = txid_of b \<and> drop 20 c = drop 20 b"
    using assms(1) m
    by (simp add: set_method_def set_raw_method_def assert_def fields_of_overwrite method_of_def
        method_of_typ_with_method) (simp add: overwrite_def)
  show "set_method Unknown b = panic"
    by (simp add: set_method_def set_raw_method_def assert_def)
qed

theorem class_method_fields_witness:
  "\<exists>c. set_method ChannelBind binding_request = ok c \<and> get_method c = ok ChannelBind \<and>
     get_class c = get_class binding_request"
  using class_method_fields [of binding_request ChannelBind Error] by auto

text \<open>
  C35. What \<^verbatim>\<open>declare!\<close> generates is right, for every declaration that it accepts: on a buffer that the constructor accepts no
  accessor panics; a field that is set reads back, setting it changes neither the length of the buffer, nor what is behind the declared
  fields, nor any other field.
\<close>

theorem declared_accessors:
  assumes "declare_struct ds = Some L" and "struct_new L b = ok b0"
    and "i < length (lay_fields L)" and "lay_fields L ! i = (f, at, ty)" and "field_typed ty v"
  shows "read_field ty at b \<noteq> panic \<and> (\<exists>b'. write_field at v b = ok b' \<and> length b' = length b \<and> read_field ty at b' = ok v \<and>
    drop (lay_min_len L) b' = drop (lay_min_len L) b \<and>
    (\<forall>j g at' ty'. j < length (lay_fields L) \<and> j \<noteq> i \<and> lay_fields L ! j = (g, at', ty') \<longrightarrow>
      read_field ty' at' b' = read_field ty' at' b))"
proof -
  have "lay_min_len L \<le> length b" using assms(2) by (auto simp: struct_new_def assert_def split: if_splits)
  then show ?thesis
    using struct_fields(2) [OF assms(1) _ assms(3,4)] struct_write [OF assms(1) _ assms(3-5)] by (metis option.discI)
qed

theorem declared_accessors_witness:
  "\<exists>b'. set_cookie 7 binding_request = ok b' \<and> get_cookie b' = ok 7 \<and> get_typ b' = get_typ binding_request \<and>
     get_txid b' = get_txid binding_request"
proof -
  obtain L where L: "declare_struct STUN_DECL = Some L" "lay_fields L = [(''typ'', 0, IntTy U16), (''length'', 2, IntTy U16),
      (''cookie'', 4, IntTy U32), (''txid'', 8, ArrayTy 12)]"
    by (simp add: stun_layout)
  note acc = stun_accessors [OF L(1)]
  have new: "struct_new L binding_request = ok binding_request" by (simp add: acc(1) stun_new_def)
  have i: "2 < length (lay_fields L)" "lay_fields L ! 2 = (''cookie'', 4, IntTy U32)" "field_typed (IntTy U32) (V32 7)"
    by (simp_all add: L(2))
  from declared_accessors [OF L(1) new i]
  obtain b' where w: "write_field 4 (V32 7) binding_request = ok b'" "read_field (IntTy U32) 4 b' = ok (V32 7)"
      "\<forall>j g at' ty'. j < length (lay_fields L) \<and> j \<noteq> 2 \<and> lay_fields L ! j = (g, at', ty') \<longrightarrow>
        read_field ty' at' b' = read_field ty' at' binding_request"
    by blast
  have "read_field (IntTy U16) 0 b' = read_field (IntTy U16) 0 binding_request"
    using w(3) [rule_format, of 0 "''typ''"] by (simp add: L(2) del: read_field.simps)
  moreover have "read_field (ArrayTy 12) 8 b' = read_field (ArrayTy 12) 8 binding_request"
    using w(3) [rule_format, of 3 "''txid''"] by (simp add: L(2) del: read_field.simps)
  moreover have "inj V16" "inj V32" "inj VArray" by (simp_all add: inj_def)
  ultimately show ?thesis
    using w(1,2) unfolding acc by (auto dest: option.inj_map [THEN injD])
qed

section \<open>Attribute values\<close>

text \<open>
  C33. Every attribute reads back. For every attribute number that has a value type, a value that the encoder accepts, appended to a
  message with room for it, becomes the last attribute of the message, has that number, and decodes at the type of that number to the value that was
  encoded (for a slice: at its place in the buffer; for MESSAGE-INTEGRITY: to the code made with the key). A number has one value type only.
\<close>

theorem attr_table_roundtrip:
  assumes "(T, k) \<in> set ATTR_TABLE" and "kind_of v = k" and "in_ok N v" and "holds_attrs b xs"
    and "unat (length_of b) + (4 + in_size v + pad4 (in_size v)) < 65536"
    and "20 + unat (length_of b) + (4 + in_size v + pad4 (in_size v)) \<le> length b"
  shows "\<exists>c x. append_u T (attr_encode E v) b = ok c \<and> attrs c = ok (xs @ [x]) \<and> item_typ x = T \<and>
    map_of ATTR_TABLE (item_typ x) = Some k \<and> decoded (attr_decode_as E N k) x = Some (in_seen E (fst x) (item_ptr x) v)"
proof -
  obtain c x where x: "append_u T (attr_encode E v) b = ok c" "holds_attrs c (xs @ [x])" "item_typ x = T"
      "decoded (attr_decode_as E N k) x = Some (in_seen E (fst x) (item_ptr x) v)"
    using table_attr.append_u_step [OF assms(4), of N v k T E] assms(2,3,5,6) by auto
  moreover have "attrs c = ok (xs @ [x])" by (rule attrs_holds [OF x(2)])
  moreover have "map_of ATTR_TABLE (item_typ x) = Some k" using map_of_is_SomeI [OF table_distinct assms(1)] x(3) by simp
  ultimately show ?thesis by blast
qed

theorem attr_table_roundtrip_witness:
  "\<exists>c x. append_u ERROR_CODE (error_code_enc (420, [])) binding_request = ok c \<and> attrs c = ok [x] \<and>
     decoded (attr_decode_as sample_extern 0 KError) x = Some (OutError (420, []))"
  using attr_table_roundtrip [of ERROR_CODE KError "InError (420, [])" 0 binding_request "[]" sample_extern]
  by (simp add: ATTR_TABLE_def IMPL_ATTRS_def error_code_ok_def pad4_def holds_attrs_empty sample_length_fields
      del: split_paired_Ex error_code_enc.simps) blast

text \<open>
  C34. Signing and verifying agree: a MESSAGE-INTEGRITY appended with a key decodes to a value that verifies with
  this key, over the bytes of the message up to the attribute with the length field adjusted; with another key it
  verifies only if HMAC-SHA1 gives the same code.
\<close>

theorem integrity_sign_verify:
  assumes "holds_attrs b xs" and "unat (length_of b) + 24 < 65536" and "44 + unat (length_of b) \<le> length b"
  shows "\<exists>c x i. append_u MESSAGE_INTEGRITY (integrity_enc E key) b = ok c \<and> attrs c = ok (xs @ [x]) \<and>
    decoded (integrity_decode 20) x = Some i \<and> verify E i key \<and>
    (\<forall>key'. verify E i key' \<longrightarrow>
       hmac_sha1 E key' (reduce_over_prefix (mac_prefix i)) = hmac_sha1 E key (reduce_over_prefix (mac_prefix i)))"
proof -
  have "pad4 20 = 0" by (simp add: pad4_def)
  then obtain c x where "append_u MESSAGE_INTEGRITY (integrity_enc E key) b = ok c" "holds_attrs c (xs @ [x])"
      "decoded (integrity_decode 20) x = Some \<lparr>mac_prefix = fst x, mac = mac_of E key (fst x)\<rparr>"
    using integrity.append_u_step [OF assms(1), of MESSAGE_INTEGRITY E key] assms(2,3) by auto
  then show ?thesis
    using attrs_holds [of c "xs @ [x]"]
    by (intro exI [of _ c] exI [of _ x] exI [of _ "\<lparr>mac_prefix = fst x, mac = mac_of E key (fst x)\<rparr>"])
      (simp add: verify_def mac_of_def to_be_bytes_inject)
qed

theorem integrity_sign_verify_witness:
  "\<exists>c x i. append_u MESSAGE_INTEGRITY (integrity_enc sample_extern hello) binding_request = ok c \<and> attrs c = ok [x] \<and>
     decoded (integrity_decode 20) x = Some i \<and> verify sample_extern i hello"
  using integrity_sign_verify [of binding_request "[]" sample_extern hello]
  by (simp add: holds_attrs_empty sample_length_fields del: split_paired_Ex) blast

section \<open>Parsing\<close>

text \<open>
  C36. One stage of a parser chain: it decodes the first attribute of its type provided no attribute
  that it must precede came earlier, it removes every attribute of its type, and it passes all others on in order.
\<close>

theorem parse_stage:
  assumes "dec_total dec" and "attrs b = ok items"
  shows "parse T mp dec items =
    ok (Option.bind (find (\<lambda>x. item_typ x = T) (takeWhile (\<lambda>x. item_typ x = T \<or> \<not> mp (item_typ x)) items))
          (decoded dec),
        filter (\<lambda>x. item_typ x \<noteq> T) items)"
proof -
  have "\<forall>x \<in> set items. prefix_ok (fst x)"
    using attrs_items [of b] assms(2) by (auto simp: item_ok_def)
  from parse_found [OF assms(1) this] show ?thesis by (simp add: found_def candidate_def hide_def)
qed

theorem parse_stage_witness:
  "parse DATA must_precede_default (slice_decode :: (unit, bytes_ref) attr_decode)
     [item_at send_indication 0, item_at send_indication 24] = ok (Some (48, hello), [item_at send_indication 0])"
proof -
  have "dec_total (slice_decode :: (unit, bytes_ref) attr_decode)" by (rule plain_decoders_total)
  from parse_stage [OF this send_attrs, where T = DATA and mp = must_precede_default] show ?thesis
    by (simp add: send_typs send_values stage_simps)
qed

text \<open>
  C37. \<open>collect_unknown\<close> reports the first \<open>N\<close> distinct comprehension-required types of what is
  left, in message order, padded with zeros, and \<open>None\<close> when there is none; type 0 counts as none.
\<close>

theorem collect_unknown_reports:
  fixes items :: "item list"
  defines "ts \<equiv> first_seen (filter (\<lambda>t. t < 0x8000 \<and> t \<noteq> 0) (map item_typ items))"
  shows "collect_unknown N items =
    (if ts = [] \<or> N = 0 then None else Some (take N ts @ replicate (N - length ts) 0))"
proof -
  have proj: "(\<lambda>(_, typ, _). typ) = item_typ" by (auto simp: item_typ_def)
  have "filter (\<lambda>t. t \<noteq> 0) (filter comprehension_required (map item_typ items)) =
      filter (\<lambda>t. t < 0x8000 \<and> t \<noteq> 0) (map item_typ items)"
    by (simp add: comprehension_required_def conj_commute)
  then have "unknown_types items = ts"
    by (simp only: unknown_types_def collect_unknown_all_def proj ts_def)
  then show ?thesis by (auto simp: collect_unknown_eq)
qed

text \<open>
  C40. The must-precede rule does not reach past the MESSAGE-INTEGRITY stage. Let \<open>x\<close> be any attribute that comes after a MESSAGE-INTEGRITY, and so is not covered by it,
  anywhere in a message, as the first of its type and with no MESSAGE-INTEGRITY-SHA256 or FINGERPRINT before it. If its type belongs to a stage after the MESSAGE-INTEGRITY stage, that is NONCE,
  LIFETIME, REQUESTED-TRANSPORT, CHANNEL-NUMBER, XOR-PEER-ADDRESS or DATA, \<open>parse_turn_attrs\<close> takes its value all the same, and
  the first MESSAGE-INTEGRITY counts too. Only for USERNAME and REALM, whose stages come before, is such an attribute ignored.
\<close>

theorem late_attribute_accepted:
  assumes "attrs msg = ok (xs @ mi # ys @ x # zs)" and "item_typ mi = MESSAGE_INTEGRITY"
    and "\<forall>y \<in> set (xs @ ys). item_typ y \<notin> {item_typ x, MESSAGE_INTEGRITY_SHA256, FINGERPRINT}"
  shows "\<exists>a. parse_turn_attrs msg = ok a \<and>
    (item_typ x = NONCE \<longrightarrow> ta_nonce a = decoded str_decode x) \<and>
    (item_typ x = LIFETIME \<longrightarrow> ta_lifetime a = decoded numeric_decode x) \<and>
    (item_typ x = REQUESTED_TRANSPORT \<longrightarrow> ta_requested_transport a = decoded byte_decode x) \<and>
    (item_typ x = CHANNEL_NUMBER \<longrightarrow> ta_channel a = decoded channel_decode x) \<and>
    (item_typ x = XOR_PEER_ADDRESS \<longrightarrow> ta_xor_peer a = decoded (sockaddr_decode True) x) \<and>
    (item_typ x = DATA \<longrightarrow> ta_data a = decoded (slice_decode :: (unit, bytes_ref) attr_decode) x) \<and>
    ((\<forall>y \<in> set xs. item_typ y \<noteq> MESSAGE_INTEGRITY) \<longrightarrow> ta_integrity a = decoded (integrity_decode 20) mi) \<and>
    (item_typ x = USERNAME \<longrightarrow> ta_username a = None) \<and> (item_typ x = REALM \<longrightarrow> ta_realm a = None)"
proof -
  have later: "found T late dec (xs @ mi # ys @ x # zs) = decoded dec x" if "item_typ x = T" "T \<noteq> MESSAGE_INTEGRITY"
    for T and dec :: "('e, 'a) attr_decode"
    using found_first [of x T "xs @ mi # ys" late dec zs] that assms(2,3) by (auto simp: late_def attr_typ_defs)
  have integrity: "found MESSAGE_INTEGRITY must_precede_integrity (integrity_decode 20) (xs @ mi # ys @ x # zs) = decoded (integrity_decode 20) mi"
    if "\<forall>y \<in> set xs. item_typ y \<noteq> MESSAGE_INTEGRITY"
    using that assms(2,3) by (intro found_first) (auto simp: stage_simps)
  have earlier: "found T must_precede_default str_decode (xs @ mi # ys @ x # zs) = None"
    if "item_typ x = T" "T \<noteq> MESSAGE_INTEGRITY" for T
    using that assms(2,3) by (intro found_blocked) (auto simp: must_precede_default_def)
  have distinct: "T \<noteq> MESSAGE_INTEGRITY"
    if "T \<in> {NONCE, LIFETIME, REQUESTED_TRANSPORT, CHANNEL_NUMBER, XOR_PEER_ADDRESS, DATA, USERNAME, REALM}" for T
    using that by (auto simp: attr_typ_defs)
  show ?thesis
    unfolding parse_turn_attrs_eq [OF assms(1)]
    by (intro exI [of _ "turn_attrs_of (xs @ mi # ys @ x # zs)"]) (simp add: turn_attrs_of_def later earlier integrity distinct)
qed

theorem late_attribute_accepted_witness:
  "\<exists>a. parse_turn_attrs late_request = ok a \<and>
    ta_xor_peer a = Some (SocketAddr (IpV6 0xFE800000000000000000000000000001) 0x9234) \<and>
    ta_integrity a = decoded (integrity_decode 20) (item_at late_request 0)"
  using late_attribute_accepted [of late_request "[]" "item_at late_request 0" "[]" "item_at late_request 24" "[]"]
  by (auto simp: late_attrs late_items)

section \<open>The Internet checksum\<close>

text \<open>
  C38. \<open>ip_checksum\<close> is the complement of the one's complement sum of the data's 16-bit words, for up to
  131072 bytes: the 32-bit accumulator does not overflow, and the folding loop ends.
\<close>

theorem ip_checksum_correct:
  assumes "length (concat slices) \<le> 131072"
  shows "\<exists>c. ip_checksum slices = ok c \<and> unat c = 65535 - ones_norm (sum16 (concat slices))"
  using assms by (rule ip_checksum_sum16)

theorem ip_checksum_correct_witness:
  "\<exists>c. ip_checksum [[1, 2, 3]] = ok c \<and> unat c = 65535 - (258 + 768)"
  using ip_checksum_correct [of "[[1, 2, 3]]"] by (simp add: ones_norm_def)

text \<open>
  C39. \<open>udp_checksum_fill\<close> gives a datagram whose checksum verifies (the sum over pseudo header, header and data
  comes out as zero) and is never zero, the value that means "no checksum".
\<close>

theorem udp_checksum_verifies:
  assumes "length data \<le> 65535"
  shows "\<exists>u. udp_checksum_fill ip udp data = ok u \<and> checksum u \<noteq> 0 \<and>
    u = udp\<lparr>checksum := checksum u\<rparr> \<and>
    ip_checksum [to_be_bytes (src ip), to_be_bytes (dst ip), [0, next_header ip],
      to_be_bytes (payload_length ip), udp_as_bytes u, data] = ok 0"
proof -
  have "length data \<le> 131028" using assms by simp
  then obtain c where "udp_checksum_fill ip udp data = ok (udp\<lparr>checksum := c\<rparr>)" "c \<noteq> 0"
      "udp_checksum_valid ip (udp\<lparr>checksum := c\<rparr>) data"
    by (rule udp_checksum_fill_ok)
  then show ?thesis by (simp add: udp_checksum_valid_def udp_sum_def)
qed

theorem udp_checksum_verifies_witness:
  "\<exists>u. udp_checksum_fill (sample_ip IP_PROTO_UDP 13 1 2) (sample_udp 13) hello = ok u \<and> checksum u \<noteq> 0"
  using udp_checksum_verifies [of hello "sample_ip IP_PROTO_UDP 13 1 2" "sample_udp 13"]
  by (auto simp: hello_def)

end
