(* ===== verification/Turn_Properties.thy ===== *)
theory Turn_Properties
  imports Samples
begin

text \<open>
  The properties of the TURN server and of its data path, over \<open>handle_turn\<close> and \<open>handle_net\<close>.
\<close>

section \<open>The handler refines the policy\<close>

text \<open>
  C1. For every message in a buffer of at least 100 bytes, \<open>handle_turn\<close> returns, and does what the policy
  \<open>turn_spec\<close> says for the message's class, method and attributes: it drops a message with an all-zero transaction id;
  otherwise it ignores, or answers with a response in which exactly the attributes of the policy
  appear (\<open>is_reply\<close>), or hands the message to the relay.
\<close>

theorem handle_turn_refines_policy:
  assumes "100 \<le> length msg"
  shows "\<exists>items. attrs msg = ok items \<and>
    (let a = turn_attrs_of items; h = handle_turn E canonical relayed msg in
     if txid_of msg = replicate 12 0 then h = ok (None, [])
     else case turn_spec E canonical relayed a (class_of msg) (method_of msg) of
       Ignore \<Rightarrow> h = ok (None, [])
     | Respond cls vs \<Rightarrow> \<exists>r. h = ok (Some r, []) \<and> is_reply E (turn_key E a) msg cls vs r
     | Relay \<Rightarrow> \<exists>sent. h = ok (None, sent) \<and>
         turn_send E relayed (ta_xor_peer a) (ta_data a) msg = ok sent)"
proof -
  obtain items where items: "attrs msg = ok items" using attrs_items [of msg] by blast
  have "20 \<le> length msg" using assms by simp
  note eq = handle_turn_eq [OF this items refl, of E canonical relayed]
  show ?thesis
    using items eq turn_send_total [OF items refl, of E relayed] respond_policy [OF _ assms]
    by (auto simp: Let_def split: turn_action.split)
qed

theorem handle_turn_refines_policy_witness:
  "\<exists>r. handle_turn sample_extern sample_canonical sample_relayed binding_request = ok (Some r, []) \<and>
     is_reply sample_extern (replicate 16 0) binding_request Success [XorMapped sample_canonical] r"
  using handle_turn_refines_policy [of binding_request sample_extern sample_canonical sample_relayed]
  by (simp add: binding_request_attrs sample_class_method sample_txids sample_txid_nonzero turn_spec_def Let_def
      turn_key_def turn_attrs_of_def found_def candidate_def)

text \<open>
  C3. A non-Binding request gets a success response only if its USERNAME and REALM (found before
  MESSAGE-INTEGRITY) and its MESSAGE-INTEGRITY decode and the integrity verifies with the long-term key
  MD5(username ":" realm ":password").
\<close>

theorem success_needs_integrity:
  assumes "100 \<le> length msg" and "handle_turn E canonical relayed msg = ok (Some r, sent)"
    and "class_of r = Success" and "method_of msg \<noteq> Binding" and "attrs msg = ok items"
  shows "\<exists>username realm i.
    found USERNAME must_precede_default str_decode items = Some username \<and>
    found REALM must_precede_default str_decode items = Some realm \<and>
    found MESSAGE_INTEGRITY must_precede_integrity (integrity_decode 20) items = Some i \<and>
    verify E i (to_be_bytes (md5 E (username @ str_lit '':'' @ realm @ str_lit '':password'')))"
proof -
  let ?a = "turn_attrs_of items"
  obtain cls vs where "turn_spec E canonical relayed ?a (class_of msg) (method_of msg) = Respond cls vs"
      "is_reply E (turn_key E ?a) msg cls vs r"
    by (rule handle_turn_answer [OF assms(1,2)]) (use assms(5) in simp)
  then have "turn_spec E canonical relayed ?a (class_of msg) (method_of msg) = Respond Success vs"
    using assms(3) by (simp add: is_reply_def)
  then have "\<exists>username realm i. ta_username ?a = Some username \<and> ta_realm ?a = Some realm \<and>
      ta_integrity ?a = Some i \<and> verify E i (turn_key E ?a)"
    using assms(4) by (auto simp: turn_spec_def auth_policy_def split: class_splits if_splits option.splits)
  then show ?thesis by (auto simp: turn_key_def) (auto simp: turn_attrs_of_def)
qed

theorem success_needs_integrity_witness:
  "\<exists>r username realm i.
    handle_turn sample_extern sample_canonical sample_relayed allocate_request = ok (Some r, []) \<and>
    class_of r = Success \<and> method_of allocate_request \<noteq> Binding \<and>
    found USERNAME must_precede_default str_decode allocate_items_list = Some username \<and>
    found REALM must_precede_default str_decode allocate_items_list = Some realm \<and>
    found MESSAGE_INTEGRITY must_precede_integrity (integrity_decode 20) allocate_items_list = Some i \<and>
    verify sample_extern i
      (to_be_bytes (md5 sample_extern (username @ str_lit '':'' @ realm @ str_lit '':password'')))"
proof -
  obtain r where r: "handle_turn sample_extern sample_canonical sample_relayed allocate_request = ok (Some r, [])"
      "class_of r = Success"
    using allocate_run by (auto simp: is_reply_def)
  then show ?thesis
    using success_needs_integrity [OF _ r, of allocate_items_list] allocate_attrs
    by (simp add: sample_class_method allocate_items_list_def)
qed

text \<open>
  C16. Only requests are answered, with well-formed messages. When \<open>handle_turn\<close> returns a message for a message that decodes, that was a
  request with a transaction id that is not all zeros, and nothing was sent to the network: responses are never answered, so two servers
  cannot reflect messages between each other. The response decodes, its length field is within the buffer, and it has
  the method, the cookie and the transaction id of the request.
\<close>

theorem response_well_formed:
  assumes "100 \<le> length msg" and "len \<le> length msg" and "decode msg len = ok (Inr ())"
    and "handle_turn E canonical relayed msg = ok (Some r, sent)"
  shows "class_of msg = Request \<and> class_of r \<in> {Success, Error} \<and> txid_of msg \<noteq> replicate 12 0 \<and> sent = [] \<and>
    decode r (length r) = ok (Inr ()) \<and> length r = length msg \<and>
    get_method r = get_method msg \<and> get_cookie r = get_cookie msg \<and> get_txid r = get_txid msg \<and>
    (\<exists>n. stun_len r = ok n \<and> n \<le> length r)"
proof -
  obtain items cls vs where r: "is_reply E (turn_key E (turn_attrs_of items)) msg cls vs r"
      "turn_spec E canonical relayed (turn_attrs_of items) (class_of msg) (method_of msg) = Respond cls vs"
      "txid_of msg \<noteq> replicate 12 0" "sent = []"
    using assms(1,4) by (rule handle_turn_answer)
  moreover have "class_of msg = Request \<and> cls \<in> {Success, Error}" using r(2) by (rule turn_spec_request)
  moreover have "decode r (length r) = ok (Inr ())"
    using r(1) assms(1-3) by (intro is_reply_decodes) simp_all
  ultimately show ?thesis
    using assms(1) by (auto simp: is_reply_def method_of_def stun_len_def)
qed

theorem response_well_formed_witness:
  "\<exists>r. handle_turn sample_extern sample_canonical sample_relayed allocate_request = ok (Some r, []) \<and>
    decode allocate_request 68 = ok (Inr ()) \<and> decode r (length r) = ok (Inr ())"
proof -
  have "decode allocate_request 68 = ok (Inr ())"
    by (simp add: decode_Inr sample_types sample_length_fields sample_cookies MAGIC_COOKIE_def)
  then show ?thesis
    using allocate_run response_well_formed [of allocate_request 68 sample_extern sample_canonical sample_relayed _ "[]"]
    by force
qed

text \<open>
  C19. An authenticated Allocate request for UDP (transport 17) without unknown attributes is answered
  with a success response of exactly four attributes: XOR-MAPPED-ADDRESS is the client's address, XOR-RELAYED-ADDRESS
  is the relayed address, LIFETIME is the requested one or 1000, and MESSAGE-INTEGRITY verifies under
  the client's key.
\<close>

theorem allocate_success:
  assumes "100 \<le> length msg" and "txid_of msg \<noteq> replicate 12 0" and "attrs msg = ok items"
    and "class_of msg = Request" and "method_of msg = Allocate"
    and a: "a = turn_attrs_of items" "ta_unknown a = None" "ta_username a \<noteq> None" "ta_realm a \<noteq> None"
      "ta_integrity a = Some i" "verify E i (turn_key E a)" "ta_requested_transport a = Some 17"
  shows "\<exists>r m x l h mi. handle_turn E canonical relayed msg = ok (Some r, []) \<and>
    class_of r = Success \<and> txid_of r = txid_of msg \<and> attrs r = ok [m, x, l, h] \<and>
    item_typ m = XOR_MAPPED_ADDRESS \<and> decoded (sockaddr_decode True) m = Some canonical \<and>
    item_typ x = XOR_RELAYED_ADDRESS \<and> decoded (sockaddr_decode True) x = Some (sa_of_v6 relayed) \<and>
    item_typ l = LIFETIME \<and>
    decoded numeric_decode l = Some (case ta_lifetime a of None \<Rightarrow> 1000 | Some t \<Rightarrow> t) \<and>
    item_typ h = MESSAGE_INTEGRITY \<and> decoded (integrity_decode 20) h = Some mi \<and>
    verify E mi (turn_key E a)"
proof -
  let ?vs = "[XorMapped canonical, XorRelayed (sa_of_v6 relayed), Lifetime (lifetime_of a), MessageIntegrity]"
  have "turn_spec E canonical relayed (turn_attrs_of items) Request Allocate = Respond Success ?vs"
    using a by (auto simp: turn_spec_def auth_policy_def)
  then obtain r where "respond E (turn_key E a) Success ?vs msg = ok (Some r, [])"
      and r: "is_reply E (turn_key E a) msg Success ?vs r"
    using respond_policy [OF _ assms(1)] a(1) by blast
  moreover have "handle_turn E canonical relayed msg = respond E (turn_key E a) Success ?vs msg"
    using assms \<open>turn_spec _ _ _ _ _ _ = _\<close> handle_turn_eq [OF _ assms(3) a(1), of E canonical relayed] by simp
  moreover from r obtain items' where "attrs r = ok items'" "list_all2 (shows_value E (turn_key E a)) ?vs items'"
    by (auto simp: is_reply_def split: option.splits)
  ultimately show ?thesis
    using r by (auto simp: is_reply_def list_all2_Cons1 lifetime_of_def split: option.splits)
qed

theorem allocate_success_witness:
  "\<exists>r m x l h mi. handle_turn sample_extern sample_canonical sample_relayed allocate_request = ok (Some r, []) \<and>
    attrs r = ok [m, x, l, h] \<and> decoded (sockaddr_decode True) m = Some sample_canonical \<and>
    decoded (sockaddr_decode True) x = Some (sa_of_v6 sample_relayed) \<and>
    decoded numeric_decode l = Some (1000 :: u32) \<and> decoded (integrity_decode 20) h = Some mi"
proof -
  let ?a = "turn_attrs_of allocate_items_list"
  have a: "ta_unknown ?a = None" "ta_username ?a \<noteq> None" "ta_realm ?a \<noteq> None"
      "ta_integrity ?a = Some \<lparr>mac_prefix = prefix_at allocate_request 24 48, mac = replicate 20 0\<rparr>"
      "ta_requested_transport ?a = Some 17" "ta_lifetime ?a = None"
    by (simp_all add: allocate_items_list_def allocate_turn_attrs)
  have "attrs allocate_request = ok allocate_items_list"
    by (simp add: allocate_items_list_def allocate_attrs)
  from allocate_success [OF _ _ this _ _ refl a(1-4) allocate_verifies a(5), of sample_canonical sample_relayed]
  show ?thesis
    by (simp add: sample_class_method sample_txids sample_txid_nonzero a(6)) blast
qed

section \<open>The data path\<close>

text \<open>
  C20. A Send indication with an IPv6 peer address and data, in a buffer that can hold the packet, emits
  exactly one packet: a well-formed IPv6/UDP packet from the relayed address to the peer, with
  the client's data as payload and a checksum that verifies. No response is sent.
\<close>

theorem send_indication_relayed:
  assumes "bitfield_ok E" and "20 \<le> length msg" and "txid_of msg \<noteq> replicate 12 0" and "attrs msg = ok items"
    and "class_of msg = Indication" and "method_of msg = Send"
    and "a = turn_attrs_of items" and "ta_unknown a = None"
    and "ta_xor_peer a = Some (SocketAddr (IpV6 peer) port)" and "ta_data a = Some (ptr, d)"
    and "48 + length d \<le> length msg"
  shows "\<exists>packet. handle_turn E canonical relayed msg = ok (None, [packet]) \<and>
    is_udp_packet E relayed (v6_addr peer port) d packet"
  using assms by (rule handle_turn_send) blast

theorem send_indication_relayed_witness:
  "\<exists>packet. handle_turn sample_extern sample_canonical sample_relayed send_indication = ok (None, [packet]) \<and>
    is_udp_packet sample_extern sample_relayed (v6_addr 0xFE800000000000000000000000000001 0x9234) hello packet"
  by (rule send_indication_relayed [OF sample_bitfield _ _ send_attrs _ _ refl])
    (simp_all add: send_turn_attrs sample_class_method sample_txids sample_txid_nonzero hello_def)

text \<open>
  C21. A UDP packet from the TUN interface, read into a buffer whose size is a multiple of four, becomes a
  Data indication for the packet's receiver: it decodes, it has the chosen transaction id,
  and its two attributes are XOR-PEER-ADDRESS, the packet's sender, and DATA, the payload.
\<close>

theorem packet_becomes_data_indication:
  assumes "carries_udp E sender receiver data packet" and "length data \<le> 65504"
    and "4 dvd length (packet @ slack)" and "length txid = 12"
  shows "\<exists>msg x y. handle_net E txid (length packet) (packet @ slack) = ok (Some (receiver, msg)) \<and>
    is_data_indication txid msg \<and> attrs msg = ok [x, y] \<and>
    item_typ x = XOR_PEER_ADDRESS \<and> decoded (sockaddr_decode True) x = Some (sa_of_v6 sender) \<and>
    item_typ y = DATA \<and> item_bytes y = data"
  using assms by (rule handle_net_packet) blast

theorem packet_becomes_data_indication_witness:
  "\<exists>packet msg x y. carries_udp sample_extern sample_relayed (v6_addr 0xFE800000000000000000000000000001 0x9234) hello packet \<and>
    handle_net sample_extern sample_txid (length packet) (packet @ [0, 0, 0]) =
      ok (Some (v6_addr 0xFE800000000000000000000000000001 0x9234, msg)) \<and>
    attrs msg = ok [x, y] \<and> item_bytes y = hello"
proof -
  obtain packet where p: "carries_udp sample_extern sample_relayed
      (v6_addr 0xFE800000000000000000000000000001 0x9234) hello packet"
    by (rule send_run) (blast dest: is_udp_packet_carries)
  then have "length packet = 53"
    by (rule udp_packet_parts) (simp add: ip6.length_as_bytes udp.length_as_bytes hello_def)
  then show ?thesis
    using p packet_becomes_data_indication [OF p, of "[0, 0, 0]" sample_txid]
    by (auto simp: hello_def sample_txid_def simp del: split_paired_Ex)
qed

text \<open>
  C22. An ICMPv6 error (type 1 to 3) about a UDP packet that the relay sent becomes a Data
  indication for the client that sent it: XOR-PEER-ADDRESS is the peer that was not reached, and the ICMP attribute
  carries type, code and argument.
\<close>

theorem icmp_becomes_data_indication:
  assumes "buffer = ip6_as_bytes ip @ icmp6_as_bytes icmp @ ip6_as_bytes inner @ udp_as_bytes udp @ r"
    and "version E (flags ip) = 6" and "next_header ip = IP_PROTO_ICMP6" and "56 \<le> unat (payload_length ip)"
    and "icmp_typ icmp \<in> {1, 2, 3}" and "next_header inner = IP_PROTO_UDP"
    and "8 \<le> unat (payload_length inner)" and "udp_length udp = payload_length inner"
    and "dst ip = src inner" and "length txid = 12"
  shows "\<exists>msg x y. handle_net E txid (ip6_len ip) buffer = ok (Some (v6_addr (src inner) (src_port udp), msg)) \<and>
    is_data_indication txid msg \<and> attrs msg = ok [x, y] \<and> item_typ x = XOR_PEER_ADDRESS \<and>
    decoded (sockaddr_decode True) x = Some (sa_of_v6 (v6_addr (dst inner) (dst_port udp))) \<and>
    item_typ y = ICMP \<and> item_bytes y =
      [icmp_typ icmp, icmp_code icmp, icmp_typ icmp, icmp_code icmp] @ to_be_bytes (icmp_arg icmp)"
proof -
  let ?rest = "icmp6_as_bytes icmp @ ip6_as_bytes inner @ udp_as_bytes udp @ r"
  have "56 \<le> length buffer"
    by (simp add: assms(1) ip6.length_as_bytes icmp6.length_as_bytes udp.length_as_bytes)
  then obtain msg x y where
    "net_icmp txid ip ?rest buffer = ok (Some (v6_addr (src inner) (src_port udp), msg))"
    "is_data_indication txid msg" "attrs msg = ok [x, y]" "item_typ x = XOR_PEER_ADDRESS"
    "decoded (sockaddr_decode True) x = Some (sa_of_v6 (v6_addr (dst inner) (dst_port udp)))"
    "item_typ y = ICMP"
    "item_bytes y = [icmp_typ icmp, icmp_code icmp, icmp_typ icmp, icmp_code icmp] @ to_be_bytes (icmp_arg icmp)"
    using assms(10) by (rule net_icmp_ok [OF refl assms(4-9)])
  moreover have "IP_PROTO_ICMP6 \<noteq> IP_PROTO_UDP" by (simp add: IP_PROTO_ICMP6_def IP_PROTO_UDP_def)
  ultimately show ?thesis
    using assms(2,3)
    by (intro exI [of _ msg] exI [of _ x] exI [of _ y]) (simp add: handle_net_def assms(1) ip6.from_prefix_append)
qed

theorem icmp_becomes_data_indication_witness:
  "\<exists>msg. handle_net sample_extern sample_txid 96
    (ip6_as_bytes (sample_ip IP_PROTO_ICMP6 56 1 2) @ icmp6_as_bytes sample_icmp @
     ip6_as_bytes (sample_ip IP_PROTO_UDP 8 2 3) @ udp_as_bytes (sample_udp 8) @ []) = ok (Some (v6_addr 2 1000, msg)) \<and>
    is_data_indication sample_txid msg"
  using icmp_becomes_data_indication [of _ "sample_ip IP_PROTO_ICMP6 56 1 2" sample_icmp
      "sample_ip IP_PROTO_UDP 8 2 3" "sample_udp 8" "[]" sample_extern sample_txid, OF refl]
    flags_emitted [OF sample_bitfield]
  by (simp add: sample_ip_def sample_udp_def sample_icmp_def sample_txid_def ip6_len_def del: split_paired_Ex) blast

end
