(* ===== verification/Ice_Dissolve.thy ===== *)
theory Ice_Dissolve
  imports Turn_Server
begin

text \<open>
  \<^verbatim>\<open>src/bin/ice-dissolve.rs\<close>: a responder that sits behind a TUN interface and returns every packet
  to the network, after turning ICE connectivity checks for the user fragment \<^verbatim>\<open>dissolve\<close> into the
  answer to them. \<open>intercept\<close> is the labelled block of the loop: \<open>None\<close> when the block is left by a
  \<^verbatim>\<open>break\<close>, which happens before anything is written; \<open>ice_step\<close> is one turn of the loop, from the bytes
  received to the bytes sent.
\<close>

section \<open>The program\<close>

record ice_attrs =
  ia_username :: "str option"
  ia_integrity :: "integrity option"
  ia_ice_controlled :: "u64 option"
  ia_ice_controlling :: "u64 option"
  ia_priority :: "u32 option"
  ia_use_candidate :: "unit option"
  ia_fingerprint :: "unit option"
  ia_unknowns :: "u16 list option"

definition parse_ice_attrs :: "('x) extern_scheme \<Rightarrow> stun \<Rightarrow> ice_attrs run" where
  "parse_ice_attrs E inner = do {
     items \<leftarrow> attrs inner;
     (username, items) \<leftarrow> parse USERNAME must_precede_default str_decode items;
     (integrity, items) \<leftarrow> parse MESSAGE_INTEGRITY must_precede_integrity (integrity_decode 20) items;
     (controlled, items) \<leftarrow> parse ICE_CONTROLLED must_precede_default numeric_decode items;
     (controlling, items) \<leftarrow> parse ICE_CONTROLLING must_precede_default numeric_decode items;
     (priority, items) \<leftarrow> parse PRIORITY must_precede_default numeric_decode items;
     (candidate, items) \<leftarrow> parse USE_CANDIDATE must_precede_default (empty_decode :: (unit, unit) attr_decode) items;
     (fingerprint, items) \<leftarrow> parse FINGERPRINT must_precede_fingerprint (fingerprint_decode E) items;
     ok \<lparr>ia_username = username, ia_integrity = integrity, ia_ice_controlled = controlled,
         ia_ice_controlling = controlling, ia_priority = priority, ia_use_candidate = candidate,
         ia_fingerprint = fingerprint, ia_unknowns = collect_unknown 1 items\<rparr>
   }"

text \<open>\<^verbatim>\<open>Option::xor\<close> and \<^verbatim>\<open>str::split_once(':')\<close>; the separator is one byte.\<close>

fun option_xor :: "'a option \<Rightarrow> 'a option \<Rightarrow> 'a option" where
  "option_xor (Some a) None = Some a"
| "option_xor None (Some b) = Some b"
| "option_xor _ _ = None"

fun split_once :: "byte \<Rightarrow> str \<Rightarrow> (str \<times> str) option" where
  "split_once c [] = None"
| "split_once c (b # bs) =
     (if b = c then Some ([], bs) else map_option (\<lambda>(l, r). (b # l, r)) (split_once c bs))"

definition ice_key :: "byte list" where
  "ice_key = str_lit ''the/ice/password/constant''"

text \<open>The three responses; the arguments are what the chain of conditions tests.\<close>

definition ice_reply :: "('x) extern_scheme \<Rightarrow> socket_addr \<Rightarrow> integrity \<Rightarrow> bool \<Rightarrow> stun \<Rightarrow> stun run" where
  "ice_reply E sender integrity controlled inner =
    (if \<not> verify E integrity ice_key then do {
       inner \<leftarrow> start_reply Error inner;
       inner \<leftarrow> append_u ERROR_CODE (error_code_enc (441, [])) inner;
       append_u FINGERPRINT (fingerprint_enc E ()) inner }
     else if controlled then do {
       inner \<leftarrow> start_reply Error inner;
       inner \<leftarrow> append_u ERROR_CODE (error_code_enc (487, [])) inner;
       inner \<leftarrow> append_u MESSAGE_INTEGRITY (integrity_enc E ice_key) inner;
       append_u FINGERPRINT (fingerprint_enc E ()) inner }
     else do {
       inner \<leftarrow> start_reply Success inner;
       inner \<leftarrow> append_u XOR_MAPPED_ADDRESS (sockaddr_enc True sender) inner;
       inner \<leftarrow> append_u MESSAGE_INTEGRITY (integrity_enc E ice_key) inner;
       append_u FINGERPRINT (fingerprint_enc E ()) inner })"

text \<open>Sending the response back: swap the addresses, set the lengths, fill the checksum.\<close>

definition ice_return :: "ip6_header \<Rightarrow> udp_header \<Rightarrow> stun \<Rightarrow> (buf \<times> nat) run" where
  "ice_return ip udp inner = do {
     let ip = ip\<lparr>src := dst ip, dst := src ip\<rparr>;
     let udp = udp\<lparr>src_port := dst_port udp, dst_port := src_port udp\<rparr>;
     n \<leftarrow> get_length inner;
     base \<leftarrow> add_ck 8 20;
     udp_len \<leftarrow> checked_add base n;
     let udp = udp\<lparr>udp_length := udp_len\<rparr>;
     let ip = ip\<lparr>payload_length := udp_length udp\<rparr>;
     len \<leftarrow> stun_len inner;
     data \<leftarrow> slice inner 0 len;
     udp \<leftarrow> udp_checksum_fill ip udp data;
     ok (ip6_as_bytes ip @ udp_as_bytes udp @ inner, ip6_len ip) }"

definition ice_request :: "('x) extern_scheme \<Rightarrow> ip6_header \<Rightarrow> udp_header \<Rightarrow> stun \<Rightarrow> (buf \<times> nat) option run" where
  "ice_request E ip udp inner = do {
     a \<leftarrow> parse_ice_attrs E inner;
     case (ia_unknowns a, ia_username a, ia_integrity a,
           option_xor (ia_ice_controlled a) (ia_ice_controlling a), ia_priority a, ia_fingerprint a) of
       (None, Some username, Some integrity, Some _, Some _, Some _) \<Rightarrow>
         (case split_once 0x3A username of
            None \<Rightarrow> ok None
          | Some (dst_ufrag, _) \<Rightarrow>
              if dst_ufrag \<noteq> str_lit ''dissolve'' then ok None else do {
              inner \<leftarrow> ice_reply E (SocketAddr (IpV6 (src ip)) (src_port udp)) integrity
                (ia_ice_controlled a \<noteq> None) inner;
              r \<leftarrow> ice_return ip udp inner;
              ok (Some r) })
     | _ \<Rightarrow> ok None }"

definition intercept :: "('x) extern_scheme \<Rightarrow> nat \<Rightarrow> buf \<Rightarrow> (buf \<times> nat) option run" where
  "intercept E len buffer =
    (case from_prefix 40 ip6_of_bytes buffer of None \<Rightarrow> ok None | Some (ip, rest) \<Rightarrow>
     if version E (flags ip) \<noteq> 6 then ok None
     else if ip6_len ip \<noteq> len then ok None
     else if next_header ip \<noteq> IP_PROTO_UDP then ok None
     else if unat (payload_length ip) < 8 then ok None
     else case from_prefix 8 udp_of_bytes rest of None \<Rightarrow> ok None | Some (udp, rest) \<Rightarrow>
     if udp_length udp \<noteq> payload_length ip then ok None
     else do {
       let data_len = unat (udp_length udp) - 8;
       if rest = [] \<or> \<not> hd rest < 3 then ok None else do {
       d \<leftarrow> decode rest data_len;
       case d of Inl _ \<Rightarrow> ok None | Inr _ \<Rightarrow> do {
       c \<leftarrow> get_class rest;
       m \<leftarrow> get_method rest;
       if c \<noteq> Request \<or> m \<noteq> Binding then ok None
       else ice_request E ip udp rest }}})"

definition ice_step :: "('x) extern_scheme \<Rightarrow> nat \<Rightarrow> buf \<Rightarrow> buf run" where
  "ice_step E len buffer = do {
     r \<leftarrow> intercept E len buffer;
     case r of None \<Rightarrow> slice buffer 0 len | Some (buffer', len') \<Rightarrow> slice buffer' 0 len' }"

text \<open>
  The loop, over the results of \<^verbatim>\<open>recv\<close>: the bytes received and the buffer after the call, or an error, after which the
  loop goes on. Its result are the packets sent. What earlier packets left in the buffer behind the received bytes is arbitrary.
\<close>

fun ice_main :: "('x) extern_scheme \<Rightarrow> (nat \<times> buf) option list \<Rightarrow> buf list run" where
  "ice_main E [] = ok []"
| "ice_main E (None # rs) = ice_main E rs"
| "ice_main E (Some (len, buffer) # rs) = do {
     out \<leftarrow> ice_step E len buffer;
     outs \<leftarrow> ice_main E rs;
     ok (out # outs) }"

section \<open>What is answered\<close>

definition ice_known :: "u16 list" where
  "ice_known = [USERNAME, MESSAGE_INTEGRITY, ICE_CONTROLLED, ICE_CONTROLLING, PRIORITY,
     USE_CANDIDATE, FINGERPRINT]"

definition ice_attrs_of :: "('x) extern_scheme \<Rightarrow> item list \<Rightarrow> ice_attrs" where
  "ice_attrs_of E items = \<lparr>
     ia_username = found USERNAME must_precede_default str_decode items,
     ia_integrity = found MESSAGE_INTEGRITY must_precede_integrity (integrity_decode 20) items,
     ia_ice_controlled = found ICE_CONTROLLED late numeric_decode items,
     ia_ice_controlling = found ICE_CONTROLLING late numeric_decode items,
     ia_priority = found PRIORITY late numeric_decode items,
     ia_use_candidate = found USE_CANDIDATE late (empty_decode :: (unit, unit) attr_decode) items,
     ia_fingerprint = found FINGERPRINT must_precede_fingerprint (fingerprint_decode E) items,
     ia_unknowns = collect_unknown 1 (hides ice_known items)\<rparr>"

lemma parse_ice_attrs_eq:
  assumes "attrs inner = ok items"
  shows "parse_ice_attrs E inner = ok (ice_attrs_of E items)"
proof -
  have ok: "\<forall>x \<in> set items. prefix_ok (fst x)"
    using attrs_items [of inner] assms by (auto simp: item_ok_def)
  note stage = parse_hides [OF ok]
  note simps = stage_simps must_precede_fingerprint_def ice_known_def decoders_total
  have s1: "parse USERNAME must_precede_default str_decode (hides [] items) =
      ok (found USERNAME must_precede_default str_decode items, hides [USERNAME] items)"
    by (rule stage) (auto simp: simps)
  have s2: "parse MESSAGE_INTEGRITY must_precede_integrity (integrity_decode 20) (hides [USERNAME] items) =
      ok (found MESSAGE_INTEGRITY must_precede_integrity (integrity_decode 20) items, hides [USERNAME, MESSAGE_INTEGRITY] items)"
    by (rule stage) (auto simp: simps)
  have s3: "parse ICE_CONTROLLED must_precede_default (numeric_decode :: (try_from_slice_error, u64) attr_decode) (hides [USERNAME, MESSAGE_INTEGRITY] items) =
      ok (found ICE_CONTROLLED late (numeric_decode :: (try_from_slice_error, u64) attr_decode) items, hides [USERNAME, MESSAGE_INTEGRITY, ICE_CONTROLLED] items)"
    by (rule stage) (auto simp: simps)
  have s4: "parse ICE_CONTROLLING must_precede_default (numeric_decode :: (try_from_slice_error, u64) attr_decode) (hides [USERNAME, MESSAGE_INTEGRITY, ICE_CONTROLLED] items) =
      ok (found ICE_CONTROLLING late (numeric_decode :: (try_from_slice_error, u64) attr_decode) items, hides [USERNAME, MESSAGE_INTEGRITY, ICE_CONTROLLED, ICE_CONTROLLING] items)"
    by (rule stage) (auto simp: simps)
  have s5: "parse PRIORITY must_precede_default (numeric_decode :: (try_from_slice_error, u32) attr_decode) (hides [USERNAME, MESSAGE_INTEGRITY, ICE_CONTROLLED, ICE_CONTROLLING] items) =
      ok (found PRIORITY late (numeric_decode :: (try_from_slice_error, u32) attr_decode) items, hides [USERNAME, MESSAGE_INTEGRITY, ICE_CONTROLLED, ICE_CONTROLLING, PRIORITY] items)"
    by (rule stage) (auto simp: simps)
  have s6: "parse USE_CANDIDATE must_precede_default (empty_decode :: (unit, unit) attr_decode) (hides [USERNAME, MESSAGE_INTEGRITY, ICE_CONTROLLED, ICE_CONTROLLING, PRIORITY] items) =
      ok (found USE_CANDIDATE late (empty_decode :: (unit, unit) attr_decode) items, hides [USERNAME, MESSAGE_INTEGRITY, ICE_CONTROLLED, ICE_CONTROLLING, PRIORITY, USE_CANDIDATE] items)"
    by (rule stage) (auto simp: simps)
  have s7: "parse FINGERPRINT must_precede_fingerprint (fingerprint_decode E) (hides [USERNAME, MESSAGE_INTEGRITY, ICE_CONTROLLED, ICE_CONTROLLING, PRIORITY, USE_CANDIDATE] items) =
      ok (found FINGERPRINT must_precede_fingerprint (fingerprint_decode E) items, hides ice_known items)"
    by (rule stage) (auto simp: simps)
  show ?thesis
    using assms s1 s2 s3 s4 s5 s6 s7 by (simp add: parse_ice_attrs_def ice_attrs_of_def hides_Nil)
qed

text \<open>
  The policy: a check is answered only when it has exactly the ICE attributes, one of the two
  roles, and a user name that starts with \<^verbatim>\<open>dissolve:\<close>.
\<close>

definition ice_policy :: "('x) extern_scheme \<Rightarrow> socket_addr \<Rightarrow> ice_attrs \<Rightarrow> (stun_class \<times> attr_value list) option" where
  "ice_policy E sender a = (if ia_unknowns a \<noteq> None then None else do {
     username \<leftarrow> ia_username a;
     integrity \<leftarrow> ia_integrity a;
     _ \<leftarrow> option_xor (ia_ice_controlled a) (ia_ice_controlling a);
     _ \<leftarrow> ia_priority a;
     _ \<leftarrow> ia_fingerprint a;
     (dst_ufrag, _) \<leftarrow> split_once 0x3A username;
     if dst_ufrag \<noteq> str_lit ''dissolve'' then None
     else if \<not> verify E integrity ice_key then Some (Error, [ErrorCode 441, Fingerprint])
     else if ia_ice_controlled a \<noteq> None then Some (Error, [ErrorCode 487, MessageIntegrity, Fingerprint])
     else Some (Success, [XorMapped sender, MessageIntegrity, Fingerprint]) })"

lemma append_all_eta:
  "append_all E key [] = ok"
  "append_all E key (v # vs) = (\<lambda>msg. append_u (av_type v) (av_enc E key v) msg \<bind> append_all E key vs)"
  by (simp_all add: fun_eq_iff)

lemma ice_reply_eq:
  "ice_reply E sender i controlled inner =
    (if \<not> verify E i ice_key then build_reply E ice_key Error [ErrorCode 441, Fingerprint] inner
     else if controlled then build_reply E ice_key Error [ErrorCode 487, MessageIntegrity, Fingerprint] inner
     else build_reply E ice_key Success [XorMapped sender, MessageIntegrity, Fingerprint] inner)"
  by (simp add: ice_reply_def build_reply_def append_all_eta del: error_code_enc.simps)

lemma ice_request_spec:
  assumes "attrs inner = ok items"
  shows "ice_request E ip udp inner =
    (case ice_policy E (SocketAddr (IpV6 (src ip)) (src_port udp)) (ice_attrs_of E items) of
       None \<Rightarrow> ok None
     | Some (c, vs) \<Rightarrow> do {
         inner \<leftarrow> build_reply E ice_key c vs inner;
         r \<leftarrow> ice_return ip udp inner;
         ok (Some r) })"
proof -
  define a where "a = ice_attrs_of E items"
  have a: "parse_ice_attrs E inner = ok a" unfolding a_def by (rule parse_ice_attrs_eq [OF assms])
  obtain unknowns username integrity controlled controlling priority candidate fingerprint where
    fields: "a = \<lparr>ia_username = username, ia_integrity = integrity, ia_ice_controlled = controlled,
       ia_ice_controlling = controlling, ia_priority = priority, ia_use_candidate = candidate,
       ia_fingerprint = fingerprint, ia_unknowns = unknowns\<rparr>"
    by (cases a)
  show ?thesis unfolding a_def [symmetric]
  proof (cases unknowns; cases username; cases integrity; cases "option_xor controlled controlling"; cases priority; cases fingerprint)
    fix name i r p f
    assume "unknowns = None" "username = Some name" "integrity = Some i"
      "option_xor controlled controlling = Some r" "priority = Some p" "fingerprint = Some f"
    then show "ice_request E ip udp inner =
      (case ice_policy E (SocketAddr (IpV6 (src ip)) (src_port udp)) a of None \<Rightarrow> ok None
       | Some (c, vs) \<Rightarrow> do { inner \<leftarrow> build_reply E ice_key c vs inner; r \<leftarrow> ice_return ip udp inner; ok (Some r) })"
      by (cases "split_once 0x3A name")
        (simp_all add: ice_request_def a ice_policy_def ice_reply_eq fields case_prod_beta)
  qed (simp_all add: ice_request_def a ice_policy_def fields)
qed

lemma ice_policy_fits:
  "ice_policy E sender a = Some (c, vs) \<Longrightarrow> list_all av_ok vs \<and> total_room vs \<le> 56"
  using av_room_bounds(1) [of sender]
  by (auto simp: ice_policy_def av_room_bounds(4-7) bind_eq_Some_conv split: if_splits prod.splits)

lemma ice_return_ok:
  assumes "unat (length_of inner) = n" and "20 + n \<le> length inner" and "n \<le> 1000"
  obtains udp' where "ice_return ip udp inner =
      ok (ip6_as_bytes (ip\<lparr>src := dst ip, dst := src ip, payload_length := of_nat (28 + n)\<rparr>) @ udp_as_bytes udp' @ inner, 68 + n)"
    "src_port udp' = dst_port udp" "dst_port udp' = src_port udp" "udp_length udp' = of_nat (28 + n)"
    "udp_checksum_valid (ip\<lparr>src := dst ip, dst := src ip, payload_length := of_nat (28 + n)\<rparr>) udp' (take (20 + n) inner)"
proof -
  define ip' where "ip' = ip\<lparr>src := dst ip, dst := src ip, payload_length := of_nat (28 + n)\<rparr>"
  define u0 where "u0 = udp\<lparr>src_port := dst_port udp, dst_port := src_port udp, udp_length := of_nat (28 + n)\<rparr>"
  have "length (take (20 + n) inner) \<le> 131028" using assms by simp
  then obtain c where c: "udp_checksum_fill ip' u0 (take (20 + n) inner) = ok (u0\<lparr>checksum := c\<rparr>)"
      "udp_checksum_valid ip' (u0\<lparr>checksum := c\<rparr>) (take (20 + n) inner)"
    by (rule udp_checksum_fill_ok)
  have "checked_add 28 (length_of inner) = Some (of_nat (28 + n))"
    using assms(1,3) unat_add_fits [of 28 "length_of inner"]
    by (simp add: checked_add_unat word_unat_eq_iff unat_of_nat del: of_nat_add)
  moreover have "ip6_len ip' = 68 + n"
    using assms(3) by (simp add: ip6_len_def ip'_def unat_of_nat_u16 del: of_nat_add)
  ultimately have "ice_return ip udp inner = ok (ip6_as_bytes ip' @ udp_as_bytes (u0\<lparr>checksum := c\<rparr>) @ inner, 68 + n)"
    using assms c(1) by (simp add: ice_return_def stun_len_def Let_def ip'_def u0_def take_sub add.commute [of n 20])
  then show thesis
    using c(2) by (intro that [of "u0\<lparr>checksum := c\<rparr>"]) (simp_all add: ip'_def u0_def)
qed

section \<open>The loop\<close>

lemma ice_request_answer:
  assumes items: "attrs inner = ok items" and len: "76 \<le> length inner"
    and policy: "ice_policy E (SocketAddr (IpV6 (src ip)) (src_port udp)) (ice_attrs_of E items) = Some (c, vs)"
    and ip': "ip' = ip\<lparr>src := dst ip, dst := src ip, payload_length := of_nat (28 + total_room vs)\<rparr>"
  obtains udp' r where
    "ice_request E ip udp inner =
       ok (Some (ip6_as_bytes ip' @ udp_as_bytes udp' @ r, 68 + total_room vs))"
    "is_reply E ice_key inner c vs r" "total_room vs \<le> 56"
    "src_port udp' = dst_port udp" "dst_port udp' = src_port udp" "udp_length udp' = of_nat (28 + total_room vs)"
    "udp_checksum_valid ip' udp' (take (20 + total_room vs) r)"
proof -
  have fits: "list_all av_ok vs" "total_room vs \<le> 56" using ice_policy_fits [OF policy] by simp_all
  then obtain r where r: "build_reply E ice_key c vs inner = ok r" "is_reply E ice_key inner c vs r"
    using build_reply_ok [of vs inner E ice_key c] len by auto
  then have "unat (length_of r) = total_room vs" "20 + total_room vs \<le> length r" "total_room vs \<le> 1000"
    using fits(2) by (simp_all add: is_reply_def)
  then obtain udp' where u: "ice_return ip udp r = ok (ip6_as_bytes ip' @ udp_as_bytes udp' @ r, 68 + total_room vs)"
    "src_port udp' = dst_port udp" "dst_port udp' = src_port udp" "udp_length udp' = of_nat (28 + total_room vs)"
    "udp_checksum_valid ip' udp' (take (20 + total_room vs) r)"
    unfolding ip' by (rule ice_return_ok)
  then have "ice_request E ip udp inner = ok (Some (ip6_as_bytes ip' @ udp_as_bytes udp' @ r, 68 + total_room vs))"
    using r(1) policy by (simp add: ice_request_spec [OF items])
  with r(2) fits(2) u show thesis by (intro that)
qed

text \<open>
  \<open>is_check\<close>: the datagram is a Binding request. \<open>ice_answer\<close>: the packet \<open>out\<close> goes back from
  \<open>receiver\<close> to \<open>sender\<close>, verifies its checksum, and its payload answers the check \<open>data\<close>.
\<close>

definition is_check :: "buf \<Rightarrow> bool" where
  "is_check data \<longleftrightarrow> decode data (length data) = ok (Inr ()) \<and>
     get_class data = ok Request \<and> get_method data = ok Binding"

definition ice_answer ::
    "('x) extern_scheme \<Rightarrow> socket_addr_v6 \<Rightarrow> socket_addr_v6 \<Rightarrow> buf \<Rightarrow> stun_class \<Rightarrow> attr_value list \<Rightarrow> buf \<Rightarrow> bool" where
  "ice_answer E sender receiver data c vs out \<longleftrightarrow>
     packet_checksum_ok out \<and>
     (\<exists>d. carries_udp E receiver sender d out \<and> reply_datagram E ice_key data c vs d)"

lemma is_check_length: "is_check data \<Longrightarrow> 20 \<le> length data"
  by (simp add: is_check_def decode_Inr)

lemma is_check_append:
  assumes "is_check data"
  shows "decode (data @ slack) (length data) = ok (Inr ())" "get_class (data @ slack) = ok Request"
    "get_method (data @ slack) = ok Binding" "attrs (data @ slack) = attrs data" "hd (data @ slack) = 0"
    "get_txid (data @ slack) = get_txid data"
proof -
  have d: "drop_bit 14 (typ_of data) = 0" "length_of data mod 4 = 0" "cookie_of data = MAGIC_COOKIE"
      "20 + unat (length_of data) \<le> length data"
    using assms by (simp_all add: is_check_def decode_Inr)
  then have len: "20 \<le> length data" by simp
  note f = fields_append [OF len, of slack]
  have c: "class_of data = Request" "method_of data = Binding" using assms len by (simp_all add: is_check_def)
  show "decode (data @ slack) (length data) = ok (Inr ())" using d by (simp add: decode_Inr f)
  show "get_class (data @ slack) = ok Request" "get_method (data @ slack) = ok Binding"
      "get_txid (data @ slack) = get_txid data"
    using c len by (simp_all add: f)
  have "attrs (data @ slack) = attrs (take (20 + unat (length_of data)) (data @ slack))"
    using attrs_take [of "data @ slack"] d(4) by (simp add: f)
  also have "\<dots> = attrs data" using attrs_take [OF d(4)] d(4) by simp
  finally show "attrs (data @ slack) = attrs data" .
  have req: "typ_of data AND 0x0110 = 0" using c(1) by (auto simp: class_of_def split: if_splits)
  have "raw_method_of (typ_of data) = 1"
    using c(2) by (auto simp: method_of_def method_of_u16_def split: if_splits)
  with d(1) req have "typ_of data = 1" by (rule binding_request_typ)
  moreover have "to_be_bytes (typ_of data) = take 2 data"
    using len by (simp add: typ_of_def sub_def to_from_be_bytes)
  ultimately have "take 2 data = [0, 1]" by (simp add: to_be_bytes_u16)
  with len show "hd (data @ slack) = 0" by (cases data) auto
qed

lemma intercept_check:
  assumes p: "packet = ip6_as_bytes ip @ udp_as_bytes udp @ data" "version E (flags ip) = 6"
    "ip6_len ip = length packet" "udp_length udp = payload_length ip" "next_header ip = IP_PROTO_UDP"
    "unat (udp_length udp) = 8 + length data"
    and check: "is_check data"
  shows "intercept E (length packet) (packet @ slack) = ice_request E ip udp (data @ slack)"
  using is_check_append [OF check, of slack] is_check_length [OF check] p(2-6)
  by (simp add: intercept_def p(1) ip6.from_prefix_append udp.from_prefix_append Let_def)
    (cases data; simp)

lemma ice_step_check:
  assumes "carries_udp E sender receiver data packet" and check: "is_check data"
    and items: "attrs data = ok items"
    and policy: "ice_policy E (sa_of_v6 sender) (ice_attrs_of E items) = Some (c, vs)"
    and len: "124 \<le> length (packet @ slack)"
  shows "\<exists>out. ice_step E (length packet) (packet @ slack) = ok out \<and> ice_answer E sender receiver data c vs out"
proof -
  obtain ip udp where p: "packet = ip6_as_bytes ip @ udp_as_bytes udp @ data" "version E (flags ip) = 6"
    "ip6_len ip = length packet" "udp_length udp = payload_length ip" "next_header ip = IP_PROTO_UDP"
    "v6_addr (src ip) (src_port udp) = sender" "v6_addr (dst ip) (dst_port udp) = receiver"
    "unat (udp_length udp) = 8 + length data"
    using assms(1) by (rule udp_packet_parts)
  let ?n = "total_room vs"
  define ip' where "ip' = ip\<lparr>src := dst ip, dst := src ip, payload_length := of_nat (28 + ?n)\<rparr>"
  note app = is_check_append [OF check, of slack]
  have "attrs (data @ slack) = ok items" "76 \<le> length (data @ slack)"
    "ice_policy E (SocketAddr (IpV6 (src ip)) (src_port udp)) (ice_attrs_of E items) = Some (c, vs)"
    using app(4) items len p(1,6) policy
    by (auto simp: ip6.length_as_bytes udp.length_as_bytes sa_of_v6_def v6_addr_def)
  then obtain udp' r where r: "ice_request E ip udp (data @ slack) =
       ok (Some (ip6_as_bytes ip' @ udp_as_bytes udp' @ r, 68 + ?n))"
    "is_reply E ice_key (data @ slack) c vs r" "?n \<le> 56"
    "src_port udp' = dst_port udp" "dst_port udp' = src_port udp" "udp_length udp' = of_nat (28 + ?n)"
    "udp_checksum_valid ip' udp' (take (20 + ?n) r)"
    using ip'_def by (rule ice_request_answer)
  let ?d = "take (20 + ?n) r"
  define out where "out = ip6_as_bytes ip' @ udp_as_bytes udp' @ ?d"
  have "reply_datagram E ice_key (data @ slack) c vs ?d"
    using r(2) by (rule is_reply_datagram) (use app(1) is_check_length [OF check] in auto)
  then have d: "reply_datagram E ice_key data c vs ?d"
    using app(3,6) check reply_datagram_cong [of "data @ slack" data E ice_key c vs ?d] by (simp add: is_check_def)
  then have ld: "length ?d = 20 + ?n" by (simp add: reply_datagram_def)
  have lo: "length out = 68 + ?n"
    using ld by (simp add: out_def ip6.length_as_bytes udp.length_as_bytes)
  have pre: "from_prefix 40 ip6_of_bytes out = Some (ip', udp_as_bytes udp' @ ?d)"
      "from_prefix 8 udp_of_bytes (udp_as_bytes udp' @ ?d) = Some (udp', ?d)"
    by (simp_all add: out_def ip6.from_prefix_append udp.from_prefix_append)
  have "carries_udp E receiver sender ?d out"
    using p(2,5,6,7) r(3-6) lo
    by (simp add: carries_udp_def pre ip6_len_def unat_of_nat_u16 ip'_def del: of_nat_add)
  moreover have "packet_checksum_ok out" using r(7) by (simp add: packet_checksum_ok_def pre)
  ultimately have "ice_answer E sender receiver data c vs out" using d by (auto simp: ice_answer_def)
  moreover have "ice_step E (length packet) (packet @ slack) = ok out"
    using r(1) intercept_check [OF p(1-5,8) check, of slack] ld
    by (simp add: ice_step_def out_def sub_def ip6.length_as_bytes udp.length_as_bytes)
  ultimately show ?thesis by blast
qed

lemma intercept_other:
  assumes "len \<le> length buffer"
    and "\<not> (\<exists>sender receiver data. carries_udp E sender receiver data (take len buffer) \<and> is_check data)"
  shows "intercept E len buffer = ok None"
proof (rule ccontr)
  assume *: "intercept E len buffer \<noteq> ok None"
  then obtain ip udp rest where p: "buffer = ip6_as_bytes ip @ udp_as_bytes udp @ rest" "version E (flags ip) = 6"
      "ip6_len ip = len" "next_header ip = IP_PROTO_UDP" "8 \<le> unat (payload_length ip)" "udp_length udp = payload_length ip"
    and d: "decode rest (unat (udp_length udp) - 8) \<bind> (\<lambda>d. case d of Inl _ \<Rightarrow> ok None | Inr _ \<Rightarrow> do {
       c \<leftarrow> get_class rest;
       m \<leftarrow> get_method rest;
       if c \<noteq> Request \<or> m \<noteq> Binding then ok None else ice_request E ip udp rest }) \<noteq> ok None"
    by (auto simp: intercept_def ip6.from_prefix_Some udp.from_prefix_Some Let_def split: option.splits if_splits)
  let ?n = "unat (payload_length ip) - 8"
  let ?data = "take ?n rest"
  have n: "len = 48 + ?n" "?n \<le> length rest"
    using p(3,5) assms(1) by (auto simp: p(1) ip6_len_def ip6.length_as_bytes udp.length_as_bytes)
  have packet: "take len buffer = ip6_as_bytes ip @ udp_as_bytes udp @ ?data"
    by (simp add: n(1) p(1) ip6.length_as_bytes udp.length_as_bytes)
  have "carries_udp E (v6_addr (src ip) (src_port udp)) (v6_addr (dst ip) (dst_port udp)) ?data (take len buffer)"
    using p n by (simp add: carries_udp_def packet ip6.from_prefix_append udp.from_prefix_append
        ip6_len_def ip6.length_as_bytes udp.length_as_bytes)
  moreover have dec: "decode rest ?n = ok (Inr ())"
    using d n(2) p(6) by (simp add: decode_ok split: if_splits)
  then have f: "drop_bit 14 (typ_of rest) = 0" "length_of rest mod 4 = 0" "cookie_of rest = MAGIC_COOKIE"
      "20 + unat (length_of rest) \<le> ?n"
    using n(2) by (simp_all add: decode_Inr)
  then have n20: "20 \<le> ?n" by simp
  have "class_of rest = Request" "method_of rest = Binding"
    using d dec p(6) n20 n(2) by (auto split: if_splits)
  then have "is_check ?data"
    using f n(2) n20 by (simp add: is_check_def decode_Inr fields_take)
  ultimately show False using assms(2) by blast
qed

lemma ice_step_cases:
  assumes "124 \<le> length buffer" and "len \<le> length buffer"
  obtains out where "ice_step E len buffer = ok out"
    "out = take len buffer \<or>
     (\<exists>sender receiver data items c vs. carries_udp E sender receiver data (take len buffer) \<and> is_check data \<and>
        attrs data = ok items \<and> ice_policy E (sa_of_v6 sender) (ice_attrs_of E items) = Some (c, vs) \<and>
        ice_answer E sender receiver data c vs out)"
proof (cases "\<exists>sender receiver data. carries_udp E sender receiver data (take len buffer) \<and> is_check data")
  case True
  then obtain sender receiver data where c: "carries_udp E sender receiver data (take len buffer)" "is_check data"
    by blast
  obtain items where items: "attrs data = ok items" using attrs_items [of data] by blast
  show ?thesis
  proof (cases "ice_policy E (sa_of_v6 sender) (ice_attrs_of E items)")
    case None
    obtain ip udp where p: "take len buffer = ip6_as_bytes ip @ udp_as_bytes udp @ data" "version E (flags ip) = 6"
      "ip6_len ip = length (take len buffer)" "udp_length udp = payload_length ip" "next_header ip = IP_PROTO_UDP"
      "v6_addr (src ip) (src_port udp) = sender" "v6_addr (dst ip) (dst_port udp) = receiver"
      "unat (udp_length udp) = 8 + length data"
      using c(1) by (rule udp_packet_parts)
    have "sa_of_v6 sender = SocketAddr (IpV6 (src ip)) (src_port udp)"
      by (simp add: sa_of_v6_def v6_addr_def flip: p(6))
    then have "ice_request E ip udp (data @ drop len buffer) = ok None"
      using None items is_check_append(4) [OF c(2)] by (simp add: ice_request_spec)
    then have "intercept E len buffer = ok None"
      using intercept_check [OF p(1-5,8) c(2), of "drop len buffer"] assms(2) by simp
    then show ?thesis
      using assms(2) by (intro that [of "take len buffer"]) (simp_all add: ice_step_def take_sub)
  next
    case (Some cv)
    obtain k vs where kv: "cv = (k, vs)" by (cases cv)
    then obtain out where "ice_step E len buffer = ok out" "ice_answer E sender receiver data k vs out"
      using ice_step_check [OF c items, of k vs "drop len buffer"] Some assms by auto
    then show ?thesis using Some kv c items by (intro that) blast+
  qed
next
  case False
  then have "intercept E len buffer = ok None" using assms(2) by (intro intercept_other)
  then show ?thesis
    using assms(2) by (intro that [of "take len buffer"]) (simp_all add: ice_step_def take_sub)
qed

end
