(* ===== verification/Ice_Properties.thy ===== *)
theory Ice_Properties
  imports Ice_Dissolve Samples
begin

text \<open>The properties of the ICE responder, and a connectivity check on which they are exercised.\<close>

section \<open>A connectivity check\<close>

definition ice_check :: stun where
  "ice_check = sample_head 0x0001 68 @
     [0x00, 0x06, 0x00, 0x0A, 0x64, 0x69, 0x73, 0x73, 0x6F, 0x6C, 0x76, 0x65, 0x3A, 0x78, 0, 0] @
     [0x80, 0x2A, 0x00, 0x08, 1, 2, 3, 4, 5, 6, 7, 8] @
     [0x00, 0x24, 0x00, 0x04, 0, 0, 0, 1] @
     [0x00, 0x08, 0x00, 0x14] @ replicate 20 0 @
     [0x80, 0x28, 0x00, 0x04, 0x53, 0x54, 0x55, 0x4E]"

definition ice_packet :: buf where
  "ice_packet = ip6_as_bytes (sample_ip IP_PROTO_UDP 96 1 2) @ udp_as_bytes (sample_udp 96) @ ice_check"

lemma ice_check_fields:
  "length ice_check = 88" "length_of ice_check = 68" "typ_of ice_check = 0x0001"
  "cookie_of ice_check = MAGIC_COOKIE"
  by (simp_all add: ice_check_def sample_simps MAGIC_COOKIE_def)

lemma ice_check_is_check: "is_check ice_check"
  by (simp add: is_check_def decode_Inr ice_check_fields class_of_def method_of_def raw_method_of_def
      method_of_u16_def)

lemma ice_lens:
  "attr_len_at ice_check 0 = 10" "attr_len_at ice_check 16 = 8" "attr_len_at ice_check 28 = 4"
  "attr_len_at ice_check 36 = 20" "attr_len_at ice_check 60 = 4"
  by (simp_all add: ice_check_def sample_simps)

definition ice_items :: "item list" where
  "ice_items = map (item_at ice_check) [0, 16, 28, 36, 60]"

lemma ice_attrs: "attrs ice_check = ok ice_items"
  by (simp add: attrs_def iter_at_0 attrs_collect_at attr_end_def pad4_def ice_lens ice_check_fields ice_items_def)

definition dissolve_x :: str where
  "dissolve_x = [0x64, 0x69, 0x73, 0x73, 0x6F, 0x6C, 0x76, 0x65, 0x3A, 0x78]"

lemma ice_item_values:
  "item_at ice_check 0 = (prefix_at ice_check 0 16, USERNAME, (24, dissolve_x))"
  "item_at ice_check 16 = (prefix_at ice_check 16 28, ICE_CONTROLLING, (40, [1, 2, 3, 4, 5, 6, 7, 8]))"
  "item_at ice_check 28 = (prefix_at ice_check 28 36, PRIORITY, (52, [0, 0, 0, 1]))"
  "item_at ice_check 36 = (prefix_at ice_check 36 60, MESSAGE_INTEGRITY, (60, replicate 20 0))"
  "item_at ice_check 60 = (prefix_at ice_check 60 68, FINGERPRINT, (84, [0x53, 0x54, 0x55, 0x4E]))"
  by (simp_all add: ice_check_def sample_simps attr_end_def pad4_def attr_typ_defs dissolve_x_def prefix_at_def)

text \<open>An instance whose HMAC differs: under it the check's MESSAGE-INTEGRITY does not verify.\<close>

definition other_extern :: extern where
  "other_extern = sample_extern\<lparr>hmac_sha1 := (\<lambda>k m. 1)\<rparr>"

lemma other_bitfield: "bitfield_ok other_extern"
  by (simp add: bitfield_ok_def other_extern_def sample_extern_def)

lemma ice_fingerprint:
  "fingerprint_of sample_extern p = 0x5354554E" "fingerprint_of other_extern p = 0x5354554E"
  by (simp_all add: fingerprint_of_def other_extern_def sample_extern_def FINGERPRINT_MAGIC_def)

lemma other_verify: "\<not> verify other_extern \<lparr>mac_prefix = p, mac = replicate 20 0\<rparr> key"
proof -
  have "replicate 20 0 = to_be_bytes (0 :: 160 word)"
    by (simp add: to_be_bytes_def map_replicate_const)
  then have "to_be_bytes (1 :: 160 word) \<noteq> replicate 20 0"
    by (simp add: to_be_bytes_inject)
  then show ?thesis by (simp add: verify_def mac_of_def other_extern_def sample_extern_def)
qed

lemma ice_attr_values:
  assumes "E = sample_extern \<or> E = other_extern"
  shows "ice_attrs_of E ice_items =
   \<lparr>ia_username = Some dissolve_x,
     ia_integrity = Some \<lparr>mac_prefix = prefix_at ice_check 36 60, mac = replicate 20 0\<rparr>,
     ia_ice_controlled = None, ia_ice_controlling = Some 0x0102030405060708, ia_priority = Some 1,
     ia_use_candidate = None, ia_fingerprint = Some (), ia_unknowns = None\<rparr>"
proof -
  have "\<forall>p. fingerprint_of E p = 0x5354554E" using assms ice_fingerprint by auto
  then show ?thesis
    by (simp add: ice_attrs_of_def ice_items_def ice_item_values found_def candidate_def item_typ_def decoded_def
      stage_simps must_precede_fingerprint_def collect_unknown_def Let_def list_all_iff dissolve_x_def
      ice_known_def hides_def from_be_bytes_def)
qed

lemma dissolve_x_split: "split_once 0x3A dissolve_x = Some (str_lit ''dissolve'', [0x78])"
  by (simp add: dissolve_x_def str_lit_def of_char_of)

lemma ice_packet_carries:
  "bitfield_ok E \<Longrightarrow> carries_udp E (v6_addr 1 1000) (v6_addr 2 2000) ice_check ice_packet"
  using flags_emitted [of E]
  by (simp add: carries_udp_def ice_packet_def ip6.from_prefix_append udp.from_prefix_append ip6_len_def
      ip6.length_as_bytes udp.length_as_bytes ice_check_fields sample_ip_def sample_udp_def)

lemma length_ice_packet: "length ice_packet = 136"
  by (simp add: ice_packet_def ip6.length_as_bytes udp.length_as_bytes ice_check_fields)

section \<open>Properties\<close>

fun received_packets :: "(nat \<times> buf) option list \<Rightarrow> buf list" where
  "received_packets [] = []"
| "received_packets (None # rs) = received_packets rs"
| "received_packets (Some (len, buffer) # rs) = take len buffer # received_packets rs"

definition ice_returns :: "('x) extern_scheme \<Rightarrow> buf \<Rightarrow> buf \<Rightarrow> bool" where
  "ice_returns E packet out \<longleftrightarrow> out = packet \<or>
     (\<exists>sender receiver data items c vs. carries_udp E sender receiver data packet \<and> is_check data \<and>
        attrs data = ok items \<and> ice_policy E (sa_of_v6 sender) (ice_attrs_of E items) = Some (c, vs) \<and>
        ice_answer E sender receiver data c vs out)"

text \<open>
  C14. The responder never panics, whatever it receives into its 65536-byte buffer and however often a receive fails, and it is
  transparent: it sends one packet for each packet received, in order, and every packet goes back unchanged, unless it is a UDP packet
  with a Binding request that the policy \<open>ice_policy\<close> answers; then what goes back is that answer, to the sender of the packet.
\<close>

theorem ice_main_safe:
  assumes "\<forall>len buffer. Some (len, buffer) \<in> set rs \<longrightarrow> length buffer = 65536 \<and> len \<le> 65536"
  shows "\<exists>outs. ice_main E rs = ok outs \<and>
    list_all2 (ice_returns E) (received_packets rs) outs"
  using assms
proof (induction rs rule: ice_main.induct)
  case (3 E len buffer rs)
  have b: "124 \<le> length buffer" "len \<le> length buffer" using "3.prems" by auto
  obtain out where o: "ice_step E len buffer = ok out" "ice_returns E (take len buffer) out"
    by (rule ice_step_cases [OF b, of E]) (auto simp: ice_returns_def)
  moreover obtain outs where "ice_main E rs = ok outs"
      "list_all2 (ice_returns E) (received_packets rs) outs"
    using "3.IH" [OF o(1)] "3.prems" by auto
  ultimately show ?case by simp
qed simp_all

theorem ice_main_safe_witness:
  "\<exists>outs. ice_main sample_extern [None, Some (48, replicate 65536 0x60)] = ok outs \<and> length outs = 1"
  using ice_main_safe [of "[None, Some (48, replicate 65536 0x60)]" sample_extern]
  by (auto dest: list_all2_lengthD)

text \<open>
  C10. A connectivity check of a controlling agent is answered: for a UDP packet whose payload
  is a Binding request with exactly the ICE attributes, a user name \<^verbatim>\<open>dissolve:...\<close>, a good FINGERPRINT and a
  MESSAGE-INTEGRITY under the fixed password, the packet that goes back is addressed to the sender, verifies its UDP checksum, and
  carries a success response with the request's transaction id, XOR-MAPPED-ADDRESS the sender's
  address, a MESSAGE-INTEGRITY that verifies under the same password, and a good FINGERPRINT.
\<close>

theorem ice_check_answered:
  assumes "carries_udp E sender receiver data packet" and "is_check data" and "attrs data = ok items"
    and a: "a = ice_attrs_of E items" "ia_unknowns a = None" "ia_username a = Some username"
      "split_once 0x3A username = Some (str_lit ''dissolve'', src_ufrag)" "ia_integrity a = Some i"
      "verify E i ice_key" "ia_ice_controlled a = None" "ia_ice_controlling a \<noteq> None"
      "ia_priority a \<noteq> None" "ia_fingerprint a \<noteq> None"
    and "124 \<le> length (packet @ slack)"
  shows "\<exists>out d m h f mi. ice_step E (length packet) (packet @ slack) = ok out \<and>
    packet_checksum_ok out \<and> carries_udp E receiver sender d out \<and>
    decode d (length d) = ok (Inr ()) \<and> get_class d = ok Success \<and> get_txid d = get_txid data \<and>
    attrs d = ok [m, h, f] \<and>
    item_typ m = XOR_MAPPED_ADDRESS \<and> decoded (sockaddr_decode True) m = Some (sa_of_v6 sender) \<and>
    item_typ h = MESSAGE_INTEGRITY \<and> decoded (integrity_decode 20) h = Some mi \<and> verify E mi ice_key \<and>
    item_typ f = FINGERPRINT \<and> decoded (fingerprint_decode E) f = Some ()"
proof -
  let ?vs = "[XorMapped (sa_of_v6 sender), MessageIntegrity, Fingerprint]"
  have "ice_policy E (sa_of_v6 sender) (ice_attrs_of E items) = Some (Success, ?vs)"
    using a by (auto simp: ice_policy_def)
  then obtain out d where out: "ice_step E (length packet) (packet @ slack) = ok out" "packet_checksum_ok out"
      "carries_udp E receiver sender d out" "reply_datagram E ice_key data Success ?vs d"
    using ice_step_check [OF assms(1-3) _ assms(14)] by (auto simp: ice_answer_def)
  from out(4) obtain m h f where "attrs d = ok [m, h, f]" "shows_value E ice_key (XorMapped (sa_of_v6 sender)) m"
      "shows_value E ice_key MessageIntegrity h" "shows_value E ice_key Fingerprint f"
    by (auto simp: reply_datagram_def list_all2_Cons1 simp del: shows_value.simps split: option.splits)
  moreover from this obtain mi where "decoded (integrity_decode 20) h = Some mi" "verify E mi ice_key"
    by (auto split: option.splits)
  ultimately show ?thesis
    using out unfolding reply_datagram_def shows_value.simps by blast
qed

theorem ice_check_answered_witness:
  "\<exists>out d m h f. ice_step sample_extern 136 ice_packet = ok out \<and> packet_checksum_ok out \<and>
    carries_udp sample_extern (v6_addr 2 2000) (v6_addr 1 1000) d out \<and> attrs d = ok [m, h, f] \<and>
    decoded (sockaddr_decode True) m = Some (sa_of_v6 (v6_addr 1 1000))"
  using ice_check_answered [OF ice_packet_carries [OF sample_bitfield] ice_check_is_check ice_attrs refl _ _ dissolve_x_split _ allocate_verifies,
      of "prefix_at ice_check 36 60" "[]"]
  by (simp add: ice_attr_values length_ice_packet) blast

text \<open>
  C28. The error responses: a check whose MESSAGE-INTEGRITY does not verify is answered with the error
  code 441 and no MESSAGE-INTEGRITY, one from a controlled agent with the error code 487 (role conflict)
  and a MESSAGE-INTEGRITY that verifies.
\<close>

theorem ice_check_rejected:
  assumes "carries_udp E sender receiver data packet" and "is_check data" and "attrs data = ok items"
    and a: "a = ice_attrs_of E items" "ia_unknowns a = None" "ia_username a = Some username"
      "split_once 0x3A username = Some (str_lit ''dissolve'', src_ufrag)" "ia_integrity a = Some i"
      "option_xor (ia_ice_controlled a) (ia_ice_controlling a) \<noteq> None"
      "ia_priority a \<noteq> None" "ia_fingerprint a \<noteq> None"
    and bad: "\<not> verify E i ice_key \<or> ia_ice_controlled a \<noteq> None"
    and "124 \<le> length (packet @ slack)"
  shows "\<exists>out d x rest. ice_step E (length packet) (packet @ slack) = ok out \<and>
    packet_checksum_ok out \<and> carries_udp E receiver sender d out \<and>
    get_class d = ok Error \<and> get_txid d = get_txid data \<and> attrs d = ok (x # rest) \<and> item_typ x = ERROR_CODE \<and>
    decoded error_code_decode x = Some (if verify E i ice_key then 487 else 441, []) \<and>
    map item_typ rest = (if verify E i ice_key then [MESSAGE_INTEGRITY, FINGERPRINT] else [FINGERPRINT]) \<and>
    (verify E i ice_key \<longrightarrow> (\<exists>j. decoded (integrity_decode 20) (hd rest) = Some j \<and> verify E j ice_key))"
proof -
  let ?vs = "if verify E i ice_key then [ErrorCode 487, MessageIntegrity, Fingerprint] else [ErrorCode 441, Fingerprint]"
  have "ice_policy E (sa_of_v6 sender) (ice_attrs_of E items) = Some (Error, ?vs)"
    using a bad by (auto simp: ice_policy_def)
  then obtain out d where out: "ice_step E (length packet) (packet @ slack) = ok out" "packet_checksum_ok out"
      "carries_udp E receiver sender d out" "reply_datagram E ice_key data Error ?vs d"
    using ice_step_check [OF assms(1-3) _ assms(13)] by (auto simp: ice_answer_def)
  from out(4) obtain x rest where "attrs d = ok (x # rest)"
      "decoded error_code_decode x = Some (if verify E i ice_key then 487 else 441, [])" "item_typ x = ERROR_CODE"
      "map item_typ rest = (if verify E i ice_key then [MESSAGE_INTEGRITY, FINGERPRINT] else [FINGERPRINT])"
      "verify E i ice_key \<longrightarrow> (\<exists>j. decoded (integrity_decode 20) (hd rest) = Some j \<and> verify E j ice_key)"
    by (auto simp: reply_datagram_def list_all2_Cons1 split: option.splits if_splits)
  with out show ?thesis unfolding reply_datagram_def by blast
qed

theorem ice_check_rejected_witness:
  "\<exists>out d x rest. ice_step other_extern 136 ice_packet = ok out \<and>
    carries_udp other_extern (v6_addr 2 2000) (v6_addr 1 1000) d out \<and> attrs d = ok (x # rest) \<and>
    decoded error_code_decode x = Some (441, [])"
  using ice_check_rejected [OF ice_packet_carries [OF other_bitfield] ice_check_is_check ice_attrs refl _ _ dissolve_x_split,
      of "\<lparr>mac_prefix = prefix_at ice_check 36 60, mac = replicate 20 0\<rparr>" "[]"]
  by (simp add: ice_attr_values length_ice_packet other_verify del: error_code_decode.simps) blast

end
