(* ===== verification/Subnets.thy ===== *)
theory Subnets
  imports Prelude
begin

text \<open>
  The \<^verbatim>\<open>ipnet\<close> crate, as the servers use it: an IPv6 subnet is a value of an abstract type, and \<open>ipnet\<close> is
  the record of the crate's functions that the code calls. \<open>ipnet_ok\<close> is their documented meaning: the
  host mask has a bit for every bit after the prefix, the network address has no host bits, a
  subnet contains the addresses that agree with it outside the host mask.
\<close>

record 'net ipnet =
  net_from_str :: "str \<Rightarrow> 'net option"
  prefix_len :: "'net \<Rightarrow> byte"
  network :: "'net \<Rightarrow> u128"
  hostmask :: "'net \<Rightarrow> u128"
  contains :: "'net \<Rightarrow> u128 \<Rightarrow> bool"
  ip_bitand :: "u128 \<Rightarrow> u128 \<Rightarrow> u128"
  ip_bitor :: "u128 \<Rightarrow> u128 \<Rightarrow> u128"

definition ipnet_ok :: "('net, 'x) ipnet_scheme \<Rightarrow> bool" where
  "ipnet_ok N \<longleftrightarrow>
     (\<forall>n. unat (prefix_len N n) \<le> 128 \<and> hostmask N n = mask (128 - unat (prefix_len N n)) \<and>
       network N n AND hostmask N n = 0) \<and>
     (\<forall>n a. contains N n a \<longleftrightarrow> a AND NOT (hostmask N n) = network N n) \<and>
     ip_bitand N = (AND) \<and> ip_bitor N = (OR)"

lemma ipnet_masks:
  assumes "ipnet_ok N"
  shows "hostmask N n = mask (128 - unat (prefix_len N n))" "network N n AND hostmask N n = 0"
    "contains N n a \<longleftrightarrow> a AND NOT (hostmask N n) = network N n" "unat (prefix_len N n) \<le> 128"
  using assms unfolding ipnet_ok_def by blast+

end
