(* ===== verification/Turn_Udp.thy ===== *)
theory Turn_Udp
  imports Turn_Server Subnets
begin

text \<open>
  \<^verbatim>\<open>src/bin/turnserver-udp.rs\<close>: the TURN server over UDP. It keeps no state besides its receive
  buffer, and what earlier packets left in the buffer after the received bytes is arbitrary here:
  a handler takes the buffer after the receive and the number of bytes received. Its result are
  the datagrams and packets it sends, in order; the code ignores whether a send succeeds.
\<close>

section \<open>The program\<close>

record 'net net_mapping =
  map_udp :: 'net
  map_tun :: 'net

datatype mapping_error = NoSeparator | BadSubnet | SizesDiffer

text \<open>\<^verbatim>\<open>str::split_once\<close> with a string pattern, and \<^verbatim>\<open>str::split\<close> with one character.\<close>

fun split_once_str :: "str \<Rightarrow> str \<Rightarrow> (str \<times> str) option" where
  "split_once_str pat s =
     (if take (length pat) s = pat then Some ([], drop (length pat) s)
      else case s of [] \<Rightarrow> None | b # bs \<Rightarrow> map_option (\<lambda>(l, r). (b # l, r)) (split_once_str pat bs))"

fun split_str :: "byte \<Rightarrow> str \<Rightarrow> str list" where
  "split_str c [] = [[]]"
| "split_str c (b # bs) =
     (if b = c then [] # split_str c bs
      else case split_str c bs of [] \<Rightarrow> [[b]] | s # ss \<Rightarrow> (b # s) # ss)"

definition mapping_from_str :: "('net, 'x) ipnet_scheme \<Rightarrow> str \<Rightarrow> mapping_error + 'net net_mapping" where
  "mapping_from_str N s =
    (case split_once_str (str_lit ''<->'') s of None \<Rightarrow> Inl NoSeparator | Some (udp, tun) \<Rightarrow>
     (case net_from_str N udp of None \<Rightarrow> Inl BadSubnet | Some udp \<Rightarrow>
     (case net_from_str N tun of None \<Rightarrow> Inl BadSubnet | Some tun \<Rightarrow>
      if prefix_len N udp \<noteq> prefix_len N tun then Inl SizesDiffer
      else Inr \<lparr>map_udp = udp, map_tun = tun\<rparr>)))"

text \<open>The loop over the comma separated argument; the first error ends the program.\<close>

fun collect_mappings :: "('net, 'x) ipnet_scheme \<Rightarrow> str list \<Rightarrow> mapping_error + 'net net_mapping list" where
  "collect_mappings N [] = Inr []"
| "collect_mappings N (s # ss) =
     (if s = [] then collect_mappings N ss
      else case mapping_from_str N s of Inl e \<Rightarrow> Inl e | Inr m \<Rightarrow>
        (case collect_mappings N ss of Inl e \<Rightarrow> Inl e | Inr ms \<Rightarrow> Inr (m # ms)))"

definition parse_mappings :: "('net, 'x) ipnet_scheme \<Rightarrow> str \<Rightarrow> mapping_error + 'net net_mapping list" where
  "parse_mappings N s = collect_mappings N (split_str 0x2C s)"

definition to_net :: "('net, 'x) ipnet_scheme \<Rightarrow> 'net net_mapping \<Rightarrow> u128 \<Rightarrow> u128 \<times> bool" where
  "to_net N m addr =
     (if contains N (map_udp m) addr
      then (ip_bitor N (network N (map_tun m)) (ip_bitand N (hostmask N (map_udp m)) addr), True)
      else (addr, False))"

definition to_udp :: "('net, 'x) ipnet_scheme \<Rightarrow> 'net net_mapping \<Rightarrow> u128 \<Rightarrow> u128 \<times> bool" where
  "to_udp N m addr =
     (if contains N (map_tun m) addr
      then (ip_bitor N (network N (map_udp m)) (ip_bitand N (hostmask N (map_tun m)) addr), True)
      else (addr, False))"

fun apply_mappings :: "('m \<Rightarrow> u128 \<Rightarrow> u128 \<times> bool) \<Rightarrow> 'm list \<Rightarrow> u128 \<Rightarrow> u128" where
  "apply_mappings f [] mapped = mapped"
| "apply_mappings f (m # ms) mapped =
     (let (mapped, hit) = f m mapped in if hit then mapped else apply_mappings f ms mapped)"

text \<open>\<^verbatim>\<open>core::net\<close>: \<^verbatim>\<open>Ipv4Addr::to_ipv6_mapped\<close> and \<^verbatim>\<open>IpAddr::to_canonical\<close>.\<close>

definition to_ipv6_mapped :: "u32 \<Rightarrow> u128" where
  "to_ipv6_mapped v4 = push_bit 32 0xFFFF OR ucast v4"

fun to_canonical :: "ip_addr \<Rightarrow> ip_addr" where
  "to_canonical (IpV4 v4) = IpV4 v4"
| "to_canonical (IpV6 v6) = (if drop_bit 32 v6 = 0xFFFF then IpV4 (ucast v6) else IpV6 v6)"

datatype transmit = ToSocket buf socket_addr | ToTun buf

definition mapped_of :: "socket_addr \<Rightarrow> u128" where
  "mapped_of sender = (case sa_ip sender of IpV4 v4 \<Rightarrow> to_ipv6_mapped v4 | IpV6 v6 \<Rightarrow> v6)"

text \<open>One turn of the \<^verbatim>\<open>UDP\<close> loop, and one of the \<^verbatim>\<open>TUN\<close> loop.\<close>

definition udp_recv ::
    "('e) extern_scheme \<Rightarrow> ('net, 'x) ipnet_scheme \<Rightarrow> 'net net_mapping list \<Rightarrow>
     nat \<Rightarrow> socket_addr \<Rightarrow> buf \<Rightarrow> transmit list run" where
  "udp_recv E N mappings len sender buffer = do {
     d \<leftarrow> decode buffer len;
     case d of Inl _ \<Rightarrow> ok [] | Inr _ \<Rightarrow> do {
     let canonical = SocketAddr (to_canonical (sa_ip sender)) (sa_port sender);
     let mapped = mapped_of sender;
     let mapped = apply_mappings (to_net N) mappings mapped;
     let relayed = v6_addr mapped (sa_port sender);
     (resp, sent) \<leftarrow> handle_turn E canonical relayed buffer;
     case resp of None \<Rightarrow> ok (map ToTun sent) | Some resp \<Rightarrow> do {
     length \<leftarrow> stun_len resp;
     data \<leftarrow> slice resp 0 length;
     ok (map ToTun sent @ [ToSocket data sender]) }}}"

definition tun_recv ::
    "('e) bitfield_scheme \<Rightarrow> ('net, 'x) ipnet_scheme \<Rightarrow> 'net net_mapping list \<Rightarrow>
     byte list \<Rightarrow> nat \<Rightarrow> buf \<Rightarrow> transmit list run" where
  "tun_recv E N mappings txid len buffer = do {
     r \<leftarrow> handle_net E txid len buffer;
     case r of None \<Rightarrow> ok [] | Some (receiver, msg) \<Rightarrow> do {
     let mapped = v6_ip receiver;
     let mapped = apply_mappings (to_udp N) mappings mapped;
     let mapped_receiver = SocketAddr (IpV6 mapped) (v6_port receiver);
     length \<leftarrow> stun_len msg;
     data \<leftarrow> slice msg 0 length;
     ok [ToSocket data mapped_receiver] }}"

text \<open>
  The loops over what the two receives return before they fail, and the loop over the events of one
  poll. The transaction ids are the random ones of \<open>handle_net\<close>.
\<close>

fun udp_loop where
  "udp_loop E N mappings [] = ok []"
| "udp_loop E N mappings ((len, sender, buffer) # recvs) = do {
     out \<leftarrow> udp_recv E N mappings len sender buffer;
     outs \<leftarrow> udp_loop E N mappings recvs;
     ok (out @ outs) }"

fun tun_loop where
  "tun_loop E N mappings [] = ok []"
| "tun_loop E N mappings ((txid, len, buffer) # recvs) = do {
     out \<leftarrow> tun_recv E N mappings txid len buffer;
     outs \<leftarrow> tun_loop E N mappings recvs;
     ok (out @ outs) }"

datatype event = UdpReady "(nat \<times> socket_addr \<times> buf) list" | TunReady "(byte list \<times> nat \<times> buf) list"

fun udp_server :: "('e) extern_scheme \<Rightarrow> ('net, 'x) ipnet_scheme \<Rightarrow> 'net net_mapping list \<Rightarrow> event list \<Rightarrow> transmit list run" where
  "udp_server E N mappings [] = ok []"
| "udp_server E N mappings (UdpReady recvs # es) = do {
     out \<leftarrow> udp_loop E N mappings recvs; outs \<leftarrow> udp_server E N mappings es; ok (out @ outs) }"
| "udp_server E N mappings (TunReady recvs # es) = do {
     out \<leftarrow> tun_loop E N mappings recvs; outs \<leftarrow> udp_server E N mappings es; ok (out @ outs) }"

text \<open>The program: it ends with the error of a bad argument, and otherwise handles events until a poll fails.\<close>

definition udp_main ::
    "('e) extern_scheme \<Rightarrow> ('net, 'x) ipnet_scheme \<Rightarrow> str \<Rightarrow> event list \<Rightarrow> (mapping_error + transmit list) run" where
  "udp_main E N arg es =
     (case parse_mappings N arg of
        Inl e \<Rightarrow> ok (Inl e)
      | Inr mappings \<Rightarrow> do { out \<leftarrow> udp_server E N mappings es; ok (Inr out) })"

section \<open>Mappings\<close>

definition swap_net :: "('net, 'x) ipnet_scheme \<Rightarrow> 'net \<Rightarrow> 'net \<Rightarrow> u128 \<Rightarrow> u128" where
  "swap_net N n n' a = ip_bitor N (network N n') (ip_bitand N (hostmask N n) a)"

lemma swap_net_bits:
  assumes N: "ipnet_ok N" "prefix_len N n = prefix_len N n'" and a: "contains N n a"
  shows "contains N n' (swap_net N n n' a) \<and> swap_net N n' n (swap_net N n n' a) = a"
proof -
  let ?h = "hostmask N n"
  have h: "hostmask N n' = ?h" using N by (simp add: ipnet_ok_def)
  have n: "network N n AND ?h = 0" "network N n' AND ?h = 0"
    using N h by (metis ipnet_ok_def)+
  have a: "a AND NOT ?h = network N n" using N(1) a by (simp add: ipnet_ok_def)
  have s: "swap_net N n n' a = network N n' OR (?h AND a)"
    using N(1) by (simp add: swap_net_def ipnet_ok_def)
  have bits: "bit (network N n AND ?h) i = bit (0 :: u128) i" "bit (network N n' AND ?h) i = bit (0 :: u128) i"
    "bit (a AND NOT ?h) i = bit (network N n) i" for i
    using n a by simp_all
  have "swap_net N n n' a AND NOT ?h = network N n'"
    unfolding s by (rule bit_word_eqI) (use bits in \<open>auto simp: bit_simps\<close>)
  moreover have "network N n OR (?h AND swap_net N n n' a) = a"
    unfolding s by (rule bit_word_eqI) (use bits in \<open>auto simp: bit_simps\<close>)
  moreover have "swap_net N n' n b = network N n OR (?h AND b)" for b
    using N(1) h by (simp add: swap_net_def ipnet_ok_def)
  ultimately show ?thesis using N(1) h by (simp add: ipnet_ok_def)
qed

definition mapping_ok :: "('net, 'x) ipnet_scheme \<Rightarrow> 'net net_mapping \<Rightarrow> bool" where
  "mapping_ok N m \<longleftrightarrow> ipnet_ok N \<and> prefix_len N (map_udp m) = prefix_len N (map_tun m)"

definition exclusive :: "('m \<Rightarrow> u128 \<Rightarrow> u128 \<times> bool) \<Rightarrow> 'm list \<Rightarrow> bool" where
  "exclusive f ms \<longleftrightarrow> sorted_wrt (\<lambda>m m'. \<forall>b. \<not> (snd (f m b) \<and> snd (f m' b))) ms"

text \<open>
  \<open>address_map\<close> is what the server relies on: a translation that may or may not apply to an
  address, and a second one that undoes it. The lemma is about a whole table, in which the first
  entry that applies decides: it can be undone when no two entries claim the same translated
  address.
\<close>

locale address_map =
  fixes fwd :: "'m \<Rightarrow> u128 \<Rightarrow> u128 \<times> bool" and bwd :: "'m \<Rightarrow> u128 \<Rightarrow> u128 \<times> bool" and wf :: "'m \<Rightarrow> bool"
  assumes undo: "wf m \<Longrightarrow> fwd m a = (b, True) \<Longrightarrow> bwd m b = (a, True)"
    and fwd_miss: "fwd m a = (b, False) \<Longrightarrow> b = a"
    and bwd_miss: "bwd m b = (a, False) \<Longrightarrow> a = b"
begin

lemma apply_other:
  "\<forall>m \<in> set ms. \<not> snd (fwd m a) \<Longrightarrow> apply_mappings fwd ms a = a"
  by (induction ms) (auto dest: fwd_miss split: prod.splits)

lemma apply_undo:
  assumes "\<forall>m \<in> set ms. wf m" and "exclusive bwd ms" and "\<exists>m \<in> set ms. snd (fwd m a)"
  shows "apply_mappings bwd ms (apply_mappings fwd ms a) = a \<and>
    (\<exists>m \<in> set ms. snd (bwd m (apply_mappings fwd ms a)))"
  using assms
proof (induction ms)
  case (Cons m ms)
  obtain b hit where f: "fwd m a = (b, hit)" by (cases "fwd m a")
  show ?case
  proof (cases hit)
    case True
    with f have "bwd m b = (a, True)" using undo Cons.prems(1) by simp
    with f True show ?thesis by simp
  next
    case False
    then have b: "b = a" using f fwd_miss by simp
    let ?c = "apply_mappings fwd ms a"
    have IH: "apply_mappings bwd ms ?c = a" "\<exists>m \<in> set ms. snd (bwd m ?c)"
      using Cons False f by (auto simp: exclusive_def)
    then have "\<not> snd (bwd m ?c)" using Cons.prems(2) by (auto simp: exclusive_def)
    then obtain d where "bwd m ?c = (d, False)" by (cases "bwd m ?c") auto
    moreover from this have "d = ?c" by (rule bwd_miss)
    ultimately show ?thesis using f False b IH by (simp del: split_paired_Ex)
  qed
qed simp

end

interpretation net_map: address_map "to_net N" "to_udp N" "mapping_ok N" for N
proof
  fix m a b
  assume m: "mapping_ok N m" and f: "to_net N m a = (b, True)"
  then have "contains N (map_udp m) a" "b = swap_net N (map_udp m) (map_tun m) a"
    by (auto simp: to_net_def swap_net_def split: if_splits)
  with m show "to_udp N m b = (a, True)"
    using swap_net_bits [of N "map_udp m" "map_tun m" a]
    by (simp add: to_udp_def mapping_ok_def) (simp add: swap_net_def)
qed (auto simp: to_net_def to_udp_def split: if_splits)

interpretation udp_map: address_map "to_udp N" "to_net N" "mapping_ok N" for N
proof
  fix m a b
  assume m: "mapping_ok N m" and f: "to_udp N m a = (b, True)"
  then have "contains N (map_tun m) a" "b = swap_net N (map_tun m) (map_udp m) a"
    by (auto simp: to_udp_def swap_net_def split: if_splits)
  with m show "to_net N m b = (a, True)"
    using swap_net_bits [of N "map_tun m" "map_udp m" a]
    by (simp add: to_net_def mapping_ok_def) (simp add: swap_net_def)
qed (auto simp: to_net_def to_udp_def split: if_splits)

lemma mapping_hit [simp]:
  "snd (to_net N m a) \<longleftrightarrow> contains N (map_udp m) a" "snd (to_udp N m a) \<longleftrightarrow> contains N (map_tun m) a"
  by (simp_all add: to_net_def to_udp_def)

text \<open>The table read from the command line is well-formed.\<close>

lemma parse_mappings_ok:
  assumes "ipnet_ok N" and "parse_mappings N s = Inr ms"
  shows "\<forall>m \<in> set ms. mapping_ok N m"
proof -
  have "collect_mappings N ss = Inr ms \<Longrightarrow> \<forall>m \<in> set ms. mapping_ok N m" for ss
    by (induction ss arbitrary: ms)
      (auto simp: mapping_from_str_def mapping_ok_def assms(1) split: if_splits sum.splits option.splits)
  then show ?thesis using assms(2) by (simp add: parse_mappings_def)
qed

section \<open>The handlers\<close>

definition udp_key :: "('e) extern_scheme \<Rightarrow> item list \<Rightarrow> byte list" where
  "udp_key E items = turn_key E (turn_attrs_of items)"

definition canonical_of :: "socket_addr \<Rightarrow> socket_addr" where
  "canonical_of sender = SocketAddr (to_canonical (sa_ip sender)) (sa_port sender)"

definition relayed_of :: "('net, 'x) ipnet_scheme \<Rightarrow> 'net net_mapping list \<Rightarrow> socket_addr \<Rightarrow> socket_addr_v6" where
  "relayed_of N ms sender = v6_addr (apply_mappings (to_net N) ms (mapped_of sender)) (sa_port sender)"

lemma udp_recv_eq:
  assumes "len \<le> length buffer"
  shows "udp_recv E N ms len sender buffer =
    (if decode buffer len = ok (Inr ()) then do {
       (resp, sent) \<leftarrow> handle_turn E (canonical_of sender) (relayed_of N ms sender) buffer;
       case resp of None \<Rightarrow> ok (map ToTun sent) | Some resp \<Rightarrow> do {
       length \<leftarrow> stun_len resp;
       data \<leftarrow> slice resp 0 length;
       ok (map ToTun sent @ [ToSocket data sender]) }}
     else ok [])"
  using decode_ok [OF assms]
  by (auto simp: udp_recv_def canonical_of_def relayed_of_def Let_def split: sum.split)

lemma udp_recv_cases:
  assumes len: "100 \<le> length buffer" "len \<le> length buffer"
  obtains items where "attrs buffer = ok items"
    "(\<exists>sent. udp_recv E N ms len sender buffer = ok (map ToTun sent)) \<or>
     (\<exists>cls vs d. turn_spec E (canonical_of sender) (relayed_of N ms sender) (turn_attrs_of items)
          (class_of buffer) (method_of buffer) = Respond cls vs \<and>
        udp_recv E N ms len sender buffer = ok [ToSocket d sender] \<and>
        reply_datagram E (udp_key E items) buffer cls vs d)"
proof -
  obtain items where items: "attrs buffer = ok items"
    "(\<exists>cls vs r. turn_spec E (canonical_of sender) (relayed_of N ms sender) (turn_attrs_of items)
          (class_of buffer) (method_of buffer) = Respond cls vs \<and>
        txid_of buffer \<noteq> replicate 12 0 \<and>
        handle_turn E (canonical_of sender) (relayed_of N ms sender) buffer = ok (Some r, []) \<and>
        is_reply E (turn_key E (turn_attrs_of items)) buffer cls vs r) \<or>
     (\<exists>sent. handle_turn E (canonical_of sender) (relayed_of N ms sender) buffer = ok (None, sent))"
    using len(1) by (rule handle_turn_cases)
  show thesis
  proof (cases "decode buffer len = ok (Inr ())")
    case True
    note eq = udp_recv_eq [OF len(2), of E N ms sender] True
    from items(2) show ?thesis
    proof
      assume "\<exists>sent. handle_turn E (canonical_of sender) (relayed_of N ms sender) buffer = ok (None, sent)"
      then show ?thesis using eq by (intro that [OF items(1)]) auto
    next
      assume "\<exists>cls vs r. turn_spec E (canonical_of sender) (relayed_of N ms sender) (turn_attrs_of items)
          (class_of buffer) (method_of buffer) = Respond cls vs \<and>
        txid_of buffer \<noteq> replicate 12 0 \<and>
        handle_turn E (canonical_of sender) (relayed_of N ms sender) buffer = ok (Some r, []) \<and>
        is_reply E (turn_key E (turn_attrs_of items)) buffer cls vs r"
      then obtain cls vs r where r: "turn_spec E (canonical_of sender) (relayed_of N ms sender) (turn_attrs_of items)
          (class_of buffer) (method_of buffer) = Respond cls vs"
        "handle_turn E (canonical_of sender) (relayed_of N ms sender) buffer = ok (Some r, [])"
        "is_reply E (turn_key E (turn_attrs_of items)) buffer cls vs r" by blast
      have "20 \<le> length buffer" using len(1) by simp
      from is_reply_datagram [OF r(3) this len(2) True] show ?thesis
        using r eq by (intro that [OF items(1)]) (auto simp: udp_key_def)
    qed
  next
    case False
    then have "udp_recv E N ms len sender buffer = ok (map ToTun [])"
      by (simp add: udp_recv_eq [OF len(2)])
    then show ?thesis by (intro that [OF items(1)]) blast
  qed
qed

lemma udp_recv_respond:
  assumes "100 \<le> length buffer" and "len \<le> length buffer" and "decode buffer len = ok (Inr ())"
    and "attrs buffer = ok items" and "txid_of buffer \<noteq> replicate 12 0"
    and spec: "turn_spec E (canonical_of sender) (relayed_of N ms sender) (turn_attrs_of items)
      (class_of buffer) (method_of buffer) = Respond cls vs"
  shows "\<exists>d. udp_recv E N ms len sender buffer = ok [ToSocket d sender] \<and>
    reply_datagram E (udp_key E items) buffer cls vs d"
proof -
  have 20: "20 \<le> length buffer" using assms(1) by simp
  obtain r where r: "respond E (udp_key E items) cls vs buffer = ok (Some r, [])"
      "is_reply E (udp_key E items) buffer cls vs r"
    using respond_policy [OF spec assms(1)] by blast
  have "handle_turn E (canonical_of sender) (relayed_of N ms sender) buffer = ok (Some r, [])"
    using r(1) spec assms(5) by (simp add: handle_turn_eq [OF 20 assms(4) refl] udp_key_def)
  then show ?thesis
    using is_reply_datagram [OF r(2) 20 assms(2,3)] assms(3) by (auto simp: udp_recv_eq [OF assms(2)])
qed

lemma tun_recv_total:
  assumes "40 \<le> length buffer" and "4 dvd length buffer" and "len \<le> length buffer" and "length txid = 12"
  obtains "tun_recv E N ms txid len buffer = ok []"
  | d receiver where "tun_recv E N ms txid len buffer = ok [ToSocket d receiver]" "is_data_indication txid d"
proof (cases "handle_net E txid len buffer = ok None")
  case False
  then obtain a msg where m: "handle_net E txid len buffer = ok (Some (a, msg))" "is_data_indication txid msg"
    using handle_net_result [OF assms, of E] by (auto simp: net_result_def split: option.splits)
  then show ?thesis using data_indication_take [OF m(2)] 
    by (intro that(2) [of "take (20 + unat (length_of msg)) msg"]) (auto simp: tun_recv_def Let_def)
qed (use that(1) in \<open>simp add: tun_recv_def\<close>)

lemma tun_recv_packet:
  assumes "carries_udp E sender receiver data packet" and "length data \<le> 65504"
    and "4 dvd length (packet @ slack)" and "length txid = 12"
  obtains d x y where
    "tun_recv E N ms txid (length packet) (packet @ slack) =
       ok [ToSocket d (SocketAddr (IpV6 (apply_mappings (to_udp N) ms (v6_ip receiver))) (v6_port receiver))]"
    "is_data_indication txid d" "attrs d = ok [x, y]"
    "item_typ x = XOR_PEER_ADDRESS" "decoded (sockaddr_decode True) x = Some (sa_of_v6 sender)"
    "item_typ y = DATA" "item_bytes y = data"
proof -
  obtain msg x y where m: "handle_net E txid (length packet) (packet @ slack) = ok (Some (receiver, msg))"
    "is_data_indication txid msg" "attrs msg = ok [x, y]"
    "item_typ x = XOR_PEER_ADDRESS" "decoded (sockaddr_decode True) x = Some (sa_of_v6 sender)"
    "item_typ y = DATA" "item_bytes y = data"
    using assms by (rule handle_net_packet)
  then show thesis
    using data_indication_take [OF m(2)]
    by (intro that [of "take (20 + unat (length_of msg)) msg"]) (auto simp: tun_recv_def Let_def)
qed

lemma udp_loop_total:
  assumes "\<forall>(len, sender, buffer) \<in> set recvs. 100 \<le> length buffer \<and> len \<le> length buffer"
  shows "udp_loop E N ms recvs \<noteq> panic"
  using assms
proof (induction recvs)
  case (Cons r recvs)
  obtain len sender buffer where r: "r = (len, sender, buffer)" by (cases r)
  then have "100 \<le> length buffer" "len \<le> length buffer" using Cons.prems by auto
  then obtain out where "udp_recv E N ms len sender buffer = ok out"
    using udp_recv_cases [of buffer len E N ms sender] by blast
  then show ?case using Cons by (auto simp: r)
qed simp

lemma tun_loop_total:
  assumes "\<forall>(txid, len, buffer) \<in> set recvs. 40 \<le> length buffer \<and> 4 dvd length buffer \<and> len \<le> length buffer \<and> length txid = 12"
  shows "tun_loop E N ms recvs \<noteq> panic"
  using assms
proof (induction recvs)
  case (Cons r recvs)
  obtain txid len buffer where r: "r = (txid, len, buffer)" by (cases r)
  then have "40 \<le> length buffer" "4 dvd length buffer" "len \<le> length buffer" "length txid = 12"
    using Cons.prems by auto
  then obtain out where "tun_recv E N ms txid len buffer = ok out"
    using tun_recv_total [of buffer len txid E N ms] by blast
  then show ?case using Cons by (auto simp: r)
qed simp

lemma to_canonical_mapped: "to_canonical (IpV6 (to_ipv6_mapped v4)) = IpV4 v4"
proof -
  have "drop_bit 32 (to_ipv6_mapped v4) = 0xFFFF"
  proof (rule bit_word_eqI)
    fix n :: nat
    show "bit (drop_bit 32 (to_ipv6_mapped v4)) n \<longleftrightarrow> bit (0xFFFF :: u128) n" if "n < LENGTH(128)"
    proof -
      have "\<not> bit v4 (32 + n)" using bit_imp_le_length [of v4 "32 + n"] by auto
      then show ?thesis using that
        by (auto simp: to_ipv6_mapped_def bit_simps)
    qed
  qed
  moreover have "ucast (to_ipv6_mapped v4) = v4"
    by (rule bit_word_eqI) (auto simp: to_ipv6_mapped_def bit_simps simp del: push_bit_numeral)
  ultimately show ?thesis by simp
qed

section \<open>Packets for the network\<close>

lemma udp_recv_source:
  assumes "bitfield_ok E" and "20 \<le> length buffer" and "len \<le> length buffer"
    and "udp_recv E N ms len sender buffer = ok out" and "ToTun packet \<in> set out"
  shows "\<exists>peer d. is_udp_packet E (relayed_of N ms sender) peer d packet"
proof -
  obtain r sent where h: "handle_turn E (canonical_of sender) (relayed_of N ms sender) buffer = ok (r, sent)" "packet \<in> set sent"
    using assms(4,5) by (auto simp: udp_recv_eq [OF assms(3)] bind_eq_Some_conv split: if_splits option.splits)
  show ?thesis by (rule handle_turn_source [OF assms(1,2) h])
qed

lemma tun_recv_source: "tun_recv E N ms txid len buffer = ok out \<Longrightarrow> ToTun packet \<notin> set out"
  by (auto simp: tun_recv_def bind_eq_Some_conv Let_def split: option.splits)

lemma udp_loop_source:
  assumes "bitfield_ok E" and "udp_loop E N ms recvs = ok out" and "ToTun packet \<in> set out"
    and "\<forall>(len, sender, buffer) \<in> set recvs. length buffer = 65536 \<and> len \<le> 65536"
  shows "\<exists>sender \<in> set (map (\<lambda>(len, sender, buffer). sender) recvs).
    \<exists>peer d. is_udp_packet E (relayed_of N ms sender) peer d packet"
  using assms(2-4)
proof (induction recvs arbitrary: out)
  case (Cons r recvs)
  obtain len sender buffer where r: "r = (len, sender, buffer)" by (cases r)
  obtain out1 out2 where o: "udp_recv E N ms len sender buffer = ok out1" "udp_loop E N ms recvs = ok out2" "out = out1 @ out2"
    using Cons.prems(1) by (auto simp: r bind_eq_Some_conv)
  show ?case
  proof (cases "ToTun packet \<in> set out1")
    case True
    have "length buffer = 65536" "len \<le> 65536" using Cons.prems(3) by (simp_all add: r)
    with udp_recv_source [OF assms(1) _ _ o(1) True] show ?thesis by (simp add: r)
  next
    case False
    then show ?thesis using Cons.IH [OF o(2)] Cons.prems o(3) by auto
  qed
qed simp

lemma tun_loop_source: "tun_loop E N ms recvs = ok out \<Longrightarrow> ToTun packet \<notin> set out"
proof (induction recvs arbitrary: out)
  case (Cons r recvs)
  then show ?case by (cases r) (auto simp: bind_eq_Some_conv dest: tun_recv_source)
qed simp

text \<open>What a run may be given, and that its packets come from clients that were heard.\<close>

fun recv_event_ok :: "event \<Rightarrow> bool" where
  "recv_event_ok (UdpReady recvs) = (\<forall>(len, sender, buffer) \<in> set recvs. length buffer = 65536 \<and> len \<le> 65536)"
| "recv_event_ok (TunReady recvs) =
     (\<forall>(txid, len, buffer) \<in> set recvs. length buffer = 65536 \<and> len \<le> 65536 \<and> length txid = 12)"

fun senders :: "event list \<Rightarrow> socket_addr list" where
  "senders [] = []"
| "senders (UdpReady recvs # es) = map (\<lambda>(len, sender, buffer). sender) recvs @ senders es"
| "senders (TunReady recvs # es) = senders es"

lemma udp_server_total: "list_all recv_event_ok es \<Longrightarrow> \<exists>out. udp_server E N ms es = ok out"
proof (induction es)
  case (Cons e es)
  then obtain out where o: "udp_server E N ms es = ok out" by auto
  show ?case
  proof (cases e)
    case (UdpReady recvs)
    then have "udp_loop E N ms recvs \<noteq> panic" using Cons.prems by (intro udp_loop_total) auto
    with o UdpReady show ?thesis by auto
  next
    case (TunReady recvs)
    then have "tun_loop E N ms recvs \<noteq> panic" using Cons.prems by (intro tun_loop_total) auto
    with o TunReady show ?thesis by auto
  qed
qed simp

lemma udp_server_source:
  assumes "bitfield_ok E" and "list_all recv_event_ok es" and "udp_server E N ms es = ok out" and "ToTun packet \<in> set out"
  shows "\<exists>sender \<in> set (senders es). \<exists>peer d. is_udp_packet E (relayed_of N ms sender) peer d packet"
  using assms(2-4)
proof (induction es arbitrary: out rule: senders.induct)
  case (2 recvs es)
  obtain out1 out2 where o: "udp_loop E N ms recvs = ok out1" "udp_server E N ms es = ok out2" "out = out1 @ out2"
    using "2.prems"(2) by (auto simp: bind_eq_Some_conv)
  show ?case
  proof (cases "ToTun packet \<in> set out1")
    case True
    have "list_all recv_event_ok [UdpReady recvs]" using "2.prems"(1) by simp
    then show ?thesis using udp_loop_source [OF assms(1) o(1) True] unfolding senders.simps set_append by simp blast
  next
    case False
    then show ?thesis using "2.IH" [OF _ o(2)] "2.prems" o(3) by auto
  qed
next
  case (3 recvs es)
  obtain out1 out2 where o: "tun_loop E N ms recvs = ok out1" "udp_server E N ms es = ok out2" "out = out1 @ out2"
    using "3.prems"(2) by (auto simp: bind_eq_Some_conv)
  then show ?case using "3.IH" [OF _ o(2)] "3.prems" tun_loop_source [OF o(1)] by auto
qed simp

end
