(* ===== verification/Udp_Properties.thy ===== *)
theory Udp_Properties
  imports Turn_Udp Samples
begin

text \<open>The properties of the UDP server, with a small instance of the subnet functions.\<close>

section \<open>An instance of the subnet functions\<close>

text \<open>A subnet is a prefix length and an address; lengths above 128 count as 128.\<close>

definition sample_prefix :: "byte \<times> u128 \<Rightarrow> byte" where
  "sample_prefix n = (if fst n \<le> 128 then fst n else 128)"

definition sample_hostmask :: "byte \<times> u128 \<Rightarrow> u128" where
  "sample_hostmask n = mask (128 - unat (sample_prefix n))"

definition sample_net :: "(byte \<times> u128) ipnet" where
  "sample_net = \<lparr>net_from_str = (\<lambda>s. case s of [] \<Rightarrow> None | b # _ \<Rightarrow> Some (96, push_bit 112 (0xFE1E + ucast b))),
     prefix_len = sample_prefix, network = (\<lambda>n. snd n AND NOT (sample_hostmask n)),
     hostmask = sample_hostmask,
     contains = (\<lambda>n a. a AND NOT (sample_hostmask n) = snd n AND NOT (sample_hostmask n)),
     ip_bitand = (AND), ip_bitor = (OR)\<rparr>"

lemma sample_net_ok: "ipnet_ok sample_net"
proof -
  have "unat (sample_prefix n) \<le> 128" for n
    by (simp add: sample_prefix_def word_le_nat_alt)
  moreover have "(x AND NOT h) AND h = 0" for x h :: u128
    by (rule bit_word_eqI) (simp add: bit_simps)
  ultimately show ?thesis
    by (simp add: ipnet_ok_def sample_net_def sample_hostmask_def)
qed

text \<open>The table \<^verbatim>\<open>a<->b\<close> maps \<^verbatim>\<open>fe7f::/96\<close> to \<^verbatim>\<open>fe80::/96\<close>.\<close>

definition sample_mappings :: "(byte \<times> u128) net_mapping list" where
  "sample_mappings = [\<lparr>map_udp = (96, push_bit 112 0xFE7F), map_tun = (96, push_bit 112 0xFE80)\<rparr>]"

lemma sample_parse: "parse_mappings sample_net (str_lit ''a<->b'') = Inr sample_mappings"
  by (simp add: parse_mappings_def str_lit_def of_char_of mapping_from_str_def sample_net_def
      sample_prefix_def sample_mappings_def split: list.splits)

lemma sample_hit:
  "contains sample_net (map_udp (hd sample_mappings)) (0xFE7F0000000000000000000000000001)"
  "apply_mappings (to_net sample_net) sample_mappings (0xFE7F0000000000000000000000000001) = 0xFE800000000000000000000000000001"
  by (simp_all add: sample_net_def sample_mappings_def sample_hostmask_def sample_prefix_def to_net_def
      push_bit_eq_mult mask_eq_exp_minus_1)

lemma binding_decodes: "decode binding_request 20 = ok (Inr ())"
  by (simp add: decode_Inr sample_types sample_length_fields sample_cookies)

section \<open>Properties\<close>

text \<open>
  C27. Address mappings can be undone: with the table that the program accepts on its command line, whose
  network-side subnets are disjoint, an address in one of the UDP-side subnets that is mapped to the
  network side is mapped back to itself.
\<close>

theorem mappings_roundtrip:
  assumes "ipnet_ok N" and "parse_mappings N s = Inr ms"
    and "sorted_wrt (\<lambda>m m'. \<forall>b. \<not> (contains N (map_tun m) b \<and> contains N (map_tun m') b)) ms"
    and "\<exists>m \<in> set ms. contains N (map_udp m) a"
  shows "apply_mappings (to_udp N) ms (apply_mappings (to_net N) ms a) = a"
proof -
  have "exclusive (to_udp N) ms" using assms(3) by (simp add: exclusive_def)
  moreover have "\<exists>m \<in> set ms. snd (to_net N m a)" using assms(4) by simp
  ultimately show ?thesis
    using net_map.apply_undo [of ms N a] parse_mappings_ok [OF assms(1,2)] by blast
qed

theorem mappings_roundtrip_witness:
  "apply_mappings (to_udp sample_net) sample_mappings
    (apply_mappings (to_net sample_net) sample_mappings (0xFE7F0000000000000000000000000001)) = 0xFE7F0000000000000000000000000001"
  by (rule mappings_roundtrip [OF sample_net_ok sample_parse])
    (use sample_hit in \<open>simp_all add: sample_mappings_def\<close>)

text \<open>
  C13. The UDP server as a whole. An argument that is no list of mappings ends it with that error; otherwise, for any sequence
  of events, whatever datagrams and packets were received and whatever its 65536-byte buffer held before, it does not
  panic, and every packet it sends to the network has as its source the relayed address of a client whose datagram it received.
\<close>

theorem udp_main_safe:
  assumes "bitfield_ok E" and "list_all recv_event_ok es"
  shows "case parse_mappings N arg of
      Inl e \<Rightarrow> udp_main E N arg es = ok (Inl e)
    | Inr ms \<Rightarrow> (\<exists>out. udp_main E N arg es = ok (Inr out) \<and>
        (\<forall>packet. ToTun packet \<in> set out \<longrightarrow>
          (\<exists>sender \<in> set (senders es). \<exists>peer d. is_udp_packet E (relayed_of N ms sender) peer d packet)))"
proof (cases "parse_mappings N arg")
  case (Inr ms)
  obtain out where o: "udp_server E N ms es = ok out" using udp_server_total [OF assms(2)] by blast
  then have "udp_main E N arg es = ok (Inr out)" by (simp add: udp_main_def Inr)
  then show ?thesis using udp_server_source [OF assms o] by (simp add: Inr)
qed (simp add: udp_main_def)

theorem udp_main_safe_witness:
  "\<exists>out. udp_main sample_extern sample_net (str_lit ''a<->b'')
    [UdpReady [(20, sample_canonical, replicate 65536 1)], TunReady [(sample_txid, 48, replicate 65536 0x60)]] = ok (Inr out)"
  using udp_main_safe [OF sample_bitfield, of "[UdpReady [(20, sample_canonical, replicate 65536 1)],
      TunReady [(sample_txid, 48, replicate 65536 0x60)]]" sample_net "str_lit ''a<->b''"]
  by (auto simp: sample_parse)

text \<open>
  C17. What the server puts on the UDP socket for a datagram: at most one datagram, only for a request that decodes,
  only to the sender of the request, and of at most 100 bytes, so the server is no amplifier; the datagram on
  its own is a STUN response to the request.
\<close>

theorem udp_answers_sender:
  assumes "100 \<le> length buffer" and "len \<le> length buffer"
    and "udp_recv E N ms len sender buffer = ok out" and "ToSocket d receiver \<in> set out"
  shows "out = [ToSocket d receiver] \<and> receiver = sender \<and> decode buffer len = ok (Inr ()) \<and>
    class_of buffer = Request \<and> length d \<le> 100 \<and>
    (\<exists>cls key vs. cls \<in> {Success, Error} \<and> reply_datagram E key buffer cls vs d)"
proof -
  have dec: "decode buffer len = ok (Inr ())"
    using assms(3,4) by (auto simp: udp_recv_eq [OF assms(2)] split: if_splits)
  obtain items where "attrs buffer = ok items"
    "(\<exists>sent. udp_recv E N ms len sender buffer = ok (map ToTun sent)) \<or>
     (\<exists>cls vs d. turn_spec E (canonical_of sender) (relayed_of N ms sender) (turn_attrs_of items)
          (class_of buffer) (method_of buffer) = Respond cls vs \<and>
        udp_recv E N ms len sender buffer = ok [ToSocket d sender] \<and>
        reply_datagram E (udp_key E items) buffer cls vs d)"
    using assms(1,2) by (rule udp_recv_cases)
  then obtain cls vs where spec: "turn_spec E (canonical_of sender) (relayed_of N ms sender) (turn_attrs_of items)
        (class_of buffer) (method_of buffer) = Respond cls vs"
      "out = [ToSocket d receiver]" "receiver = sender" "reply_datagram E (udp_key E items) buffer cls vs d"
    using assms(3,4) by auto
  then have "length d \<le> 100" using turn_spec_fits [OF spec(1)] by (simp add: reply_datagram_def)
  then show ?thesis using spec dec turn_spec_request [OF spec(1)] by blast
qed

theorem udp_answers_sender_witness:
  "\<exists>d. udp_recv sample_extern sample_net sample_mappings 20 sample_canonical binding_request =
      ok [ToSocket d sample_canonical] \<and> length d \<le> 100"
proof -
  obtain d where d: "udp_recv sample_extern sample_net sample_mappings 20 sample_canonical binding_request =
      ok [ToSocket d sample_canonical]"
    using udp_recv_respond [OF _ _ binding_decodes binding_request_attrs,
        of sample_extern sample_canonical sample_net sample_mappings]
    by (auto simp: sample_class_method turn_spec_def sample_txids sample_txid_nonzero)
  from udp_answers_sender [OF _ _ d, of d sample_canonical] have "length d \<le> 100" by simp
  with d show ?thesis by blast
qed

text \<open>
  C18. A Binding request is answered with the address it came from: the success response
  goes to the sender and its one attribute is XOR-MAPPED-ADDRESS, the sender's address in canonical form; for an IPv4 client on the
  dual-stack socket, whose address the system reports as an IPv4-mapped IPv6 address, it is the IPv4 address.
\<close>

theorem udp_binding_reports_address:
  assumes "100 \<le> length buffer" and "len \<le> length buffer" and "decode buffer len = ok (Inr ())"
    and "class_of buffer = Request" and "method_of buffer = Binding" and "txid_of buffer \<noteq> replicate 12 0"
  shows "\<exists>d x. udp_recv E N ms len sender buffer = ok [ToSocket d sender] \<and>
    decode d (length d) = ok (Inr ()) \<and> get_class d = ok Success \<and> get_txid d = get_txid buffer \<and>
    attrs d = ok [x] \<and> item_typ x = XOR_MAPPED_ADDRESS \<and>
    decoded (sockaddr_decode True) x = Some (case sender of
        SocketAddr ip port \<Rightarrow> SocketAddr (to_canonical ip) port) \<and>
    (\<forall>v4 port. sender = SocketAddr (IpV6 (to_ipv6_mapped v4)) port \<longrightarrow>
      decoded (sockaddr_decode True) x = Some (SocketAddr (IpV4 v4) port))"
proof -
  obtain items where items: "attrs buffer = ok items" using attrs_items [of buffer] by blast
  let ?c = "canonical_of sender"
  have "turn_spec E ?c (relayed_of N ms sender) (turn_attrs_of items) (class_of buffer) (method_of buffer) =
      Respond Success [XorMapped ?c]"
    using assms(4,5) by (simp add: turn_spec_def)
  then obtain d where d: "udp_recv E N ms len sender buffer = ok [ToSocket d sender]"
      "reply_datagram E (udp_key E items) buffer Success [XorMapped ?c] d"
    using udp_recv_respond [OF assms(1-3) items assms(6)] by blast
  then obtain x where x: "attrs d = ok [x]" "item_typ x = XOR_MAPPED_ADDRESS" "decoded (sockaddr_decode True) x = Some ?c"
    by (auto simp: reply_datagram_def list_all2_Cons1 split: option.splits)
  have c: "?c = (case sender of SocketAddr ip port \<Rightarrow> SocketAddr (to_canonical ip) port)"
    by (cases sender) (simp add: canonical_of_def)
  have "sender = SocketAddr (IpV6 (to_ipv6_mapped v4)) port \<Longrightarrow> ?c = SocketAddr (IpV4 v4) port" for v4 port
    using to_canonical_mapped [of v4] by (simp add: canonical_of_def del: to_canonical.simps)
  then show ?thesis using d x c unfolding reply_datagram_def by metis
qed

theorem udp_binding_reports_address_witness:
  "\<exists>d x. udp_recv sample_extern sample_net sample_mappings 20 (SocketAddr (IpV6 (to_ipv6_mapped 0x01020304)) 9) binding_request =
      ok [ToSocket d (SocketAddr (IpV6 (to_ipv6_mapped 0x01020304)) 9)] \<and>
    attrs d = ok [x] \<and> decoded (sockaddr_decode True) x = Some (SocketAddr (IpV4 0x01020304) 9)"
  using udp_binding_reports_address [OF _ _ binding_decodes, of sample_extern sample_net sample_mappings
      "SocketAddr (IpV6 (to_ipv6_mapped 0x01020304)) 9"]
  by (simp add: sample_class_method sample_txids sample_txid_nonzero del: split_paired_Ex to_canonical.simps) blast

text \<open>
  C4. The server connects its clients. Alice sends a Send indication for the relayed address that the server gives to
  Bob, whose address lies in one of the mapped subnets. The server emits one packet to the network and, when
  the network routes it back, sends one datagram to Bob's own UDP address: a Data indication with Alice's
  relayed address as XOR-PEER-ADDRESS and Alice's data.
\<close>

theorem udp_relay_end_to_end:
  assumes "bitfield_ok E" and "ipnet_ok N" and "parse_mappings N s = Inr ms"
    and "sorted_wrt (\<lambda>m m'. \<forall>b. \<not> (contains N (map_tun m) b \<and> contains N (map_tun m') b)) ms"
    and "\<exists>m \<in> set ms. contains N (map_udp m) (mapped_of bob)"
    and "20 \<le> length buffer" and "len \<le> length buffer" and "decode buffer len = ok (Inr ())"
    and "txid_of buffer \<noteq> replicate 12 0" and "attrs buffer = ok items"
    and "class_of buffer = Indication" and "method_of buffer = Send"
    and a: "a = turn_attrs_of items" "ta_unknown a = None"
      "ta_xor_peer a = Some (sa_of_v6 (relayed_of N ms bob))" "ta_data a = Some (ptr, d)"
    and "48 + length d \<le> length buffer" and "length d \<le> 65504" and "length txid = 12"
  shows "\<exists>packet. udp_recv E N ms len alice buffer = ok [ToTun packet] \<and>
    (\<forall>slack. 4 dvd length (packet @ slack) \<longrightarrow>
      (\<exists>ind x y. tun_recv E N ms txid (length packet) (packet @ slack) =
          ok [ToSocket ind (SocketAddr (IpV6 (mapped_of bob)) (sa_port bob))] \<and>
        is_data_indication txid ind \<and> attrs ind = ok [x, y] \<and>
        item_typ x = XOR_PEER_ADDRESS \<and> decoded (sockaddr_decode True) x = Some (sa_of_v6 (relayed_of N ms alice)) \<and>
        item_typ y = DATA \<and> item_bytes y = d))"
proof -
  let ?bob = "relayed_of N ms bob"
  have peer: "ta_xor_peer a = Some (SocketAddr (IpV6 (v6_ip ?bob)) (v6_port ?bob))"
    using a(3) by (simp add: sa_of_v6_def)
  obtain packet where p: "handle_turn E (canonical_of alice) (relayed_of N ms alice) buffer = ok (None, [packet])"
      "is_udp_packet E (relayed_of N ms alice) (v6_addr (v6_ip ?bob) (v6_port ?bob)) d packet"
    using assms(1,6,9-12) a(1,2) peer a(4) assms(17) by (rule handle_turn_send)
  have "exclusive (to_udp N) ms" using assms(4) by (simp add: exclusive_def)
  moreover have "\<exists>m \<in> set ms. snd (to_net N m (mapped_of bob))" using assms(5) by simp
  ultimately have undo: "apply_mappings (to_udp N) ms (v6_ip ?bob) = mapped_of bob"
    using net_map.apply_undo [of ms N "mapped_of bob"] parse_mappings_ok [OF assms(2,3)]
    by (simp add: relayed_of_def v6_addr_def)
  have v6_fields: "v6_ip (v6_addr (v6_ip ?bob) (v6_port ?bob)) = v6_ip ?bob"
      "v6_port (v6_addr (v6_ip ?bob) (v6_port ?bob)) = sa_port bob"
    by (simp_all add: relayed_of_def v6_addr_def)
  have "\<exists>ind x y. tun_recv E N ms txid (length packet) (packet @ slack) =
          ok [ToSocket ind (SocketAddr (IpV6 (mapped_of bob)) (sa_port bob))] \<and>
        is_data_indication txid ind \<and> attrs ind = ok [x, y] \<and>
        item_typ x = XOR_PEER_ADDRESS \<and> decoded (sockaddr_decode True) x = Some (sa_of_v6 (relayed_of N ms alice)) \<and>
        item_typ y = DATA \<and> item_bytes y = d" if "4 dvd length (packet @ slack)" for slack
    using is_udp_packet_carries [OF p(2)] assms(18) that assms(19)
    by (rule tun_recv_packet [where N = N and ms = ms]) (unfold v6_fields undo, blast)
  moreover have "udp_recv E N ms len alice buffer = ok [ToTun packet]"
    using p(1) assms(8) by (simp add: udp_recv_eq [OF assms(7)])
  ultimately show ?thesis by blast
qed

definition sample_bob :: socket_addr where
  "sample_bob = SocketAddr (IpV6 0xFE7F0000000000000000000000000001) 0x9234"

lemma sample_bob_relayed:
  "relayed_of sample_net sample_mappings sample_bob = v6_addr 0xFE800000000000000000000000000001 0x9234"
  by (simp add: relayed_of_def sample_bob_def mapped_of_def sample_hit)

theorem udp_relay_end_to_end_witness:
  "\<exists>packet. udp_recv sample_extern sample_net sample_mappings 56 sample_canonical send_indication = ok [ToTun packet] \<and>
    (\<forall>slack. 4 dvd length (packet @ slack) \<longrightarrow>
      (\<exists>ind x y. tun_recv sample_extern sample_net sample_mappings sample_txid (length packet) (packet @ slack) =
          ok [ToSocket ind sample_bob] \<and> attrs ind = ok [x, y] \<and> item_bytes y = hello))"
proof -
  have bob: "SocketAddr (IpV6 (mapped_of sample_bob)) (sa_port sample_bob) = sample_bob"
    by (simp add: sample_bob_def mapped_of_def)
  have "decode send_indication 56 = ok (Inr ())"
    by (simp add: decode_Inr sample_types sample_length_fields sample_cookies)
  from udp_relay_end_to_end [OF sample_bitfield sample_net_ok sample_parse, where bob = sample_bob,
      OF _ _ _ _ this _ send_attrs _ _ refl, where alice = sample_canonical and txid = sample_txid and d = hello and ptr = 48]
  show ?thesis
    unfolding bob using sample_hit(1)
    by (simp add: send_turn_attrs sample_class_method sample_txids sample_txid_nonzero hello_def
        sample_bob_relayed sa_of_v6_def v6_addr_def del: split_paired_Ex)
      (simp add: sample_mappings_def sample_bob_def mapped_of_def del: split_paired_Ex, blast)
qed

end
