(* ===== verification/Addr_Order.thy ===== *)
theory Addr_Order
  imports Prelude
begin

text \<open>
  The order of socket addresses, as \<^verbatim>\<open>SocketAddrV6\<close> derives it: by address, then by port. It is the order of the
  keys of the DTLS proxy's table and of the connections of the TCP server.
\<close>

instantiation socket_addr_v6_ext :: (linorder) linorder
begin

definition less_eq_socket_addr_v6_ext :: "'a socket_addr_v6_scheme \<Rightarrow> 'a socket_addr_v6_scheme \<Rightarrow> bool" where
  "less_eq_socket_addr_v6_ext a b \<longleftrightarrow> v6_ip a < v6_ip b \<or> v6_ip a = v6_ip b \<and>
     (v6_port a < v6_port b \<or> v6_port a = v6_port b \<and> socket_addr_v6.more a \<le> socket_addr_v6.more b)"

definition less_socket_addr_v6_ext :: "'a socket_addr_v6_scheme \<Rightarrow> 'a socket_addr_v6_scheme \<Rightarrow> bool" where
  "less_socket_addr_v6_ext a b \<longleftrightarrow> a \<le> b \<and> \<not> b \<le> a"

instance
  by intro_classes (auto simp: less_eq_socket_addr_v6_ext_def less_socket_addr_v6_ext_def)

end

datatype ordering = Less | Equal | Greater

definition ord_cmp :: "'a::linorder \<Rightarrow> 'a \<Rightarrow> ordering" where
  "ord_cmp a b = (if a < b then Less else if a = b then Equal else Greater)"

fun reverse :: "ordering \<Rightarrow> ordering" where
  "reverse Less = Greater"
| "reverse Equal = Equal"
| "reverse Greater = Less"

lemma ord_cmp_laws:
  "ord_cmp a b = Equal \<longleftrightarrow> a = b" "ord_cmp b a = reverse (ord_cmp a b)"
  "ord_cmp a b = Less \<Longrightarrow> ord_cmp b c = Less \<Longrightarrow> ord_cmp a c = Less"
  by (auto simp: ord_cmp_def split: if_splits)

end
