(* ===== verification/Turn_Tcp.thy ===== *)
theory Turn_Tcp
  imports Turn_Server Subnets Addr_Order
begin

text \<open>
  \<^verbatim>\<open>src/bin/turnserver-tcp.rs\<close>: the TURN server over TCP. A connection is known by its key in the
  slab; the key determines the relayed address (\<open>from_index\<close>) and back (\<open>to_index\<close>).

  What the system calls return is input: a write takes its result from a list (\<open>io_write\<close>), and
  what reached the wire is the part of the bytes that the result says was written; when the list
  ends inside a loop the loop is still running (\<open>Wait\<close>). \<open>Cleanup\<close> is the path that removes the
  connection, \<open>Fail\<close> an early return of \<^verbatim>\<open>main\<close> with an error. The slab is a map; the key
  of a vacant entry, chosen by the slab, is an argument of \<open>accept\<close>. The target has 64-bit \<^verbatim>\<open>usize\<close>.
\<close>

section \<open>The program\<close>

definition min_prefix_len :: u32 where
  "min_prefix_len = 128 - (64 - 15)"

definition mapping_new :: "('net, 'x) ipnet_scheme \<Rightarrow> 'net \<Rightarrow> 'net option" where
  "mapping_new N subnet = (if min_prefix_len > ucast (prefix_len N subnet) then None else Some subnet)"

definition from_index :: "('net, 'x) ipnet_scheme \<Rightarrow> 'net \<Rightarrow> u64 \<Rightarrow> socket_addr_v6 option" where
  "from_index N subnet idx =
    (let port = ucast ((idx AND 0x7fff) OR 0x8000);
         host = drop_bit 15 (ucast idx :: u128);
         ip = network N subnet OR host in
     if \<not> contains N subnet ip then None else Some (v6_addr ip port))"

definition to_index :: "('net, 'x) ipnet_scheme \<Rightarrow> 'net \<Rightarrow> socket_addr_v6 \<Rightarrow> u64 option" where
  "to_index N subnet addr =
    (if \<not> contains N subnet (v6_ip addr) then None
     else let host = v6_ip addr AND hostmask N subnet;
              ret = push_bit 15 host OR ucast (0x7FFF AND v6_port addr) in
          Some (ucast ret))"

type_synonym partial = "(nat \<times> buf) option"

record conn =
  conn_relayed :: socket_addr_v6
  conn_partial :: partial

text \<open>Connections are compared by their relayed addresses.\<close>

definition conn_eq :: "conn \<Rightarrow> conn \<Rightarrow> bool" where
  "conn_eq c c' \<longleftrightarrow> conn_relayed c = conn_relayed c'"

definition conn_cmp :: "conn \<Rightarrow> conn \<Rightarrow> ordering" where
  "conn_cmp c c' = ord_cmp (conn_relayed c) (conn_relayed c')"

definition conn_partial_cmp :: "conn \<Rightarrow> conn \<Rightarrow> ordering option" where
  "conn_partial_cmp c c' = Some (ord_cmp (conn_relayed c) (conn_relayed c'))"

type_synonym slab = "u64 \<Rightarrow> conn option"

datatype io_write = Wrote nat | WriteBlock | WriteErr
datatype io_peek = Peeked nat buf | PeekBlock | PeekErr
datatype io_read = ReadOk nat buf | ReadErr

datatype verdict = Break | Continue | Cleanup | Fail | Wait

text \<open>Continuing a partial frame, when the stream becomes writable.\<close>

fun flush_partial :: "io_write list \<Rightarrow> partial \<Rightarrow> (verdict \<times> partial \<times> buf) run" where
  "flush_partial ws None = ok (Break, None, [])"
| "flush_partial [] (Some p) = ok (Wait, Some p, [])"
| "flush_partial (w # ws) (Some (offset, buffer)) = do {
     assert (offset \<le> length buffer);
     let rest = drop offset buffer;
     case w of
       Wrote written \<Rightarrow>
         if written \<ge> length rest then ok (Break, None, rest)
         else do {
           (v, p, out) \<leftarrow> flush_partial ws (Some (offset + written, buffer));
           ok (v, p, take written rest @ out) }
     | WriteBlock \<Rightarrow> ok (Break, Some (offset, buffer), [])
     | WriteErr \<Rightarrow> ok (Cleanup, None, []) }"

text \<open>Writing a response; \<open>frame\<close> is \<^verbatim>\<open>resp.buffer[..length]\<close>.\<close>

fun write_resp :: "io_write list \<Rightarrow> nat \<Rightarrow> buf \<Rightarrow> partial \<Rightarrow> (verdict \<times> partial \<times> buf) run" where
  "write_resp [] offset frame p = ok (Wait, p, [])"
| "write_resp (w # ws) offset frame p = do {
     assert (offset \<le> length frame);
     let rest = drop offset frame;
     case w of
       Wrote written \<Rightarrow>
         if written \<ge> length rest then ok (Break, p, rest)
         else do {
           (v, p, out) \<leftarrow> write_resp ws (offset + written) frame p;
           ok (v, p, take written rest @ out) }
     | WriteBlock \<Rightarrow> write_resp ws offset frame (Some (0, rest))
     | WriteErr \<Rightarrow> ok (Cleanup, p, []) }"

text \<open>
  One turn of the read loop: peek, decode, read, handle, write the response. The results are the
  verdict, the partial frame, the bytes written to the stream and the packets sent to the network.
\<close>

definition read_turn ::
    "('x) extern_scheme \<Rightarrow> socket_addr_v6 \<Rightarrow> partial \<Rightarrow> io_peek \<times> io_read \<times> io_write list \<Rightarrow>
     (verdict \<times> partial \<times> buf \<times> buf list) run" where
  "read_turn E relayed p = (\<lambda>(peek, read, ws).
    (case peek of
       PeekBlock \<Rightarrow> ok (Break, p, [], [])
     | PeekErr \<Rightarrow> ok (Cleanup, p, [], [])
     | Peeked len buffer \<Rightarrow> do {
         d \<leftarrow> decode buffer len;
         case d of
           Inl (TooShort expected) \<Rightarrow> ok (if expected > length buffer then Cleanup else Break, p, [], [])
         | Inl NotStun \<Rightarrow> ok (Cleanup, p, [], [])
         | Inr _ \<Rightarrow> do {
             len \<leftarrow> stun_len buffer;
             assert (len \<le> length buffer);
             case read of
               ReadErr \<Rightarrow> ok (Fail, p, [], [])
             | ReadOk n buffer \<Rightarrow>
                 if n \<noteq> len then ok (Cleanup, p, [], [])
                 else if p \<noteq> None then ok (Continue, p, [], [])
                 else do {
                   let canonical = sa_of_v6 relayed;
                   (resp, sent) \<leftarrow> handle_turn E canonical relayed buffer;
                   case resp of
                     None \<Rightarrow> ok (Continue, p, [], sent)
                   | Some resp \<Rightarrow> do {
                       len \<leftarrow> stun_len resp;
                       frame \<leftarrow> slice resp 0 len;
                       (v, p, out) \<leftarrow> write_resp ws 0 frame p;
                       ok (if v = Break then Continue else v, p, out, sent) }}}}))"

fun read_loop ::
    "('x) extern_scheme \<Rightarrow> socket_addr_v6 \<Rightarrow> partial \<Rightarrow> (io_peek \<times> io_read \<times> io_write list) list \<Rightarrow>
     (verdict \<times> partial \<times> buf \<times> buf list) run" where
  "read_loop E relayed p [] = ok (Wait, p, [], [])"
| "read_loop E relayed p (t # ts) = do {
     (v, p, out, sent) \<leftarrow> read_turn E relayed p t;
     if v = Continue then do {
       (v, p, out', sent') \<leftarrow> read_loop E relayed p ts;
       ok (v, p, out @ out', sent @ sent') }
     else ok (v, p, out, sent) }"

text \<open>How a handler leaves the table of connections: \<open>Exit\<close> is an error of \<^verbatim>\<open>main\<close>, \<open>Busy\<close> a loop that still runs.\<close>

datatype control = Go slab | Exit | Busy

definition cleanup :: "bool \<Rightarrow> u64 \<Rightarrow> slab \<Rightarrow> control" where
  "cleanup deregister_ok idx streams = (if deregister_ok then Go (streams(idx := None)) else Exit)"

fun settle :: "bool \<Rightarrow> u64 \<Rightarrow> slab \<Rightarrow> conn \<Rightarrow> verdict \<Rightarrow> partial \<Rightarrow> control" where
  "settle deregister_ok idx streams c Cleanup p = cleanup deregister_ok idx streams"
| "settle deregister_ok idx streams c Fail p = Exit"
| "settle deregister_ok idx streams c Wait p = Busy"
| "settle deregister_ok idx streams c _ p = Go (streams(idx \<mapsto> c\<lparr>conn_partial := p\<rparr>))"

definition accept ::
    "('net, 'x) ipnet_scheme \<Rightarrow> 'net \<Rightarrow> bool \<Rightarrow> u64 \<Rightarrow> bool \<Rightarrow> slab \<Rightarrow> control" where
  "accept N subnet nodelay_ok key register_ok streams =
    (if \<not> nodelay_ok then Exit
     else case from_index N subnet key of
       None \<Rightarrow> Go streams
     | Some addr \<Rightarrow>
         if \<not> register_ok then Exit
         else Go (streams(key \<mapsto> \<lparr>conn_relayed = addr, conn_partial = None\<rparr>)))"

text \<open>One packet from the network: the connection it is for, and the bytes written to its stream.\<close>

definition tun_frame ::
    "('e) bitfield_scheme \<Rightarrow> ('net, 'x) ipnet_scheme \<Rightarrow> 'net \<Rightarrow> byte list \<Rightarrow> nat \<Rightarrow> buf \<Rightarrow>
     io_write \<Rightarrow> bool \<Rightarrow> slab \<Rightarrow> (control \<times> (u64 \<times> buf) option) run" where
  "tun_frame E N subnet txid len buffer w deregister_ok streams = do {
     r \<leftarrow> handle_net E txid len buffer;
     case r of None \<Rightarrow> ok (Go streams, None) | Some (receiver, msg) \<Rightarrow>
     (case to_index N subnet receiver of None \<Rightarrow> ok (Go streams, None) | Some idx \<Rightarrow>
     (case streams idx of None \<Rightarrow> ok (Go streams, None) | Some c \<Rightarrow>
      if conn_partial c \<noteq> None then ok (Go streams, None) else do {
      len \<leftarrow> stun_len msg;
      frame \<leftarrow> slice msg 0 len;
      case w of
        Wrote written \<Rightarrow>
          if written < len
          then ok (Go (streams(idx \<mapsto> c\<lparr>conn_partial := Some (0, drop written frame)\<rparr>)), Some (idx, take written frame))
          else ok (Go streams, Some (idx, frame))
      | WriteBlock \<Rightarrow> ok (Go streams, None)
      | WriteErr \<Rightarrow> ok (cleanup deregister_ok idx streams, None) })) }"

record stream_ready =
  read_closed :: bool
  is_error :: bool
  writable :: bool
  readable :: bool

definition stream_event ::
    "('x) extern_scheme \<Rightarrow> u64 \<Rightarrow> stream_ready \<Rightarrow> io_write list \<Rightarrow> (io_peek \<times> io_read \<times> io_write list) list \<Rightarrow>
     bool \<Rightarrow> slab \<Rightarrow> (control \<times> buf \<times> buf list) run" where
  "stream_event E idx e ws turns deregister_ok streams =
    (case streams idx of
       None \<Rightarrow> ok (Go streams, [], [])
     | Some c \<Rightarrow>
         if read_closed e \<or> is_error e then ok (cleanup deregister_ok idx streams, [], [])
         else do {
           (v, p, out) \<leftarrow> (if writable e then flush_partial ws (conn_partial c) else ok (Break, conn_partial c, []));
           if v \<noteq> Break then ok (settle deregister_ok idx streams c v p, out, [])
           else if readable e \<or> is_error e then do {
             (v, p, out', sent) \<leftarrow> read_loop E (conn_relayed c) p turns;
             ok (settle deregister_ok idx streams c v p, out @ out', sent) }
           else ok (settle deregister_ok idx streams c Break p, out, []) })"

section \<open>Keys and relayed addresses\<close>

lemma high_bits:
  assumes "unat (w :: 'a::len word) < 2 ^ k" and "k \<le> n"
  shows "\<not> bit w n"
proof -
  have "take_bit k w = w"
    using assms(1) by (simp add: word_unat_eq_iff unsigned_take_bit_eq take_bit_nat_eq_self)
  then show ?thesis using assms(2) by (metis bit_take_bit_iff not_less)
qed

lemma low_bits:
  assumes "\<And>n. k \<le> n \<Longrightarrow> \<not> bit (w :: 'a::len word) n"
  shows "unat w < 2 ^ k"
proof -
  have "take_bit k w = w" by (rule bit_word_eqI) (use assms in \<open>auto simp: bit_take_bit_iff not_le intro: leI\<close>)
  then have "unat w = take_bit k (unat w)" by (metis unsigned_take_bit_eq)
  then show ?thesis by (metis take_bit_nat_less_exp)
qed

lemma index_host_bits:
  fixes idx :: u64
  shows "n < 128 \<Longrightarrow> bit (drop_bit 15 (ucast idx :: u128)) n \<longleftrightarrow> bit idx (15 + n)"
  using bit_imp_le_length [of idx "15 + n"] by (auto simp: bit_simps)

text \<open>The port is the low 15 bits of the key, with the top bit set.\<close>

lemma index_port_bits:
  fixes idx :: u64
  shows "bit (ucast ((idx AND 0x7fff) OR 0x8000) :: u16) n \<longleftrightarrow> n < 15 \<and> bit idx n \<or> n = 15"
    and "bit (0x7FFF AND (port :: u16)) n \<longleftrightarrow> n < 15 \<and> bit port n"
proof -
  have m: "(0x7fff :: u64) = mask 15" "(0x7FFF :: u16) = mask 15" "(0x8000 :: u64) = push_bit 15 1"
    by (simp_all add: mask_eq_exp_minus_1 push_bit_eq_mult)
  have "bit (0x8000 :: u64) n \<longleftrightarrow> n = 15"
    unfolding m(3) bit_push_bit_iff by (auto simp: bit_1_iff)
  then show "bit (ucast ((idx AND 0x7fff) OR 0x8000) :: u16) n \<longleftrightarrow> n < 15 \<and> bit idx n \<or> n = 15"
    unfolding m(1) by (auto simp: bit_simps)
  show "bit (0x7FFF AND (port :: u16)) n \<longleftrightarrow> n < 15 \<and> bit port n"
    unfolding m by (auto simp: bit_simps)
qed

lemma ret_bits:
  assumes "n < 128"
  shows "bit (push_bit 15 host OR ucast (0x7FFF AND (port :: u16)) :: u128) n \<longleftrightarrow>
    (if n < 15 then bit port n else bit host (n - 15))"
  using assms index_port_bits(2) [of port n]
  by (auto simp: bit_or_iff bit_push_bit_iff bit_ucast_iff dest: bit_imp_le_length)

lemma from_index_to_index:
  assumes N: "ipnet_ok N" and fits: "unat idx < 2 ^ (143 - unat (prefix_len N subnet))"
  shows "\<exists>addr. from_index N subnet idx = Some addr \<and> to_index N subnet addr = Some idx"
proof -
  let ?h = "hostmask N subnet" and ?n = "network N subnet"
  define k where "k = 128 - unat (prefix_len N subnet)"
  have h: "?h = mask k" using ipnet_masks(1) [OF N] by (simp add: k_def)
  have k: "143 - unat (prefix_len N subnet) = 15 + k" using ipnet_masks(4) [OF N, of subnet] by (simp add: k_def)
  have i: "15 + k \<le> n \<Longrightarrow> \<not> bit idx n" for n using high_bits [of idx "15 + k"] fits k by simp
  have net: "bit (?n AND ?h) n = bit (0 :: u128) n" for n using ipnet_masks(2) [OF N, of subnet] by simp
  let ?host = "drop_bit 15 (ucast idx :: u128)"
  let ?ip = "?n OR ?host" and ?port = "ucast ((idx AND 0x7fff) OR 0x8000) :: u16"
  have host: "\<And>n. n < 128 \<Longrightarrow> bit ?host n \<longleftrightarrow> n < k \<and> bit idx (15 + n)"
    using i index_host_bits [of _ idx] by (metis add_le_cancel_left not_le)
  have "?ip AND NOT ?h = ?n"
    by (rule bit_word_eqI) (use net host h in \<open>auto simp: bit_simps\<close>)
  then have c: "contains N subnet ?ip" using ipnet_masks(3) [OF N] by simp
  have ih: "?ip AND ?h = ?host"
    by (rule bit_word_eqI) (use net host h in \<open>auto simp: bit_simps\<close>)
  have "ucast (push_bit 15 ?host OR ucast (0x7FFF AND ?port) :: u128) = idx"
  proof (rule bit_word_eqI)
    fix n :: nat assume "n < LENGTH(64)"
    then have "n < 64" by simp
    then show "bit (ucast (push_bit 15 ?host OR ucast (0x7FFF AND ?port) :: u128) :: u64) n \<longleftrightarrow> bit idx n"
      using ret_bits [of n ?host ?port] index_port_bits(1) [of idx n] index_host_bits [of "n - 15" idx]
      by (cases "n < 15") (simp_all add: bit_ucast_iff)
  qed
  then show ?thesis using c ih by (simp add: from_index_def to_index_def v6_addr_def Let_def)
qed

lemma to_index_from_index:
  assumes N: "ipnet_ok N" and p: "79 \<le> unat (prefix_len N subnet)"
    and to: "to_index N subnet addr = Some idx" and port: "bit (v6_port addr) 15"
  shows "from_index N subnet idx = Some addr"
proof -
  let ?h = "hostmask N subnet" and ?n = "network N subnet" and ?ip = "v6_ip addr" and ?p = "v6_port addr"
  define k where "k = 128 - unat (prefix_len N subnet)"
  have k: "k \<le> 49" using p by (simp add: k_def)
  have h: "?h = mask k" using ipnet_masks(1) [OF N] by (simp add: k_def)
  have c: "?ip AND NOT ?h = ?n" and idx: "idx = ucast (push_bit 15 (?ip AND ?h) OR ucast (0x7FFF AND ?p) :: u128)"
    using to ipnet_masks(3) [OF N, of subnet ?ip] by (simp_all add: to_index_def Let_def split: if_splits)
  have ib: "bit idx n \<longleftrightarrow> n < 64 \<and> (if n < 15 then bit ?p n else bit ?ip (n - 15) \<and> n - 15 < k)" for n
    unfolding idx using ret_bits [of n "?ip AND ?h" ?p] by (auto simp: bit_ucast_iff bit_and_iff h bit_mask_iff)
  have "drop_bit 15 (ucast idx :: u128) = ?ip AND ?h"
    by (rule bit_word_eqI) (use k in \<open>auto simp: index_host_bits ib bit_and_iff h bit_mask_iff\<close>)
  moreover have "?n OR (?ip AND ?h) = ?ip"
    unfolding c [symmetric] by (rule bit_word_eqI) (auto simp: bit_simps)
  moreover have "ucast ((idx AND 0x7fff) OR 0x8000) = ?p"
  proof (rule bit_word_eqI)
    fix n :: nat assume "n < LENGTH(16)"
    then show "bit (ucast ((idx AND 0x7fff) OR 0x8000) :: u16) n \<longleftrightarrow> bit ?p n"
      using port ib [of n] by (auto simp: index_port_bits(1) not_less dest: le_neq_trans)
  qed
  moreover have "contains N subnet ?ip" using to by (simp add: to_index_def split: if_splits)
  ultimately show ?thesis by (simp add: from_index_def Let_def v6_addr_def)
qed

section \<open>Writing frames\<close>

text \<open>\<open>pending\<close>: the bytes of a frame that are still to be written.\<close>

fun pending :: "partial \<Rightarrow> buf" where
  "pending None = []"
| "pending (Some (offset, buffer)) = drop offset buffer"

fun partial_ok :: "partial \<Rightarrow> bool" where
  "partial_ok None = True"
| "partial_ok (Some (offset, buffer)) = (offset \<le> length buffer)"

lemma flush_partial_ok:
  assumes "partial_ok p"
  shows "\<exists>v p' out. flush_partial ws p = ok (v, p', out) \<and> partial_ok p' \<and> v \<in> {Break, Wait, Cleanup} \<and>
    (v \<noteq> Cleanup \<longrightarrow> out @ pending p' = pending p)"
  using assms
proof (induction ws p rule: flush_partial.induct)
  case (3 w ws offset buffer)
  show ?case
  proof (cases w)
    case (Wrote n)
    show ?thesis
    proof (cases "length (drop offset buffer) \<le> n")
      case True
      with Wrote "3.prems" show ?thesis by (simp add: Let_def)
    next
      case False
      then have "partial_ok (Some (offset + n, buffer))" using "3.prems" by simp
      moreover have "assert (offset \<le> length buffer) = ok ()" using "3.prems" by simp
      ultimately obtain v p' out where *: "flush_partial ws (Some (offset + n, buffer)) = ok (v, p', out)"
          "partial_ok p'" "v \<in> {Break, Wait, Cleanup}" "v \<noteq> Cleanup \<longrightarrow> out @ pending p' = drop (offset + n) buffer"
        using "3.IH" [OF _ refl Wrote False] by auto
      have "take n (drop offset buffer) @ drop (offset + n) buffer = drop offset buffer"
        by (metis add.commute append_take_drop_id drop_drop)
      with * False Wrote "3.prems" show ?thesis by (auto simp: Let_def)
    qed
  qed (use "3.prems" in \<open>simp_all add: Let_def\<close>)
qed auto

lemma flush_partial_ends:
  assumes "partial_ok p" and "\<forall>n. Wrote n \<in> set ws \<longrightarrow> 0 < n" and "length (pending p) < length ws"
  shows "\<exists>v p' out. flush_partial ws p = ok (v, p', out) \<and> v \<in> {Break, Cleanup}"
  using assms
proof (induction ws p rule: flush_partial.induct)
  case (3 w ws offset buffer)
  show ?case
  proof (cases w)
    case (Wrote n)
    show ?thesis
    proof (cases "length (drop offset buffer) \<le> n")
      case True
      with Wrote "3.prems" show ?thesis by (simp add: Let_def)
    next
      case False
      have n: "0 < n" using "3.prems"(2) Wrote by auto
      have "partial_ok (Some (offset + n, buffer))" "\<forall>n. Wrote n \<in> set ws \<longrightarrow> 0 < n"
          "length (pending (Some (offset + n, buffer))) < length ws"
        using "3.prems" False n by auto
      moreover have "assert (offset \<le> length buffer) = ok ()" using "3.prems" by simp
      ultimately obtain v p' out where "flush_partial ws (Some (offset + n, buffer)) = ok (v, p', out)" "v \<in> {Break, Cleanup}"
        using "3.IH" [OF _ refl Wrote False] by blast
      with False Wrote "3.prems" show ?thesis by (auto simp: Let_def)
    qed
  qed (use "3.prems" in \<open>simp_all add: Let_def\<close>)
qed auto

lemma flush_partial_done:
  "flush_partial ws p = ok (Break, p', out) \<Longrightarrow> WriteBlock \<notin> set ws \<Longrightarrow> p' = None"
  by (induction ws p arbitrary: out rule: flush_partial.induct)
    (auto simp: Let_def bind_eq_Some_conv split: io_write.splits if_splits)

lemma write_resp_ok:
  assumes "offset \<le> length frame" and "partial_ok p"
  shows "\<exists>v p' out. write_resp ws offset frame p = ok (v, p', out) \<and> partial_ok p' \<and> v \<in> {Break, Wait, Cleanup} \<and>
    (WriteBlock \<notin> set ws \<longrightarrow> p' = p) \<and> (v = Break \<longrightarrow> out = drop offset frame)"
  using assms
proof (induction ws offset frame p rule: write_resp.induct)
  case (2 w ws offset frame p)
  have a: "assert (offset \<le> length frame) = ok ()" using "2.prems" by simp
  show ?case
  proof (cases w)
    case (Wrote n)
    show ?thesis
    proof (cases "length (drop offset frame) \<le> n")
      case True
      with Wrote "2.prems" show ?thesis by (simp add: Let_def)
    next
      case False
      then obtain v p' out where *: "write_resp ws (offset + n) frame p = ok (v, p', out)" "partial_ok p'"
          "v \<in> {Break, Wait, Cleanup}" "WriteBlock \<notin> set ws \<longrightarrow> p' = p" "v = Break \<longrightarrow> out = drop (offset + n) frame"
        using "2.IH"(1) [OF a refl Wrote False _ "2.prems"(2)] by fastforce
      have "take n (drop offset frame) @ drop (offset + n) frame = drop offset frame"
        by (metis add.commute append_take_drop_id drop_drop)
      with * False Wrote "2.prems" show ?thesis by (auto simp: Let_def)
    qed
  next
    case WriteBlock
    then show ?thesis using "2.IH"(2) [OF a refl WriteBlock] "2.prems" by (auto simp: Let_def)
  qed (use "2.prems" in \<open>simp_all add: Let_def\<close>)
qed auto

section \<open>Reading messages\<close>

text \<open>What the system may return: both calls fill the same buffer of at least 100 bytes.\<close>

fun turn_ok :: "io_peek \<times> io_read \<times> io_write list \<Rightarrow> bool" where
  "turn_ok (peek, read, ws) \<longleftrightarrow>
     (case peek of Peeked len buffer \<Rightarrow> 100 \<le> length buffer \<and> len \<le> length buffer | _ \<Rightarrow> True) \<and>
     (case read of ReadOk n buffer \<Rightarrow> 100 \<le> length buffer | _ \<Rightarrow> True)"

lemma read_turn_ok:
  assumes "turn_ok t" and "partial_ok p"
  shows "\<exists>v p' out sent. read_turn E addr p t = ok (v, p', out, sent) \<and> partial_ok p'"
proof -
  obtain peek read ws where t: "t = (peek, read, ws)" by (cases t)
  show ?thesis
  proof (cases peek)
    case (Peeked len buffer)
    then have b: "100 \<le> length buffer" "len \<le> length buffer" using assms(1) by (simp_all add: t)
    show ?thesis
    proof (cases "decode buffer len = ok (Inr ())")
      case True
      then have n: "stun_len buffer = ok (20 + unat (length_of buffer))" "20 + unat (length_of buffer) \<le> length buffer"
        using b by (auto simp: stun_len_def decode_Inr)
      show ?thesis
      proof (cases read)
        case (ReadOk n buffer')
        then have b': "100 \<le> length buffer'" using assms(1) by (simp add: t)
        have h: "(\<exists>sent. handle_turn E (sa_of_v6 addr) addr buffer' = ok (None, sent)) \<or>
            (\<exists>r n. handle_turn E (sa_of_v6 addr) addr buffer' = ok (Some r, []) \<and> stun_len r = ok n \<and> n \<le> length r)"
          by (rule handle_turn_cases [OF b', of E "sa_of_v6 addr" addr]) (auto simp: is_reply_def stun_len_def)
        note eqs = t Peeked read_turn_def True n ReadOk Let_def
        show ?thesis
        proof (cases "n = 20 + unat (length_of buffer) \<and> p = None")
          case go: True
          from h show ?thesis
          proof (elim disjE exE conjE)
            fix r k
            assume r: "handle_turn E (sa_of_v6 addr) addr buffer' = ok (Some r, [])" "stun_len r = ok k" "k \<le> length r"
            obtain v p' out where "write_resp ws 0 (sub r 0 k) None = ok (v, p', out)" "partial_ok p'"
              using write_resp_ok [of 0 "sub r 0 k" None ws] by auto
            with r go show ?thesis by (simp add: eqs)
          qed (use go in \<open>simp add: eqs\<close>)
        qed (use assms(2) in \<open>auto simp: eqs\<close>)
      qed (use assms(2) in \<open>simp add: t Peeked read_turn_def True n\<close>)
    next
      case False
      then obtain e where "decode buffer len = ok (Inl e)" using decode_ok [OF b(2)] by (auto split: if_splits)
      then show ?thesis using assms(2) by (cases e) (simp_all add: t Peeked read_turn_def)
    qed
  qed (use assms(2) in \<open>simp_all add: t read_turn_def\<close>)
qed

lemma read_loop_ok:
  assumes "\<forall>t \<in> set ts. turn_ok t" and "partial_ok p"
  shows "\<exists>v p' out sent. read_loop E addr p ts = ok (v, p', out, sent) \<and> partial_ok p' \<and> v \<noteq> Continue"
  using assms
proof (induction ts arbitrary: p)
  case (Cons t ts)
  obtain v p1 out sent where t: "read_turn E addr p t = ok (v, p1, out, sent)" "partial_ok p1"
    using read_turn_ok [of t p E addr] Cons.prems by auto
  with Cons show ?case by (cases "v = Continue") fastforce+
qed simp

text \<open>
  Framing: \<open>is_message m\<close> is a complete message and nothing more. A part of it at the front of the stream
  waits for more, and as soon as all of it is there it is recognised, whatever follows.
\<close>

definition is_message :: "buf \<Rightarrow> bool" where
  "is_message m \<longleftrightarrow> decode m (length m) = ok (Inr ()) \<and> length m = 20 + unat (length_of m)"

lemma sub_same_take: "take n b = take n m \<Longrightarrow> i + k \<le> n \<Longrightarrow> sub b i k = sub m i k"
  by (metis sub_take)

lemma part_too_short:
  assumes "is_message m" and "take len b = take len m" and "len < length m" and "length m \<le> length b"
  shows "\<exists>n. decode b len = ok (Inl (TooShort n)) \<and> n \<le> length b"
proof -
  have m: "drop_bit 14 (typ_of m) = 0" "length_of m mod 4 = 0" "cookie_of m = MAGIC_COOKIE"
      "length m = 20 + unat (length_of m)" "20 \<le> length m"
    using assms(1) by (auto simp: is_message_def decode_Inr)
  have "2 \<le> len \<Longrightarrow> typ_of b = typ_of m" "4 \<le> len \<Longrightarrow> length_of b = length_of m" "8 \<le> len \<Longrightarrow> cookie_of b = cookie_of m"
    using sub_same_take [OF assms(2)] by (simp_all add: field_defs)
  with m assms(3,4) show ?thesis by (auto simp: decode_ok)
qed

lemma whole_message:
  assumes "is_message m" and "take (length m) b = m" and "length m \<le> len" and "len \<le> length b"
  shows "decode b len = ok (Inr ())" "stun_len b = ok (length m)" "attrs b = attrs m"
    "class_of b = class_of m" "method_of b = method_of m" "txid_of b = txid_of m"
proof -
  have m: "drop_bit 14 (typ_of m) = 0" "length_of m mod 4 = 0" "cookie_of m = MAGIC_COOKIE"
      "length m = 20 + unat (length_of m)" "20 \<le> length m"
    using assms(1) by (auto simp: is_message_def decode_Inr)
  obtain rest where b: "b = m @ rest" using assms(2) by (metis append_take_drop_id)
  note f = fields_append [OF m(5), of rest]
  show "class_of b = class_of m" "method_of b = method_of m" "txid_of b = txid_of m" by (simp_all add: b f)
  show "decode b len = ok (Inr ())" using m assms(3,4) by (simp add: decode_Inr) (simp add: b f)
  show "stun_len b = ok (length m)" using m by (simp add: stun_len_def b f)
  show "attrs b = attrs m" using attrs_take [of b] m(4) by (simp add: b f)
qed

text \<open>A message that the policy answers: the response is written by \<open>write_resp\<close>, in as many writes as it takes.\<close>

lemma read_turn_answer:
  assumes "is_message m" and "take (length m) b = m" and "length m \<le> len" and "len \<le> length b" and "100 \<le> length b"
    and "attrs m = ok items" and "txid_of m \<noteq> replicate 12 0"
    and spec: "turn_spec E (sa_of_v6 addr) addr (turn_attrs_of items) (class_of m) (method_of m) = Respond cls vs"
  obtains d where "\<forall>ws. read_turn E addr None (Peeked len b, ReadOk (length m) b, ws) = do {
      (v, p, out) \<leftarrow> write_resp ws 0 d None;
      ok (if v = Break then Continue else v, p, out, []) }"
    "reply_datagram E (turn_key E (turn_attrs_of items)) m cls vs d" "length d \<le> 100"
proof -
  note w = whole_message [OF assms(1-4)]
  let ?key = "turn_key E (turn_attrs_of items)"
  have 20: "20 \<le> length b" using assms(5) by simp
  obtain r where r: "respond E ?key cls vs b = ok (Some r, [])" "is_reply E ?key b cls vs r"
    using respond_policy [OF spec assms(5)] by blast
  have "handle_turn E (sa_of_v6 addr) addr b = ok (Some r, [])"
    using r(1) spec assms(6,7) w handle_turn_eq [OF 20, of items _ E "sa_of_v6 addr" addr] by simp
  moreover note cut = is_reply_datagram [OF r(2) 20 assms(4) w(1)]
  let ?d = "take (20 + total_room vs) r"
  have "length ?d \<le> 100" using turn_spec_fits [OF spec] by (simp add: min_le_iff_disj)
  moreover have "reply_datagram E ?key m cls vs ?d"
  proof -
    have "get_method b = get_method m" "get_txid b = get_txid m"
      using w(5,6) 20 assms(1) by (simp_all add: is_message_def)
    then show ?thesis using cut(3) reply_datagram_cong [of b m E ?key cls vs ?d] by simp
  qed
  moreover have "length m \<le> length b" using assms(3,4) by simp
  ultimately show thesis
    using w cut by (intro that [of ?d]) (simp_all add: read_turn_def Let_def del: length_take)
qed

lemma read_turn_send:
  assumes "bitfield_ok E" and "is_message m" and "take (length m) b = m" and "length m \<le> len" and "len \<le> length b"
    and "attrs m = ok items" and "txid_of m \<noteq> replicate 12 0" and "class_of m = Indication" and "method_of m = Send"
    and a: "a = turn_attrs_of items" "ta_unknown a = None"
      "ta_xor_peer a = Some (SocketAddr (IpV6 peer) port)" "ta_data a = Some (ptr, d)"
    and "48 + length d \<le> length b"
  shows "\<exists>packet. read_turn E addr None (Peeked len b, ReadOk (length m) b, ws) = ok (Continue, None, [], [packet]) \<and>
    is_udp_packet E addr (v6_addr peer port) d packet"
proof -
  note w = whole_message [OF assms(2-5)]
  have 20: "20 \<le> length b" using assms(14) by simp
  have b: "attrs b = ok items" "txid_of b \<noteq> replicate 12 0" "class_of b = Indication" "method_of b = Send"
    using w assms(6-9) by simp_all
  obtain packet where "handle_turn E (sa_of_v6 addr) addr b = ok (None, [packet])"
      "is_udp_packet E addr (v6_addr peer port) d packet"
    using assms(1) 20 b(2,1,3,4) a assms(14) by (rule handle_turn_send)
  moreover have "length m \<le> length b" using assms(4,5) by simp
  ultimately show ?thesis using w by (simp add: read_turn_def Let_def)
qed

section \<open>The table of connections\<close>

text \<open>
  The invariant: a connection has the relayed address of its key, and its partial frame is a valid
  position in a buffer.
\<close>

definition streams_ok :: "('net, 'x) ipnet_scheme \<Rightarrow> 'net \<Rightarrow> slab \<Rightarrow> bool" where
  "streams_ok N subnet streams \<longleftrightarrow>
    (\<forall>idx c. streams idx = Some c \<longrightarrow>
      from_index N subnet idx = Some (conn_relayed c) \<and> partial_ok (conn_partial c))"

fun control_ok :: "('net, 'x) ipnet_scheme \<Rightarrow> 'net \<Rightarrow> control \<Rightarrow> bool" where
  "control_ok N subnet (Go streams) = streams_ok N subnet streams"
| "control_ok N subnet _ = True"

lemma streams_ok_update:
  assumes "streams_ok N subnet streams" and "streams idx = Some c" and "partial_ok p"
  shows "streams_ok N subnet (streams(idx \<mapsto> c\<lparr>conn_partial := p\<rparr>))"
  using assms by (auto simp: streams_ok_def)

lemma cleanup_ok: "streams_ok N subnet streams \<Longrightarrow> control_ok N subnet (cleanup deregistered idx streams)"
  by (auto simp: cleanup_def streams_ok_def)

lemma settle_ok:
  assumes "streams_ok N subnet streams" and "streams idx = Some c" and "partial_ok p"
  shows "control_ok N subnet (settle deregistered idx streams c v p)"
  using assms by (cases v) (simp_all add: cleanup_ok streams_ok_update)

lemma accept_ok:
  assumes "streams_ok N subnet streams"
  shows "control_ok N subnet (accept N subnet nodelay_ok key register_ok streams)"
  using assms by (auto simp: accept_def streams_ok_def split: option.split)

lemma stream_event_ok:
  assumes "streams_ok N subnet streams" and "\<forall>t \<in> set turns. turn_ok t"
  shows "\<exists>ctl out sent. stream_event E idx e ws turns deregister_ok streams = ok (ctl, out, sent) \<and>
    control_ok N subnet ctl"
proof (cases "streams idx")
  case None
  then show ?thesis using assms(1) by (simp add: stream_event_def)
next
  case (Some c)
  show ?thesis
  proof (cases "read_closed e \<or> is_error e")
    case True
    then show ?thesis using assms(1) Some cleanup_ok by (simp add: stream_event_def)
  next
    case False
    have "partial_ok (conn_partial c)" using assms(1) Some by (simp add: streams_ok_def)
    then obtain v p out where f: "(if writable e then flush_partial ws (conn_partial c) else ok (Break, conn_partial c, [])) =
        ok (v, p, out)" "partial_ok p"
      using flush_partial_ok [of "conn_partial c" ws] by (cases "writable e") auto
    obtain v' p' out' sent where r: "read_loop E (conn_relayed c) p turns = ok (v', p', out', sent)" "partial_ok p'"
      using read_loop_ok [OF assms(2) f(2)] by blast
    note settled = settle_ok [OF assms(1) Some]
    have e: "\<not> read_closed e" "\<not> is_error e" using False by simp_all
    show ?thesis
      using f r settled [OF f(2)] settled [OF r(2)]
      by (cases "v = Break"; cases "readable e") (simp_all add: stream_event_def Some e del: settle.simps)
  qed
qed

lemma tun_frame_ok:
  assumes "streams_ok N subnet streams" and "40 \<le> length buffer" and "4 dvd length buffer" and "len \<le> length buffer"
    and "length txid = 12"
  shows "\<exists>ctl out. tun_frame E N subnet txid len buffer w deregister_ok streams = ok (ctl, out) \<and>
    control_ok N subnet ctl"
proof (cases "handle_net E txid len buffer = ok None")
  case False
  then obtain a msg where m: "handle_net E txid len buffer = ok (Some (a, msg))" "is_data_indication txid msg"
    using handle_net_result [OF assms(2-5), of E] by (auto simp: net_result_def split: option.splits)
  show ?thesis
  proof (cases "to_index N subnet a")
    case (Some idx)
    note idx = Some
    show ?thesis
    proof (cases "streams idx")
      case (Some c)
      then have "streams_ok N subnet (streams(idx \<mapsto> c\<lparr>conn_partial := Some (0, d)\<rparr>))" for d
        using assms(1) by (intro streams_ok_update) simp_all
      then show ?thesis
        using m(1) idx Some data_indication_take [OF m(2)] assms(1) cleanup_ok [OF assms(1)]
        by (cases w; cases "conn_partial c") (simp_all add: tun_frame_def)
    qed (use m(1) idx assms(1) in \<open>simp add: tun_frame_def\<close>)
  qed (use m(1) assms(1) in \<open>simp add: tun_frame_def\<close>)
qed (use assms(1) in \<open>simp add: tun_frame_def\<close>)

text \<open>
  The server as a transition system: each step is one connection accepted, one packet from the network, or one
  event of a stream, with whatever the system calls return.
\<close>

inductive tcp_step :: "('e) extern_scheme \<Rightarrow> ('net, 'x) ipnet_scheme \<Rightarrow> 'net \<Rightarrow> slab \<Rightarrow> slab \<Rightarrow> bool"
  for E N subnet where
  step_accept: "streams key = None \<Longrightarrow> accept N subnet nodelay_ok key register_ok streams = Go streams' \<Longrightarrow>
    tcp_step E N subnet streams streams'"
| step_tun: "length buffer = 65536 \<Longrightarrow> len \<le> 65536 \<Longrightarrow> length txid = 12 \<Longrightarrow>
    tun_frame E N subnet txid len buffer w deregister_ok streams = ok (Go streams', sent) \<Longrightarrow>
    tcp_step E N subnet streams streams'"
| step_stream: "\<forall>t \<in> set turns. turn_ok t \<Longrightarrow>
    stream_event E idx e ws turns deregister_ok streams = ok (Go streams', wire, packets) \<Longrightarrow>
    tcp_step E N subnet streams streams'"

inductive_cases tcp_step_cases: "tcp_step E N subnet streams streams'"

lemma tcp_step_keeps:
  assumes "tcp_step E N subnet streams streams'" and "streams_ok N subnet streams"
  shows "streams_ok N subnet streams'"
  using assms(1)
proof (cases rule: tcp_step.cases)
  case (step_accept key nodelay_ok register_ok)
  then show ?thesis using accept_ok [OF assms(2), of nodelay_ok key register_ok] by simp
next
  case (step_tun buffer len txid w deregister_ok sent)
  then show ?thesis
    using tun_frame_ok [OF assms(2), of buffer len txid E w deregister_ok] by simp
next
  case (step_stream turns idx e ws deregister_ok wire packets)
  then show ?thesis
    using stream_event_ok [OF assms(2), of turns E idx e ws deregister_ok] by simp
qed

abbreviation tcp_reachable where
  "tcp_reachable E N subnet \<equiv> (tcp_step E N subnet)\<^sup>*\<^sup>* Map.empty"

lemma reachable_ok: "tcp_reachable E N subnet streams \<Longrightarrow> streams_ok N subnet streams"
  by (induction rule: rtranclp_induct) (auto simp: streams_ok_def [of _ _ Map.empty] intro: tcp_step_keeps)

definition key_fits :: "('net, 'x) ipnet_scheme \<Rightarrow> 'net \<Rightarrow> u64 \<Rightarrow> bool" where
  "key_fits N subnet idx \<longleftrightarrow> ipnet_ok N \<and> unat idx < 2 ^ (143 - unat (prefix_len N subnet))"

interpretation index_table: relay_table "from_index N subnet" "to_index N subnet" "key_fits N subnet"
  for N and subnet
proof
  fix k a
  assume "key_fits N subnet k" "from_index N subnet k = Some a"
  then show "to_index N subnet a = Some k"
    using from_index_to_index [of N k subnet] by (auto simp: key_fits_def)
qed

text \<open>
  The comparison of connections is consistent and, in the table, tells different connections apart.
\<close>

lemma conn_order_laws:
  "conn_partial_cmp c c' = Some (conn_cmp c c')" "conn_cmp c c' = Equal \<longleftrightarrow> conn_eq c c'"
  "conn_cmp c' c = reverse (conn_cmp c c')"
  "conn_cmp c c' = Less \<Longrightarrow> conn_cmp c' c'' = Less \<Longrightarrow> conn_cmp c c'' = Less"
  unfolding conn_partial_cmp_def conn_cmp_def conn_eq_def
  by (rule refl, rule ord_cmp_laws(1), rule ord_cmp_laws(2), rule ord_cmp_laws(3))

lemma table_conn_eq:
  assumes "streams_ok N subnet streams" and "streams i = Some c" and "streams j = Some c'"
    and "key_fits N subnet i" and "key_fits N subnet j" and "conn_eq c c'"
  shows "i = j"
proof -
  have "from_index N subnet i = Some (conn_relayed c)" "from_index N subnet j = Some (conn_relayed c)"
    using assms by (simp_all add: streams_ok_def conn_eq_def)
  then show ?thesis using assms(4,5) index_table.given_once [of N subnet i j] by blast
qed

lemma tun_frame_deliver:
  assumes "streams_ok N subnet streams" and "streams idx = Some c" and "key_fits N subnet idx"
    and "conn_partial c = None" and "carries_udp E sender (conn_relayed c) data packet" and "length data \<le> 65504"
    and "4 dvd length (packet @ slack)" and "length txid = 12"
  obtains frame x y where "\<forall>n dr. tun_frame E N subnet txid (length packet) (packet @ slack) (Wrote n) dr streams =
      ok (if n < length frame
          then (Go (streams(idx \<mapsto> c\<lparr>conn_partial := Some (0, drop n frame)\<rparr>)), Some (idx, take n frame))
          else (Go streams, Some (idx, frame)))"
    "is_data_indication txid frame" "attrs frame = ok [x, y]"
    "item_typ x = XOR_PEER_ADDRESS" "decoded (sockaddr_decode True) x = Some (sa_of_v6 sender)"
    "item_typ y = DATA" "item_bytes y = data"
proof -
  obtain msg x y where m: "handle_net E txid (length packet) (packet @ slack) = ok (Some (conn_relayed c, msg))"
    "is_data_indication txid msg" "attrs msg = ok [x, y]"
    "item_typ x = XOR_PEER_ADDRESS" "decoded (sockaddr_decode True) x = Some (sa_of_v6 sender)"
    "item_typ y = DATA" "item_bytes y = data"
    using assms(5-8) by (rule handle_net_packet)
  have "from_index N subnet idx = Some (conn_relayed c)" using assms(1,2) by (simp add: streams_ok_def)
  then have "to_index N subnet (conn_relayed c) = Some idx" using assms(3) by (intro index_table.find_given)
  moreover define k where "k = 20 + unat (length_of msg)"
  note cut = data_indication_take [OF m(2), folded k_def]
  have "k \<le> length msg" using cut(2) by (auto simp: slice_def split: if_splits)
  ultimately show thesis
    using m cut assms(2,4)
    by (intro that [of "take k msg"]) (auto simp: tun_frame_def)
qed

end
