(* ===== verification/Tcp_Server.thy ===== *)
theory Tcp_Server
  imports Turn_Tcp
begin

text \<open>
  The event loop of \<^verbatim>\<open>src/bin/turnserver-tcp.rs\<close> as one function. An event of the poll carries its token, its
  readiness and what the system calls made while it is handled return; the batches of events are the
  results of the calls of \<^verbatim>\<open>poll\<close>. Where the slab puts the next connection is a function of the state, chosen
  afresh for every connection: \<open>vacant_ok\<close> is what the slab promises, a key that is not in use as long as there is one.
  When all keys are in use the insertion panics.

  The handlers of one event are the step relation \<open>tcp_step\<close> of \<open>Turn_Tcp\<close> run in order (\<open>tcp_server_ok\<close>), and a packet
  that a client has sent to the network has the client's relayed address as its source (\<open>handle_turn_source\<close>).
  Bytes written to a stream and packets sent while one event is handled are listed per event, not in their order of sending.
\<close>

section \<open>The program\<close>

definition TCP_TOKEN :: u64 where
  "TCP_TOKEN = - 1"

definition TUN_TOKEN :: u64 where
  "TUN_TOKEN = - 1 - 1"

datatype accept_result = AcceptErr | Accepted bool "slab \<Rightarrow> u64" bool
datatype tun_result = RecvErr | Received nat buf "byte list" io_write bool

record tcp_event =
  ev_token :: u64
  ev_ready :: stream_ready
  ev_accepts :: "accept_result list"
  ev_recvs :: "tun_result list"
  ev_writes :: "io_write list"
  ev_turns :: "(io_peek \<times> io_read \<times> io_write list) list"
  ev_deregister_ok :: bool

text \<open>Output: bytes for a stream, and a packet for the network with the key of the stream that was read when it was sent.\<close>

datatype tcp_output = ToStream u64 buf | ToNet u64 buf

fun accept_loop :: "('net, 'x) ipnet_scheme \<Rightarrow> 'net \<Rightarrow> accept_result list \<Rightarrow> slab \<Rightarrow> control run" where
  "accept_loop N subnet [] streams = ok Busy"
| "accept_loop N subnet (AcceptErr # rs) streams = ok (Go streams)"
| "accept_loop N subnet (Accepted nodelay_ok vacant register_ok # rs) streams = do {
     let key = vacant streams;
     assert (streams key = None);
     case accept N subnet nodelay_ok key register_ok streams of
       Go streams \<Rightarrow> accept_loop N subnet rs streams
     | ctl \<Rightarrow> ok ctl }"

text \<open>Going on with \<open>f\<close> unless the program has ended or a loop of the handler still runs.\<close>

definition proceed ::
    "(control \<times> tcp_output list) run \<Rightarrow> (slab \<Rightarrow> (control \<times> tcp_output list) run) \<Rightarrow> (control \<times> tcp_output list) run" where
  "proceed r f = do {
     (ctl, out) \<leftarrow> r;
     case ctl of
       Go streams \<Rightarrow> do { (ctl, outs) \<leftarrow> f streams; ok (ctl, out @ outs) }
     | _ \<Rightarrow> ok (ctl, out) }"

definition to_stream :: "(u64 \<times> buf) option \<Rightarrow> tcp_output list" where
  "to_stream sent = (case sent of None \<Rightarrow> [] | Some (idx, d) \<Rightarrow> [ToStream idx d])"

fun frame_loop :: "('e) bitfield_scheme \<Rightarrow> ('net, 'x) ipnet_scheme \<Rightarrow> 'net \<Rightarrow> tun_result list \<Rightarrow> slab \<Rightarrow>
    (control \<times> tcp_output list) run" where
  "frame_loop E N subnet [] streams = ok (Busy, [])"
| "frame_loop E N subnet (RecvErr # rs) streams = ok (Go streams, [])"
| "frame_loop E N subnet (Received len buffer txid w dr # rs) streams =
     proceed (do { (ctl, sent) \<leftarrow> tun_frame E N subnet txid len buffer w dr streams; ok (ctl, to_stream sent) })
       (frame_loop E N subnet rs)"

definition tcp_dispatch :: "('e) extern_scheme \<Rightarrow> ('net, 'x) ipnet_scheme \<Rightarrow> 'net \<Rightarrow> tcp_event \<Rightarrow> slab \<Rightarrow>
    (control \<times> tcp_output list) run" where
  "tcp_dispatch E N subnet e streams =
     (if ev_token e = TCP_TOKEN then do { ctl \<leftarrow> accept_loop N subnet (ev_accepts e) streams; ok (ctl, []) }
      else if ev_token e = TUN_TOKEN then frame_loop E N subnet (ev_recvs e) streams
      else do {
        (ctl, out, sent) \<leftarrow> stream_event E (ev_token e) (ev_ready e) (ev_writes e) (ev_turns e) (ev_deregister_ok e) streams;
        ok (ctl, (if out = [] then [] else [ToStream (ev_token e) out]) @ map (ToNet (ev_token e)) sent) })"

text \<open>The events of one poll, and the loop over the polls; \<open>None\<close> is a poll that fails.\<close>

fun tcp_events :: "('e) extern_scheme \<Rightarrow> ('net, 'x) ipnet_scheme \<Rightarrow> 'net \<Rightarrow> tcp_event list \<Rightarrow> slab \<Rightarrow>
    (control \<times> tcp_output list) run" where
  "tcp_events E N subnet [] streams = ok (Go streams, [])"
| "tcp_events E N subnet (e # es) streams = proceed (tcp_dispatch E N subnet e streams) (tcp_events E N subnet es)"

fun tcp_server :: "('e) extern_scheme \<Rightarrow> ('net, 'x) ipnet_scheme \<Rightarrow> 'net \<Rightarrow> tcp_event list option list \<Rightarrow> slab \<Rightarrow>
    (control \<times> tcp_output list) run" where
  "tcp_server E N subnet [] streams = ok (Go streams, [])"
| "tcp_server E N subnet (None # polls) streams = ok (Exit, [])"
| "tcp_server E N subnet (Some es # polls) streams = proceed (tcp_events E N subnet es streams) (tcp_server E N subnet polls)"

definition tcp_main :: "('e) extern_scheme \<Rightarrow> ('net, 'x) ipnet_scheme \<Rightarrow> str \<Rightarrow> tcp_event list option list \<Rightarrow>
    (control \<times> tcp_output list) run" where
  "tcp_main E N subnet polls =
     (case net_from_str N subnet of None \<Rightarrow> ok (Exit, []) | Some subnet \<Rightarrow>
     (case mapping_new N subnet of None \<Rightarrow> ok (Exit, []) | Some mapping \<Rightarrow>
      tcp_server E N mapping polls Map.empty))"


section \<open>The loop refines the step relation\<close>

text \<open>What the system and the slab promise for an event.\<close>

definition vacant_ok :: "(slab \<Rightarrow> u64) \<Rightarrow> bool" where
  "vacant_ok vacant \<longleftrightarrow> (\<forall>streams. (\<exists>k. streams k = None) \<longrightarrow> streams (vacant streams) = None)"

fun accept_result_ok :: "accept_result \<Rightarrow> bool" where
  "accept_result_ok AcceptErr = True"
| "accept_result_ok (Accepted nodelay_ok vacant register_ok) = vacant_ok vacant"

fun tun_result_ok :: "tun_result \<Rightarrow> bool" where
  "tun_result_ok RecvErr = True"
| "tun_result_ok (Received len buffer txid w dr) = (length buffer = 65536 \<and> len \<le> 65536 \<and> length txid = 12)"

definition tcp_event_ok :: "tcp_event \<Rightarrow> bool" where
  "tcp_event_ok e \<longleftrightarrow> list_all accept_result_ok (ev_accepts e) \<and> list_all tun_result_ok (ev_recvs e) \<and>
     (\<forall>t \<in> set (ev_turns e). turn_ok t)"

definition accept_count :: "tcp_event list \<Rightarrow> nat" where
  "accept_count es = sum_list (map (\<lambda>e. length (ev_accepts e)) es)"

text \<open>
  A packet for the network comes from the relayed address of the client's key; bytes for a stream go to a key that has a relayed address.
\<close>

fun tcp_output_ok :: "('e) bitfield_scheme \<Rightarrow> ('net, 'x) ipnet_scheme \<Rightarrow> 'net \<Rightarrow> tcp_output \<Rightarrow> bool" where
  "tcp_output_ok E N subnet (ToStream idx d) \<longleftrightarrow> from_index N subnet idx \<noteq> None"
| "tcp_output_ok E N subnet (ToNet idx packet) \<longleftrightarrow>
     (\<exists>relayed peer d. from_index N subnet idx = Some relayed \<and> is_udp_packet E relayed peer d packet)"

text \<open>A handler's result is good when it is reached by steps, has not gained more than \<open>n\<close> connections, and its output is good.\<close>

definition result_ok ::
    "('e) extern_scheme \<Rightarrow> ('net, 'x) ipnet_scheme \<Rightarrow> 'net \<Rightarrow> nat \<Rightarrow> slab \<Rightarrow> (control \<times> tcp_output list) run \<Rightarrow> bool" where
  "result_ok E N subnet n streams r \<longleftrightarrow>
     (\<exists>ctl out. r = ok (ctl, out) \<and> list_all (tcp_output_ok E N subnet) out \<and>
       (\<forall>streams'. ctl = Go streams' \<longrightarrow>
          (tcp_step E N subnet)\<^sup>*\<^sup>* streams streams' \<and> card (dom streams') \<le> card (dom streams) + n))"

lemma result_ok_stop: "result_ok E N subnet n streams (ok (Go streams, []))" "result_ok E N subnet n streams (ok (Busy, []))"
    "result_ok E N subnet n streams (ok (Exit, []))"
  by (simp_all add: result_ok_def)

lemma tcp_steps_ok: "(tcp_step E N subnet)\<^sup>*\<^sup>* streams streams' \<Longrightarrow> streams_ok N subnet streams \<Longrightarrow> streams_ok N subnet streams'"
  by (induction rule: rtranclp_induct) (auto intro: tcp_step_keeps)

text \<open>Running one handler after another.\<close>

lemma proceed_ok:
  assumes "result_ok E N subnet n streams r" and "streams_ok N subnet streams"
    and "\<And>streams'. streams_ok N subnet streams' \<Longrightarrow> card (dom streams') \<le> card (dom streams) + n \<Longrightarrow>
      result_ok E N subnet m streams' (f streams')"
  shows "result_ok E N subnet (n + m) streams (proceed r f)"
proof -
  obtain ctl out where r: "r = ok (ctl, out)" "list_all (tcp_output_ok E N subnet) out"
      "\<forall>streams'. ctl = Go streams' \<longrightarrow>
        (tcp_step E N subnet)\<^sup>*\<^sup>* streams streams' \<and> card (dom streams') \<le> card (dom streams) + n"
    using assms(1) by (auto simp: result_ok_def)
  show ?thesis
  proof (cases ctl)
    case (Go streams')
    with r(3) have s: "(tcp_step E N subnet)\<^sup>*\<^sup>* streams streams'" "card (dom streams') \<le> card (dom streams) + n" by auto
    obtain ctl' outs where "f streams' = ok (ctl', outs)" "list_all (tcp_output_ok E N subnet) outs"
      "\<forall>streams''. ctl' = Go streams'' \<longrightarrow>
        (tcp_step E N subnet)\<^sup>*\<^sup>* streams' streams'' \<and> card (dom streams'') \<le> card (dom streams') + m"
      using assms(3) [OF tcp_steps_ok [OF s(1) assms(2)] s(2)] by (auto simp: result_ok_def)
    with r s Go show ?thesis by (auto simp: result_ok_def proceed_def intro: rtranclp_trans)
  qed (use r in \<open>auto simp: result_ok_def proceed_def\<close>)
qed

text \<open>Handlers other than \<open>accept\<close> add no keys.\<close>

lemma settle_dom:
  "streams idx = Some c \<Longrightarrow> settle dr idx streams c v p = Go streams' \<Longrightarrow> dom streams' \<subseteq> dom streams"
  by (cases v) (auto simp: cleanup_def split: if_splits)

lemma stream_event_dom:
  assumes "stream_event E idx e ws turns dr streams = ok (Go streams', out, sent)"
  shows "dom streams' \<subseteq> dom streams \<and> (streams idx = None \<longrightarrow> out = [] \<and> sent = [])"
  using assms settle_dom [of streams idx _ dr _ _ streams']
  by (fastforce simp: stream_event_def cleanup_def bind_eq_Some_conv simp del: settle.simps
      split: option.splits if_splits)

lemma tun_frame_dom:
  assumes "tun_frame E N subnet txid len buffer w dr streams = ok (ctl, sent)"
  shows "(ctl = Go streams' \<longrightarrow> dom streams' \<subseteq> dom streams) \<and> (sent = Some (idx, d) \<longrightarrow> idx \<in> dom streams)"
proof (cases "handle_net E txid len buffer")
  case (Some r)
  show ?thesis
  proof (cases r)
    case [simp]: (Some m)
    show ?thesis
    proof (cases "to_index N subnet (fst m)")
      case (Some i)
      then show ?thesis
        using assms \<open>handle_net E txid len buffer = Some r\<close>
        by (cases m; cases w; cases "streams i")
          (auto simp: tun_frame_def cleanup_def bind_eq_Some_conv split: if_splits)
    qed (use assms \<open>handle_net E txid len buffer = Some r\<close> in \<open>cases m; auto simp: tun_frame_def\<close>)
  qed (use assms \<open>handle_net E txid len buffer = Some r\<close> in \<open>auto simp: tun_frame_def\<close>)
qed (use assms in \<open>simp add: tun_frame_def\<close>)

lemma accept_card:
  assumes "accept N subnet nodelay_ok key register_ok streams = Go streams'"
  shows "card (dom streams') \<le> card (dom streams) + 1"
proof -
  have "dom streams' \<subseteq> insert key (dom streams)"
    using assms by (auto simp: accept_def split: if_splits option.splits)
  then have "card (dom streams') \<le> card (insert key (dom streams))" by (intro card_mono) simp_all
  also have "\<dots> \<le> card (dom streams) + 1" by (simp add: card_insert_if)
  finally show ?thesis .
qed

lemma vacant_key:
  assumes "vacant_ok vacant" and "card (dom (streams :: slab)) < 2 ^ 64"
  shows "streams (vacant streams) = None"
proof -
  have "dom streams \<noteq> UNIV"
  proof
    assume "dom streams = UNIV"
    then have "card (dom streams) = 2 ^ 64" by (simp add: card_word)
    with assms(2) show False by simp
  qed
  then obtain k where "streams k = None" by auto
  with assms(1) show ?thesis by (auto simp: vacant_ok_def)
qed


section \<open>Packets come from the client's relayed address\<close>

lemma read_turn_source:
  assumes "bitfield_ok E" and "turn_ok t" and "read_turn E relayed p t = ok (v, p', out, sent)" and "packet \<in> set sent"
  shows "\<exists>peer d. is_udp_packet E relayed peer d packet"
proof -
  obtain peek read ws where t: "t = (peek, read, ws)" by (cases t)
  have sent: "sent \<noteq> []" using assms(4) by auto
  obtain len b where peek: "peek = Peeked len b"
    using assms(3) sent by (cases peek) (simp_all add: t read_turn_def)
  have d: "decode b len = ok (Inr ())"
  proof (cases "decode b len")
    case (Some d)
    then show ?thesis
      using assms(3) sent by (cases d; cases "projl d") (auto simp: t peek read_turn_def)
  qed (use assms(3) in \<open>simp add: t peek read_turn_def\<close>)
  obtain buffer r where h: "100 \<le> length buffer" "handle_turn E (sa_of_v6 relayed) relayed buffer = ok (r, sent)"
    using assms(2,3) sent
    by (cases read) (auto simp: t peek d read_turn_def bind_eq_Some_conv Let_def split: if_splits option.splits)
  show ?thesis by (rule handle_turn_source [OF assms(1) _ h(2) assms(4)]) (use h(1) in simp)
qed

lemma read_loop_source:
  assumes "bitfield_ok E" and "\<forall>t \<in> set ts. turn_ok t" and "read_loop E relayed p ts = ok (v, p', out, sent)"
    and "packet \<in> set sent"
  shows "\<exists>peer d. is_udp_packet E relayed peer d packet"
  using assms(2-4)
proof (induction ts arbitrary: p out sent)
  case (Cons t ts)
  obtain v1 p1 out1 sent1 where t: "read_turn E relayed p t = ok (v1, p1, out1, sent1)"
    using Cons.prems(2) by (auto simp: bind_eq_Some_conv)
  show ?case
  proof (cases "packet \<in> set sent1")
    case True
    then show ?thesis using read_turn_source [OF assms(1) _ t] Cons.prems(1) by simp
  next
    case False
    then show ?thesis
      using Cons t by (auto simp: bind_eq_Some_conv split: if_splits)
  qed
qed simp

lemma stream_event_source:
  assumes "bitfield_ok E" and "\<forall>t \<in> set ts. turn_ok t" and "stream_event E idx e ws ts dr streams = ok (ctl, out, sent)"
    and "packet \<in> set sent"
  shows "\<exists>c peer d. streams idx = Some c \<and> is_udp_packet E (conn_relayed c) peer d packet"
proof (cases "streams idx")
  case (Some c)
  then obtain p v p' out' where "read_loop E (conn_relayed c) p ts = ok (v, p', out', sent)"
    using assms(3,4) by (auto simp: stream_event_def bind_eq_Some_conv split: if_splits)
  from read_loop_source [OF assms(1,2) this assms(4)] Some show ?thesis by simp
qed (use assms(3,4) in \<open>simp add: stream_event_def\<close>)

section \<open>The loops\<close>

lemma accept_loop_ok:
  assumes "list_all accept_result_ok rs" and "card (dom streams) + length rs \<le> 2 ^ 64"
  shows "\<exists>ctl. accept_loop N subnet rs streams = ok ctl \<and>
    (\<forall>streams'. ctl = Go streams' \<longrightarrow>
      (tcp_step E N subnet)\<^sup>*\<^sup>* streams streams' \<and> card (dom streams') \<le> card (dom streams) + length rs)"
  using assms
proof (induction rs arbitrary: streams)
  case (Cons r rs)
  show ?case
  proof (cases r)
    case (Accepted nodelay_ok vacant register_ok)
    let ?key = "vacant streams"
    have v: "streams ?key = None" using Cons.prems Accepted by (intro vacant_key) auto
    show ?thesis
    proof (cases "accept N subnet nodelay_ok ?key register_ok streams")
      case (Go streams')
      have "tcp_step E N subnet streams streams'" by (rule step_accept [OF v Go])
      moreover have "card (dom streams') \<le> card (dom streams) + 1" by (rule accept_card [OF Go])
      moreover obtain ctl where "accept_loop N subnet rs streams' = ok ctl"
          "\<forall>streams''. ctl = Go streams'' \<longrightarrow>
            (tcp_step E N subnet)\<^sup>*\<^sup>* streams' streams'' \<and> card (dom streams'') \<le> card (dom streams') + length rs"
        using Cons.IH [of streams'] Cons.prems calculation(2) by auto
      ultimately show ?thesis
        using Go v by (auto simp: Accepted Let_def intro: converse_rtranclp_into_rtranclp)
    qed (use v in \<open>auto simp: Accepted Let_def\<close>)
  qed auto
qed auto

lemma frame_loop_ok:
  assumes "streams_ok N subnet streams" and "list_all tun_result_ok rs"
  shows "result_ok E N subnet 0 streams (frame_loop E N subnet rs streams)"
  using assms
proof (induction rs arbitrary: streams)
  case (Cons r rs)
  show ?case
  proof (cases r)
    case (Received len buffer txid w dr)
    with Cons.prems(2) have b: "length buffer = 65536" "len \<le> 65536" "length txid = 12" by simp_all
    obtain ctl sent where f: "tun_frame E N subnet txid len buffer w dr streams = ok (ctl, sent)" "control_ok N subnet ctl"
      using tun_frame_ok [OF Cons.prems(1), of buffer len txid E w dr] b by auto
    have "list_all (tcp_output_ok E N subnet) (to_stream sent)"
    proof (cases sent)
      case (Some m)
      obtain idx d where "m = (idx, d)" by (cases m)
      with Some show ?thesis
        using tun_frame_dom [OF f(1), of streams idx d] Cons.prems(1) by (auto simp: to_stream_def streams_ok_def)
    qed (simp add: to_stream_def)
    moreover have "(tcp_step E N subnet)\<^sup>*\<^sup>* streams streams' \<and> card (dom streams') \<le> card (dom streams)" if "ctl = Go streams'" for streams'
      using that tun_frame_dom [OF f(1), of streams' 0 "[]"] step_tun [OF b f(1) [unfolded that]]
      by (auto intro: card_mono)
    ultimately have "result_ok E N subnet 0 streams (ok (ctl, to_stream sent))" by (auto simp: result_ok_def)
    then have "result_ok E N subnet (0 + 0) streams (proceed (ok (ctl, to_stream sent)) (frame_loop E N subnet rs))"
      using Cons by (intro proceed_ok) simp_all
    then show ?thesis using f by (simp add: Received)
  qed (simp_all add: result_ok_stop)
qed (simp add: result_ok_stop)

lemma tcp_dispatch_ok:
  assumes "bitfield_ok E" and "streams_ok N subnet streams" and "tcp_event_ok e"
    and "card (dom streams) + length (ev_accepts e) \<le> 2 ^ 64"
  shows "result_ok E N subnet (length (ev_accepts e)) streams (tcp_dispatch E N subnet e streams)"
proof -
  consider "ev_token e = TCP_TOKEN" | "ev_token e \<noteq> TCP_TOKEN" "ev_token e = TUN_TOKEN" | "ev_token e \<notin> {TCP_TOKEN, TUN_TOKEN}"
    by blast
  then show ?thesis
  proof cases
    case 1
    then show ?thesis
      using accept_loop_ok [OF _ assms(4), of N subnet E] assms(3)
      by (auto simp: tcp_dispatch_def tcp_event_ok_def result_ok_def)
  next
    case 2
    then show ?thesis
      using frame_loop_ok [OF assms(2), of "ev_recvs e" E] assms(3)
      by (fastforce simp: tcp_dispatch_def tcp_event_ok_def result_ok_def)
  next
    case 3
    have t: "\<forall>t \<in> set (ev_turns e). turn_ok t" using assms(3) by (simp add: tcp_event_ok_def)
    obtain ctl out sent where s: "stream_event E (ev_token e) (ev_ready e) (ev_writes e) (ev_turns e) (ev_deregister_ok e) streams =
        ok (ctl, out, sent)"
      using stream_event_ok [OF assms(2) t] by blast
    have "streams (ev_token e) = None \<Longrightarrow> out = []" using s by (simp add: stream_event_def)
    moreover have "from_index N subnet (ev_token e) = Some (conn_relayed c)" if "streams (ev_token e) = Some c" for c
      using assms(2) that by (simp add: streams_ok_def)
    ultimately have "list_all (tcp_output_ok E N subnet)
        ((if out = [] then [] else [ToStream (ev_token e) out]) @ map (ToNet (ev_token e)) sent)"
      using stream_event_source [OF assms(1) t s] by (fastforce simp: list_all_iff)
    moreover have "tcp_step E N subnet streams streams' \<and> card (dom streams') \<le> card (dom streams)" if "ctl = Go streams'" for streams'
      using stream_event_dom [OF s [unfolded that]] step_stream [OF t s [unfolded that]] by (auto intro: card_mono)
    ultimately show ?thesis
      using 3 s by (auto simp: tcp_dispatch_def result_ok_def trans_le_add1)
  qed
qed

lemma tcp_events_ok:
  assumes "bitfield_ok E" and "streams_ok N subnet streams" and "list_all tcp_event_ok es"
    and "card (dom streams) + accept_count es \<le> 2 ^ 64"
  shows "result_ok E N subnet (accept_count es) streams (tcp_events E N subnet es streams)"
  using assms(2-4)
proof (induction es arbitrary: streams)
  case (Cons e es)
  have "result_ok E N subnet (length (ev_accepts e) + accept_count es) streams
      (proceed (tcp_dispatch E N subnet e streams) (tcp_events E N subnet es))"
    using Cons by (intro proceed_ok tcp_dispatch_ok [OF assms(1)]) (simp_all add: accept_count_def)
  then show ?case by (simp add: accept_count_def)
qed (simp add: result_ok_stop)

fun poll_accepts :: "tcp_event list option list \<Rightarrow> nat" where
  "poll_accepts [] = 0"
| "poll_accepts (None # polls) = poll_accepts polls"
| "poll_accepts (Some es # polls) = accept_count es + poll_accepts polls"

lemma tcp_server_ok:
  assumes "bitfield_ok E" and "streams_ok N subnet streams" and "\<forall>es. Some es \<in> set polls \<longrightarrow> list_all tcp_event_ok es"
    and "card (dom streams) + poll_accepts polls \<le> 2 ^ 64"
  shows "result_ok E N subnet (poll_accepts polls) streams (tcp_server E N subnet polls streams)"
  using assms(2-4)
proof (induction polls arbitrary: streams rule: poll_accepts.induct)
  case (3 es polls)
  then show ?case using assms(1) by (simp add: proceed_ok tcp_events_ok)
qed (simp_all add: result_ok_stop)

end
