(* ===== verification/Tcp_Properties.thy ===== *)
theory Tcp_Properties
  imports Tcp_Server Udp_Properties
begin

text \<open>The properties of the TCP server.\<close>

definition sample_subnet :: "byte \<times> u128" where
  "sample_subnet = (79, 0xFD010000000000000000000000000000)"

definition sample_conn :: conn where
  "sample_conn = \<lparr>conn_relayed = v6_addr 0xFD010000000000000000000000000000 0x8003, conn_partial = None\<rparr>"

definition sample_streams :: slab where
  "sample_streams = Map.empty(3 \<mapsto> sample_conn)"

lemma sample_from_index: "from_index sample_net sample_subnet 3 = Some (conn_relayed sample_conn)"
  by (simp add: from_index_def sample_net_def sample_subnet_def sample_hostmask_def sample_prefix_def
      sample_conn_def Let_def mask_eq_exp_minus_1)

lemma sample_key_fits: "key_fits sample_net sample_subnet 3"
  using sample_net_ok by (simp add: key_fits_def sample_net_def sample_subnet_def sample_prefix_def)

lemma sample_accept: "tcp_reachable E sample_net sample_subnet sample_streams"
proof -
  have "accept sample_net sample_subnet True 3 True Map.empty = Go sample_streams"
    by (simp add: accept_def sample_from_index sample_streams_def) (simp add: sample_conn_def)
  then show ?thesis by (intro r_into_rtranclp step_accept [of Map.empty 3]) simp_all
qed

lemma binding_message:
  "is_message (take 20 binding_request)" "attrs (take 20 binding_request) = ok []"
  "txid_of (take 20 binding_request) = sample_txid" "class_of (take 20 binding_request) = Request"
  "method_of (take 20 binding_request) = Binding"
  using attrs_take [of binding_request]
  by (simp_all add: is_message_def decode_Inr fields_take sample_types sample_length_fields sample_cookies
      sample_txids sample_class_method binding_request_attrs)

section \<open>Keys\<close>

text \<open>
  C24. Keys and relayed addresses correspond. For a subnet that \<^verbatim>\<open>Mapping::new\<close> accepts (a prefix of at least 79
  bits), every key that fits the subnet has a relayed address, from which \<open>to_index\<close> finds the key again; and an
  address of the subnet with a port from 0x8000 up is the relayed address of the key that \<open>to_index\<close> finds.
\<close>

theorem tcp_index_roundtrip:
  assumes "ipnet_ok N" and "mapping_new N subnet = Some mapping"
  shows "(unat idx < 2 ^ (143 - unat (prefix_len N mapping)) \<longrightarrow>
      (\<exists>addr. from_index N mapping idx = Some addr \<and> to_index N mapping addr = Some idx)) \<and>
    (to_index N mapping addr = Some idx \<and> 0x8000 \<le> v6_port addr \<longrightarrow> from_index N mapping idx = Some addr)"
proof -
  have "79 \<le> take_bit 32 (unat (prefix_len N subnet))"
    using assms(2) by (auto simp: mapping_new_def min_prefix_len_def word_less_nat_alt unsigned_ucast_eq split: if_splits)
  then have "79 \<le> unat (prefix_len N subnet)" by (rule order_trans) (rule take_bit_nat_less_eq_self)
  moreover have "mapping = subnet" using assms(2) by (simp add: mapping_new_def split: if_splits)
  ultimately have m: "mapping = subnet" "79 \<le> unat (prefix_len N subnet)" by simp_all
  have "bit (v6_port addr) 15" if "0x8000 \<le> v6_port addr"
  proof (rule ccontr)
    assume "\<not> bit (v6_port addr) 15"
    then have "15 \<le> n \<Longrightarrow> \<not> bit (v6_port addr) n" for n by (cases "n = 15") simp_all
    then have "unat (v6_port addr) < 2 ^ 15" by (rule low_bits)
    with that show False by (simp add: word_le_nat_alt)
  qed
  then show ?thesis
    using from_index_to_index [OF assms(1), of idx subnet] to_index_from_index [OF assms(1) m(2), of addr idx]
    by (auto simp: m(1))
qed

theorem tcp_index_roundtrip_witness:
  "\<exists>addr. from_index sample_net sample_subnet 3 = Some addr \<and> to_index sample_net sample_subnet addr = Some 3"
  using tcp_index_roundtrip [OF sample_net_ok, of sample_subnet sample_subnet 3]
  by (simp add: mapping_new_def min_prefix_len_def sample_net_def sample_subnet_def sample_prefix_def)

section \<open>The event loop\<close>

text \<open>The first vacant key after 3, for the witness.\<close>

definition sample_vacant :: "slab \<Rightarrow> u64" where
  "sample_vacant streams =
     (if streams 3 = None then 3 else hd (filter (\<lambda>k. streams k = None) (map of_nat [0..<2 ^ 64])))"

lemma sample_vacant_ok: "vacant_ok sample_vacant"
  unfolding vacant_ok_def
proof (intro allI impI)
  fix streams :: slab
  let ?free = "filter (\<lambda>k. streams k = None) (map of_nat [0..<2 ^ 64])"
  assume "\<exists>k. streams k = None"
  then obtain k where k: "streams k = None" by blast
  have "k \<in> set (map of_nat [0..<2 ^ 64])"
    using unsigned_less [of k] by (auto intro!: image_eqI [of _ _ "unat k"])
  with k have "?free \<noteq> []" by (auto simp: filter_empty_conv)
  then have "hd ?free \<in> set ?free" by (rule hd_in_set)
  then show "streams (sample_vacant streams) = None" by (auto simp: sample_vacant_def)
qed

text \<open>
  C5. The server as a whole. For whatever argument it is started with and on every sequence of poll results, with fewer than \<open>2 ^ 64\<close>
  connections accepted, it does not panic. While it runs, its table of connections is reachable by steps from the empty table, each connection
  has the relayed address of its key and connections with keys that fit the subnet have different relayed addresses.
  Every packet it sends to the network while it handles a stream has the relayed address of that stream's key as its source, so that a client cannot
  send from another's address; it writes to streams with a key of the subnet only.
\<close>

theorem tcp_main_safe:
  assumes "bitfield_ok E" and "\<forall>es. Some es \<in> set polls \<longrightarrow> list_all tcp_event_ok es" and "poll_accepts polls \<le> 2 ^ 64"
  shows "\<exists>ctl out. tcp_main E N arg polls = ok (ctl, out) \<and>
    (\<forall>x \<in> set out. \<exists>subnet. net_from_str N arg = Some subnet \<and> tcp_output_ok E N subnet x) \<and>
    (\<forall>streams. ctl = Go streams \<longrightarrow> (\<exists>subnet. net_from_str N arg = Some subnet \<and>
      mapping_new N subnet = Some subnet \<and> tcp_reachable E N subnet streams \<and>
      (\<forall>idx c. streams idx = Some c \<longrightarrow> from_index N subnet idx = Some (conn_relayed c)) \<and>
      (\<forall>idx c idx' c'. streams idx = Some c \<and> streams idx' = Some c' \<and> key_fits N subnet idx \<and> key_fits N subnet idx' \<and>
         conn_relayed c = conn_relayed c' \<longrightarrow> idx = idx')))"
proof (cases "net_from_str N arg")
  case (Some subnet)
  show ?thesis
  proof (cases "mapping_new N subnet")
    case None
    with Some show ?thesis by (simp add: tcp_main_def)
  next
    case (Some mapping)
    then have m: "mapping_new N subnet = Some subnet" by (simp add: mapping_new_def split: if_splits)
    have "result_ok E N subnet (poll_accepts polls) Map.empty (tcp_server E N subnet polls Map.empty)"
      using assms by (intro tcp_server_ok) (simp_all add: streams_ok_def)
    then obtain ctl out where r: "tcp_server E N subnet polls Map.empty = ok (ctl, out)"
        "list_all (tcp_output_ok E N subnet) out" "\<forall>streams. ctl = Go streams \<longrightarrow> tcp_reachable E N subnet streams"
      unfolding result_ok_def by blast
    have "tcp_main E N arg polls = ok (ctl, out)"
      using r(1) m \<open>net_from_str N arg = Some subnet\<close> by (simp add: tcp_main_def)
    moreover have "(\<forall>idx c. streams idx = Some c \<longrightarrow> from_index N subnet idx = Some (conn_relayed c)) \<and>
      (\<forall>idx c idx' c'. streams idx = Some c \<and> streams idx' = Some c' \<and> key_fits N subnet idx \<and> key_fits N subnet idx' \<and>
         conn_relayed c = conn_relayed c' \<longrightarrow> idx = idx')" if "tcp_reachable E N subnet streams" for streams
      using reachable_ok [OF that] table_conn_eq [of N subnet streams] by (auto simp: streams_ok_def conn_eq_def)
    ultimately show ?thesis using r(2,3) m \<open>net_from_str N arg = Some subnet\<close> by (auto simp: list_all_iff)
  qed
qed (simp add: tcp_main_def)

text \<open>A run that accepts one connection and then has an event for it.\<close>

definition idle :: stream_ready where
  "idle = \<lparr>read_closed = False, is_error = False, writable = True, readable = False\<rparr>"

definition sample_event :: "u64 \<Rightarrow> tcp_event" where
  "sample_event t = \<lparr>ev_token = t, ev_ready = idle, ev_accepts = [Accepted True sample_vacant True, AcceptErr], ev_recvs = [RecvErr],
     ev_writes = [], ev_turns = [], ev_deregister_ok = True\<rparr>"

lemma sample_run:
  "\<exists>streams c. tcp_main sample_extern sample_net (str_lit ''fd01::/79'') [Some [sample_event TCP_TOKEN], Some [sample_event 3]] =
    ok (Go streams, []) \<and> streams 3 = Some c"
  by (simp add: tcp_main_def sample_net_def mapping_new_def min_prefix_len_def sample_prefix_def proceed_def tcp_dispatch_def
      sample_event_def sample_vacant_def TCP_TOKEN_def TUN_TOKEN_def accept_def from_index_def sample_hostmask_def
      stream_event_def idle_def str_lit_def Let_def mask_eq_exp_minus_1)

theorem tcp_main_safe_witness:
  "\<exists>streams c subnet. tcp_main sample_extern sample_net (str_lit ''fd01::/79'') [Some [sample_event TCP_TOKEN], Some [sample_event 3]] =
    ok (Go streams, []) \<and> streams 3 = Some c \<and> from_index sample_net subnet 3 = Some (conn_relayed c)"
proof -
  let ?polls = "[Some [sample_event TCP_TOKEN], Some [sample_event 3]]"
  obtain streams c where r: "tcp_main sample_extern sample_net (str_lit ''fd01::/79'') ?polls = ok (Go streams, [])" "streams 3 = Some c"
    using sample_run by blast
  have "\<forall>es. Some es \<in> set ?polls \<longrightarrow> list_all tcp_event_ok es" "poll_accepts ?polls \<le> 2 ^ 64"
    by (auto simp: sample_event_def tcp_event_ok_def accept_count_def sample_vacant_ok)
  from tcp_main_safe [OF sample_bitfield this, of sample_net "str_lit ''fd01::/79''"] r(1)
  obtain subnet where "\<forall>idx c. streams idx = Some c \<longrightarrow> from_index sample_net subnet idx = Some (conn_relayed c)"
    by (elim exE conjE) (metis control.inject option.inject prod.inject)
  with r show ?thesis by blast
qed

text \<open>
  C12. A packet for a connection arrives whole. A UDP packet for the relayed address of a connection that has no
  frame in flight is written to that connection's stream as one frame, a Data indication with the packet's sender and
  payload: what the first write takes, what later writes of the rest take, and what is still
  pending, are together exactly that frame.
\<close>

theorem tcp_packet_delivered:
  assumes "tcp_reachable E N subnet streams" and "streams idx = Some c" and "key_fits N subnet idx"
    and "conn_partial c = None" and "carries_udp E sender (conn_relayed c) data packet" and "length data \<le> 65504"
    and "4 dvd length (packet @ slack)" and "length txid = 12"
  shows "\<exists>frame x y streams' c' wire.
    tun_frame E N subnet txid (length packet) (packet @ slack) (Wrote n) dr streams = ok (Go streams', Some (idx, wire)) \<and>
    is_data_indication txid frame \<and> attrs frame = ok [x, y] \<and>
    item_typ x = XOR_PEER_ADDRESS \<and> decoded (sockaddr_decode True) x = Some (sa_of_v6 sender) \<and>
    item_typ y = DATA \<and> item_bytes y = data \<and>
    streams' idx = Some c' \<and>
    (\<forall>ws v p out. flush_partial ws (conn_partial c') = ok (v, p, out) \<and> v \<noteq> Cleanup \<longrightarrow> wire @ out @ pending p = frame)"
proof -
  obtain frame x y where f: "\<forall>n dr. tun_frame E N subnet txid (length packet) (packet @ slack) (Wrote n) dr streams =
      ok (if n < length frame
          then (Go (streams(idx \<mapsto> c\<lparr>conn_partial := Some (0, drop n frame)\<rparr>)), Some (idx, take n frame))
          else (Go streams, Some (idx, frame)))"
    "is_data_indication txid frame" "attrs frame = ok [x, y]"
    "item_typ x = XOR_PEER_ADDRESS" "decoded (sockaddr_decode True) x = Some (sa_of_v6 sender)"
    "item_typ y = DATA" "item_bytes y = data"
    using reachable_ok [OF assms(1)] assms(2-8) by (rule tun_frame_deliver)
  let ?p = "if n < length frame then Some (0, drop n frame) else None"
  have p: "partial_ok ?p" "pending ?p = drop n frame" by simp_all
  have flush: "out @ pending p = drop n frame" if "flush_partial ws ?p = ok (v, p, out)" "v \<noteq> Cleanup" for ws v p out
    using flush_partial_ok [OF p(1), of ws] that p(2) by auto
  define streams' where "streams' = (if n < length frame then streams(idx \<mapsto> c\<lparr>conn_partial := ?p\<rparr>) else streams)"
  have "streams' idx = Some (c\<lparr>conn_partial := ?p\<rparr>)" using assms(2,4) by (simp add: streams'_def)
  moreover have "tun_frame E N subnet txid (length packet) (packet @ slack) (Wrote n) dr streams =
      ok (Go streams', Some (idx, take n frame))"
    using f(1) by (simp add: streams'_def)
  moreover have "\<forall>ws v p out. flush_partial ws (conn_partial (c\<lparr>conn_partial := ?p\<rparr>)) = ok (v, p, out) \<and> v \<noteq> Cleanup \<longrightarrow>
      take n frame @ out @ pending p = frame"
    using flush by auto
  ultimately show ?thesis using f(2-7) by blast
qed

theorem tcp_packet_delivered_witness:
  "\<exists>packet frame x y wire streams' c'.
    tun_frame sample_extern sample_net sample_subnet sample_txid (length packet) (packet @ [0, 0, 0]) (Wrote 10) True sample_streams =
      ok (Go streams', Some (3, wire)) \<and> attrs frame = ok [x, y] \<and> item_bytes y = hello \<and> streams' 3 = Some c' \<and>
    (\<forall>ws v p out. flush_partial ws (conn_partial c') = ok (v, p, out) \<and> v \<noteq> Cleanup \<longrightarrow> wire @ out @ pending p = frame)"
proof -
  define packet where "packet = ip6_as_bytes (sample_ip IP_PROTO_UDP 13 1 0xFD010000000000000000000000000000) @
    udp_as_bytes \<lparr>src_port = 1000, dst_port = 0x8003, udp_length = 13, checksum = 0\<rparr> @ hello"
  have c: "carries_udp sample_extern (v6_addr 1 1000) (conn_relayed sample_conn) hello packet"
    and l: "length packet = 53"
    using flags_emitted [OF sample_bitfield]
    by (simp_all add: carries_udp_def packet_def ip6.from_prefix_append udp.from_prefix_append ip6_len_def
        ip6.length_as_bytes udp.length_as_bytes sample_ip_def sample_conn_def hello_def)
  have s: "sample_streams 3 = Some sample_conn" "conn_partial sample_conn = None"
    by (simp_all add: sample_streams_def sample_conn_def)
  have "length hello \<le> 65504" "4 dvd length (packet @ [0, 0, 0])" "length sample_txid = 12"
    by (simp_all add: l hello_def)
  from tcp_packet_delivered [OF sample_accept s(1) sample_key_fits s(2) c this, of 10 True] show ?thesis by blast
qed

text \<open>
  C25. A frame in flight is finished: when every write takes at least one byte, then after as many writes as bytes are pending the
  loop has ended, with the whole frame on the wire, with a stream that cannot take more now, or with the
  connection closed; a frame that is finished has been written completely and exactly once.
\<close>

theorem tcp_flush_ends:
  assumes "partial_ok p" and "\<forall>n. Wrote n \<in> set ws \<longrightarrow> 0 < n" and "length (pending p) < length ws"
  shows "\<exists>v p' out. flush_partial ws p = ok (v, p', out) \<and> v \<in> {Break, Cleanup} \<and>
    (v = Break \<longrightarrow> out @ pending p' = pending p \<and> (WriteBlock \<notin> set ws \<longrightarrow> p' = None \<and> out = pending p))"
proof -
  obtain v p' out where f: "flush_partial ws p = ok (v, p', out)" "v \<in> {Break, Cleanup}"
    using flush_partial_ends [OF assms] by blast
  have "v = Break \<Longrightarrow> out @ pending p' = pending p" using flush_partial_ok [OF assms(1), of ws] f by auto
  moreover have "flush_partial ws p = ok (Break, p', out) \<Longrightarrow> WriteBlock \<notin> set ws \<Longrightarrow> p' = None"
    by (rule flush_partial_done)
  ultimately show ?thesis using f by auto
qed

theorem tcp_flush_ends_witness:
  "flush_partial [Wrote 2, Wrote 9, Wrote 1, Wrote 1] (Some (1, [1, 2, 3, 4])) = ok (Break, None, [2, 3, 4])"
  using tcp_flush_ends [of "Some (1, [1, 2, 3, 4])" "[Wrote 2, Wrote 9, Wrote 1, Wrote 1]"] by simp

text \<open>
  C26. A response can be written twice. A request that is answered with \<open>d\<close> while the stream cannot take the response at once, and takes it
  on the next attempt, leaves \<open>d\<close> both on the wire and in the partial frame: the next writable event writes the same bytes a
  second time, and until then further messages of the client are read and dropped.
\<close>

theorem tcp_response_duplicated:
  assumes "is_message m" and "take (length m) b = m" and "length m \<le> len" and "len \<le> length b" and "100 \<le> length b"
    and "attrs m = ok items" and "txid_of m \<noteq> replicate 12 0" and "100 \<le> k"
    and "turn_spec E (sa_of_v6 addr) addr (turn_attrs_of items) (class_of m) (method_of m) = Respond cls vs"
  shows "\<exists>d. reply_datagram E (turn_key E (turn_attrs_of items)) m cls vs d \<and>
    read_turn E addr None (Peeked len b, ReadOk (length m) b, [WriteBlock, Wrote k]) = ok (Continue, Some (0, d), d, []) \<and>
    read_turn E addr (Some (0, d)) (Peeked len b, ReadOk (length m) b, ws) = ok (Continue, Some (0, d), [], []) \<and>
    flush_partial [Wrote k] (Some (0, d)) = ok (Break, None, d)"
proof -
  obtain d where d: "\<forall>ws. read_turn E addr None (Peeked len b, ReadOk (length m) b, ws) = do {
      (v, p, out) \<leftarrow> write_resp ws 0 d None; ok (if v = Break then Continue else v, p, out, []) }"
    "reply_datagram E (turn_key E (turn_attrs_of items)) m cls vs d" "length d \<le> 100"
    using assms(1-7,9) by (rule read_turn_answer)
  have "read_turn E addr (Some (0, d)) (Peeked len b, ReadOk (length m) b, ws) = ok (Continue, Some (0, d), [], [])"
    using whole_message [OF assms(1-4)] assms(3,4) by (simp add: read_turn_def)
  then show ?thesis using d assms(8) by (intro exI [of _ d]) (simp add: Let_def)
qed

theorem tcp_response_duplicated_witness:
  "\<exists>d. read_turn sample_extern sample_relayed None
      (Peeked 30 binding_request, ReadOk 20 binding_request, [WriteBlock, Wrote 100]) = ok (Continue, Some (0, d), d, []) \<and>
    flush_partial [Wrote 100] (Some (0, d)) = ok (Break, None, d)"
proof -
  let ?m = "take 20 binding_request"
  have "turn_spec sample_extern (sa_of_v6 sample_relayed) sample_relayed (turn_attrs_of []) (class_of ?m) (method_of ?m) =
      Respond Success [XorMapped (sa_of_v6 sample_relayed)]"
    by (simp add: binding_message turn_spec_def)
  from tcp_response_duplicated [OF binding_message(1) _ _ _ _ binding_message(2) _ _ this, of binding_request 30 100]
  show ?thesis by (simp add: binding_message sample_txid_nonzero del: flush_partial.simps) blast
qed

text \<open>
  C23. Messages are cut out of the byte stream correctly. Let \<open>m\<close> be any complete message at the front of a stream that the buffer can hold.
  While only a part of it has arrived, the server reads nothing and waits, whether or not a partial frame is pending. Once all of it has arrived, whatever follows it,
  the server reads exactly its bytes: a read of any other number of bytes ends the connection. The message that was read is dropped when
  a partial frame is pending. Otherwise its own transaction id, class, method and attributes, and nothing that follows it, decide what happens: a message with a zero transaction id
  or that the policy ignores leaves no trace; to one that the policy answers, the response is written; one that is to be relayed writes nothing to the stream
  and emits the packet with its data to its peer. In each case the server goes on with the next message.
\<close>

theorem tcp_stream_framing:
  assumes "bitfield_ok E" and "is_message m" and "100 \<le> length b" and "length m \<le> length b" and "len \<le> length b"
    and "take (min len (length m)) b = take len m" and "attrs m = ok items" and "a = turn_attrs_of items"
  shows "if len < length m then \<forall>p read ws. read_turn E addr p (Peeked len b, read, ws) = ok (Break, p, [], [])
    else (\<forall>p n b' ws. n \<noteq> length m \<longrightarrow> read_turn E addr p (Peeked len b, ReadOk n b', ws) = ok (Cleanup, p, [], [])) \<and>
      (\<forall>p ws. p \<noteq> None \<longrightarrow> read_turn E addr p (Peeked len b, ReadOk (length m) b, ws) = ok (Continue, p, [], [])) \<and>
      (case if txid_of m = replicate 12 0 then Ignore else turn_spec E (sa_of_v6 addr) addr a (class_of m) (method_of m) of
         Ignore \<Rightarrow> \<forall>ws. read_turn E addr None (Peeked len b, ReadOk (length m) b, ws) = ok (Continue, None, [], [])
       | Respond cls vs \<Rightarrow> \<exists>d. reply_datagram E (turn_key E a) m cls vs d \<and> length d \<le> 100 \<and>
           (\<forall>k ws. length d \<le> k \<longrightarrow>
             read_turn E addr None (Peeked len b, ReadOk (length m) b, Wrote k # ws) = ok (Continue, None, d, []))
       | Relay \<Rightarrow> \<exists>sent. relayed_packets E addr (length b) a sent \<and>
           (\<forall>ws. read_turn E addr None (Peeked len b, ReadOk (length m) b, ws) = ok (Continue, None, [], sent)))"
proof (cases "len < length m")
  case True
  then have "take len b = take len m" using assms(6) by simp
  from part_too_short [OF assms(2) this True assms(4)] show ?thesis
    using True by (auto simp: read_turn_def)
next
  case False
  then have m: "take (length m) b = m" "length m \<le> len" using assms(6) by simp_all
  note w = whole_message [OF assms(2) m assms(5)]
  have 20: "20 \<le> length b" using assms(3) by simp
  have items: "attrs b = ok items" using w(3) assms(7) by simp
  note eq = handle_turn_eq [OF 20 items assms(8), of E "sa_of_v6 addr" addr, unfolded w(4-6)]
  have turn: "read_turn E addr None (Peeked len b, ReadOk (length m) b, ws) = ok (Continue, None, [], sent)"
    if "handle_turn E (sa_of_v6 addr) addr b = ok (None, sent)" for sent ws
    using that w(1,2) assms(4) by (simp add: read_turn_def Let_def)
  let ?act = "if txid_of m = replicate 12 0 then Ignore else turn_spec E (sa_of_v6 addr) addr a (class_of m) (method_of m)"
  have "\<exists>d. reply_datagram E (turn_key E a) m cls vs d \<and> length d \<le> 100 \<and> (\<forall>k ws. length d \<le> k \<longrightarrow>
      read_turn E addr None (Peeked len b, ReadOk (length m) b, Wrote k # ws) = ok (Continue, None, d, []))"
    if "?act = Respond cls vs" for cls vs
  proof -
    have act: "txid_of m \<noteq> replicate 12 0" "turn_spec E (sa_of_v6 addr) addr (turn_attrs_of items) (class_of m) (method_of m) = Respond cls vs"
      using that assms(8) by (simp_all split: if_splits)
    show ?thesis
      by (rule read_turn_answer [OF assms(2) m assms(5,3,7) act]) (use assms(8) in \<open>auto simp: Let_def\<close>)
  qed
  moreover have "\<forall>ws. read_turn E addr None (Peeked len b, ReadOk (length m) b, ws) = ok (Continue, None, [], [])" if "?act = Ignore"
    using that eq by (intro allI turn) (auto split: if_splits)
  moreover have "\<exists>sent. relayed_packets E addr (length b) a sent \<and>
      (\<forall>ws. read_turn E addr None (Peeked len b, ReadOk (length m) b, ws) = ok (Continue, None, [], sent))" if "?act = Relay"
    using turn_send_relays [OF assms(1) items assms(8), of addr] that eq turn by (auto split: if_splits)
  moreover have "read_turn E addr p (Peeked len b, ReadOk n b', ws) = ok (Cleanup, p, [], [])" if "n \<noteq> length m" for p n b' ws
    using that w(1,2) assms(4) by (simp add: read_turn_def)
  moreover have "read_turn E addr p (Peeked len b, ReadOk (length m) b, ws) = ok (Continue, p, [], [])" if "p \<noteq> None" for p ws
    using that w(1,2) assms(4) by (simp add: read_turn_def)
  ultimately show ?thesis using False by (simp split: turn_action.split)
qed

theorem tcp_stream_framing_witness:
  "(\<forall>p read ws. read_turn sample_extern sample_relayed p (Peeked 15 binding_request, read, ws) = ok (Break, p, [], [])) \<and>
   (\<forall>p b' ws. read_turn sample_extern sample_relayed p (Peeked 30 binding_request, ReadOk 30 b', ws) = ok (Cleanup, p, [], [])) \<and>
   (\<exists>d. read_turn sample_extern sample_relayed None
      (Peeked 30 binding_request, ReadOk 20 binding_request, [Wrote 100]) = ok (Continue, None, d, []))"
proof -
  note framing = tcp_stream_framing [OF sample_bitfield binding_message(1) _ _ _ _ binding_message(2) refl, of binding_request _ sample_relayed]
  show ?thesis
    using framing [of 15] framing [of 30] by (auto simp: binding_message turn_spec_def sample_txid_nonzero)
qed

text \<open>
  C8. The server connects its clients. Alice's stream becomes readable with a Send indication for the relayed
  address of Bob's connection. The handler consumes exactly that message, writes nothing to Alice and emits one packet; when
  the network routes it back, it is written to Bob's stream as one frame, a Data indication with Alice's relayed address as
  XOR-PEER-ADDRESS and Alice's data, of which the part that the stream does not take at once is kept.
\<close>

theorem tcp_relay_end_to_end:
  assumes "tcp_reachable E N subnet streams" and "bitfield_ok E"
    and "streams alice = Some ca" and "conn_partial ca = None"
    and "streams bob = Some cb" and "conn_partial cb = None" and "key_fits N subnet bob"
    and "is_message m" and "take (length m) buffer = m" and "length m \<le> len" and "len \<le> length buffer"
    and "attrs m = ok items" and "txid_of m \<noteq> replicate 12 0" and "class_of m = Indication" and "method_of m = Send"
    and a: "a = turn_attrs_of items" "ta_unknown a = None"
      "ta_xor_peer a = Some (sa_of_v6 (conn_relayed cb))" "ta_data a = Some (ptr, d)"
    and "48 + length d \<le> length buffer" and "length d \<le> 65504" and "length txid = 12"
    and "e = \<lparr>read_closed = False, is_error = False, writable = w, readable = True\<rparr>"
  shows "\<exists>packet. stream_event E alice e ws [(Peeked len buffer, ReadOk (length m) buffer, ws'), (PeekBlock, r, ws'')] dr streams =
      ok (Go streams, [], [packet]) \<and>
    (\<forall>slack. 4 dvd length (packet @ slack) \<longrightarrow>
      (\<exists>frame x y. (\<forall>n dr. tun_frame E N subnet txid (length packet) (packet @ slack) (Wrote n) dr streams =
          ok (if n < length frame
              then (Go (streams(bob \<mapsto> cb\<lparr>conn_partial := Some (0, drop n frame)\<rparr>)), Some (bob, take n frame))
              else (Go streams, Some (bob, frame)))) \<and>
        is_data_indication txid frame \<and> attrs frame = ok [x, y] \<and>
        item_typ x = XOR_PEER_ADDRESS \<and> decoded (sockaddr_decode True) x = Some (sa_of_v6 (conn_relayed ca)) \<and>
        item_typ y = DATA \<and> item_bytes y = d))"
proof -
  have "from_index N subnet bob = Some (conn_relayed cb)"
    using reachable_ok [OF assms(1)] assms(5) by (simp add: streams_ok_def)
  then have bob: "v6_addr (v6_ip (conn_relayed cb)) (v6_port (conn_relayed cb)) = conn_relayed cb"
    by (auto simp: from_index_def Let_def v6_addr_def split: if_splits)
  have peer: "ta_xor_peer a = Some (SocketAddr (IpV6 (v6_ip (conn_relayed cb))) (v6_port (conn_relayed cb)))"
    using a(3) by (simp add: sa_of_v6_def)
  obtain packet where p: "read_turn E (conn_relayed ca) None (Peeked len buffer, ReadOk (length m) buffer, ws') =
        ok (Continue, None, [], [packet])"
      "is_udp_packet E (conn_relayed ca) (conn_relayed cb) d packet"
    using read_turn_send [OF assms(2,8-15) a(1,2) peer a(4) assms(20), of "conn_relayed ca" ws'] unfolding bob by blast
  have "streams(alice \<mapsto> ca\<lparr>conn_partial := None\<rparr>) = streams" using assms(3,4) by (auto simp: fun_eq_iff)
  moreover have "read_turn E (conn_relayed ca) None (PeekBlock, r, ws'') = ok (Break, None, [], [])" by (simp add: read_turn_def)
  ultimately have "stream_event E alice e ws [(Peeked len buffer, ReadOk (length m) buffer, ws'), (PeekBlock, r, ws'')] dr streams =
      ok (Go streams, [], [packet])"
    using p(1) assms(3,4) by (simp add: stream_event_def assms(23))
  moreover have "\<exists>frame x y. (\<forall>n dr. tun_frame E N subnet txid (length packet) (packet @ slack) (Wrote n) dr streams =
          ok (if n < length frame
              then (Go (streams(bob \<mapsto> cb\<lparr>conn_partial := Some (0, drop n frame)\<rparr>)), Some (bob, take n frame))
              else (Go streams, Some (bob, frame)))) \<and>
        is_data_indication txid frame \<and> attrs frame = ok [x, y] \<and>
        item_typ x = XOR_PEER_ADDRESS \<and> decoded (sockaddr_decode True) x = Some (sa_of_v6 (conn_relayed ca)) \<and>
        item_typ y = DATA \<and> item_bytes y = d" if "4 dvd length (packet @ slack)" for slack
    using reachable_ok [OF assms(1)] assms(5,7,6) is_udp_packet_carries [OF p(2)] assms(21) that assms(22)
    by (rule tun_frame_deliver) blast
  ultimately show ?thesis by blast
qed

text \<open>A subnet in which the peer of the sample Send indication is the connection with key 0x9234.\<close>

definition relay_subnet :: "byte \<times> u128" where
  "relay_subnet = (79, 0xFE800000000000000000000000000000)"

definition relay_alice :: conn where
  "relay_alice = \<lparr>conn_relayed = v6_addr 0xFE800000000000000000000000000000 0x8003, conn_partial = None\<rparr>"

definition relay_bob :: conn where
  "relay_bob = \<lparr>conn_relayed = v6_addr 0xFE800000000000000000000000000001 0x9234, conn_partial = None\<rparr>"

definition relay_streams :: slab where
  "relay_streams = Map.empty(3 \<mapsto> relay_alice, 0x9234 \<mapsto> relay_bob)"

lemma relay_from_index:
  "from_index sample_net relay_subnet 3 = Some (conn_relayed relay_alice)"
  "from_index sample_net relay_subnet 0x9234 = Some (conn_relayed relay_bob)"
  by (simp_all add: from_index_def sample_net_def relay_subnet_def sample_hostmask_def sample_prefix_def
      relay_alice_def relay_bob_def Let_def mask_eq_exp_minus_1 drop_bit_eq_div)

lemma relay_reachable: "tcp_reachable E sample_net relay_subnet relay_streams"
proof -
  have "accept sample_net relay_subnet True 3 True Map.empty = Go (Map.empty(3 \<mapsto> relay_alice))"
    "accept sample_net relay_subnet True 0x9234 True (Map.empty(3 \<mapsto> relay_alice)) = Go relay_streams"
    by (simp_all add: accept_def relay_from_index relay_streams_def) (simp_all add: relay_alice_def relay_bob_def)
  then have "tcp_step E sample_net relay_subnet Map.empty (Map.empty(3 \<mapsto> relay_alice))"
    "tcp_step E sample_net relay_subnet (Map.empty(3 \<mapsto> relay_alice)) relay_streams"
    by (auto intro: step_accept [where key = 3] step_accept [where key = "0x9234"])
  then show ?thesis by (meson converse_rtranclp_into_rtranclp r_into_rtranclp)
qed

theorem tcp_relay_end_to_end_witness:
  "\<exists>packet. stream_event sample_extern 3 \<lparr>read_closed = False, is_error = False, writable = True, readable = True\<rparr> []
      [(Peeked 60 send_indication, ReadOk 56 send_indication, []), (PeekBlock, ReadErr, [])] True relay_streams =
      ok (Go relay_streams, [], [packet])"
proof -
  let ?m = "take 56 send_indication"
  have m: "is_message ?m" "txid_of ?m = sample_txid" "class_of ?m = Indication" "method_of ?m = Send"
    by (simp_all add: is_message_def decode_Inr fields_take sample_types sample_length_fields sample_cookies
        sample_txids sample_class_method)
  have at: "attrs ?m = ok [item_at send_indication 0, item_at send_indication 24]"
    using attrs_take [of send_indication] by (simp add: sample_length_fields send_attrs)
  have s: "relay_streams 3 = Some relay_alice" "conn_partial relay_alice = None"
      "relay_streams 0x9234 = Some relay_bob" "conn_partial relay_bob = None" "key_fits sample_net relay_subnet 0x9234"
    by (simp_all add: relay_streams_def relay_alice_def relay_bob_def key_fits_def sample_net_ok)
      (simp_all add: sample_net_def relay_subnet_def sample_prefix_def)
  show ?thesis
    using tcp_relay_end_to_end [OF relay_reachable sample_bitfield s m(1), where buffer = send_indication and len = 60
        and txid = sample_txid and d = hello and ptr = 48, OF _ _ _ at _ _ _ refl _ _ _ _ _ _ refl, where w = True and ws = "[]"
        and r = ReadErr and dr = True]
    by (simp add: m send_turn_attrs sample_txid_nonzero hello_def relay_bob_def sa_of_v6_def v6_addr_def) blast
qed

end
