(* ===== verification/Dtls_Proxy.thy ===== *)
theory Dtls_Proxy
  imports Turn_Server "HOL-Library.AList"
begin

text \<open>
  \<^verbatim>\<open>src/bin/dtls-proxy.rs\<close>: a proxy between DTLS clients and a plaintext endpoint. It keeps one DTLS
  stream per address that clients send to, and one packet buffer that is shared with the streams: OpenSSL reads
  from it and writes through it by the callbacks of \<open>bio\<close>.

  OpenSSL, the SRTP sessions, the clock and the TUN interface are the environment. What they do in one turn of the loop
  is input (\<open>dtls_env\<close>): which callbacks OpenSSL makes and whether its call fails, what the SRTP transforms
  return, what the reads of pending plaintext return. The packet is in a \<^verbatim>\<open>RefCell\<close> that is borrowed
  during such a read: a callback then would be a panic, and \<open>env_ok\<close> has the documented behaviour of OpenSSL that
  pending plaintext is returned without one.
  The streams are an association list in place of the \<^verbatim>\<open>BTreeMap\<close>; an instant is a number of nanoseconds.
\<close>

section \<open>The packet and the callbacks\<close>

record udp6_packet =
  pk_ip :: ip6_header
  pk_udp :: udp_header
  pk_buffer :: buf

definition packet_as_bytes :: "udp6_packet \<Rightarrow> buf" where
  "packet_as_bytes p = ip6_as_bytes (pk_ip p) @ udp_as_bytes (pk_udp p) @ pk_buffer p"

record bio =
  send_from :: socket_addr_v6
  send_to :: socket_addr_v6
  last_update :: nat
  sessions :: bool

datatype bio_error = OutOfMemory | WouldBlock

text \<open>The headers of an outgoing packet, as \<open>bio_write\<close> and the loop over the plaintext fill them in.\<close>

definition fill_packet ::
    "('x) bitfield_scheme \<Rightarrow> socket_addr_v6 \<Rightarrow> socket_addr_v6 \<Rightarrow> buf \<Rightarrow> udp6_packet \<Rightarrow> udp6_packet run" where
  "fill_packet E sender receiver data p = do {
     let payload_length = 8 + length data;
     let ip = (pk_ip p)\<lparr>
       flags := set_flow_label E 0 (set_traffic_class E 0 (set_version E 6 (flags (pk_ip p)))),
       next_header := IP_PROTO_UDP, hop_limit := 64, payload_length := of_nat payload_length,
       src := v6_ip sender, dst := v6_ip receiver\<rparr>;
     let udp = (pk_udp p)\<lparr>src_port := v6_port sender, dst_port := v6_port receiver,
       udp_length := ip6_header.payload_length ip\<rparr>;
     udp \<leftarrow> udp_checksum_fill ip udp data;
     ok (p\<lparr>pk_ip := ip, pk_udp := udp\<rparr>) }"

definition burn :: "udp6_packet \<Rightarrow> udp6_packet" where
  "burn p = p\<lparr>pk_udp := (pk_udp p)\<lparr>udp_length := 0\<rparr>\<rparr>"

definition bio_write ::
    "('x) bitfield_scheme \<Rightarrow> nat \<Rightarrow> bio \<Rightarrow> buf \<Rightarrow> udp6_packet \<Rightarrow>
     ((bio_error + nat) \<times> bio \<times> udp6_packet \<times> buf list) run" where
  "bio_write E now b data p =
    (if length (pk_buffer p) < length data then ok (Inl OutOfMemory, b, p, [])
     else do {
       let packet_length = 40 + (8 + length data);
       let p = p\<lparr>pk_buffer := overwrite (pk_buffer p) 0 data\<rparr>;
       p \<leftarrow> fill_packet E (send_from b) (send_to b) data p;
       packet \<leftarrow> slice (packet_as_bytes p) 0 packet_length;
       ok (Inr (length data), b\<lparr>last_update := now\<rparr>, burn p, [packet]) })"

definition bio_read :: "bio \<Rightarrow> nat \<Rightarrow> udp6_packet \<Rightarrow> ((bio_error + buf) \<times> udp6_packet) run" where
  "bio_read b capacity p =
    (if udp_length (pk_udp p) < 8 then ok (Inl WouldBlock, p)
     else if dst (pk_ip p) \<noteq> v6_ip (send_from b) then ok (Inl WouldBlock, p)
     else if dst_port (pk_udp p) \<noteq> v6_port (send_from b) then ok (Inl WouldBlock, p)
     else do {
       let len = unat (udp_length (pk_udp p) - 8);
       let p = burn p;
       data \<leftarrow> slice (pk_buffer p) 0 len;
       if capacity < len then ok (Inl OutOfMemory, p) else ok (Inr data, p) })"

section \<open>The loop\<close>

datatype bio_call = BioWrite nat buf | BioRead nat

fun run_bio ::
    "('x) bitfield_scheme \<Rightarrow> bio_call list \<Rightarrow> bio \<Rightarrow> udp6_packet \<Rightarrow> (bio \<times> udp6_packet \<times> buf list) run" where
  "run_bio E [] b p = ok (b, p, [])"
| "run_bio E (BioWrite now data # calls) b p = do {
     (_, b, p, sent) \<leftarrow> bio_write E now b data p;
     (b, p, sent') \<leftarrow> run_bio E calls b p;
     ok (b, p, sent @ sent') }"
| "run_bio E (BioRead capacity # calls) b p = do {
     (_, p) \<leftarrow> bio_read b capacity p;
     run_bio E calls b p }"

text \<open>What the loop asks OpenSSL to do with a stream.\<close>

datatype ssl_op = Handshake | SslWrite buf | SslPeek nat

datatype srtp_op = UnprotectRtcp | Unprotect | ProtectRtcp | Protect

record dtls_env =
  env_now :: nat
  stream_new :: bool
  init_finished :: bool
  ssl_calls :: "ssl_op \<Rightarrow> bio_call list"
  init_finished_after :: bool
  session_pair :: bool
  ssl_failed :: "ssl_op \<Rightarrow> bool"
  srtp :: "srtp_op \<Rightarrow> buf \<Rightarrow> nat \<Rightarrow> buf \<times> nat option"
  pending_reads :: "ssl_op \<Rightarrow> (bio_call list \<times> buf option) list"

text \<open>What is kept of a received packet: destination, source, first two bytes, plaintext.\<close>

type_synonym received = "socket_addr_v6 \<times> socket_addr_v6 \<times> (byte \<times> byte) option \<times> buf"

definition first_chunk2 :: "buf \<Rightarrow> (byte \<times> byte) option" where
  "first_chunk2 data = (case data of a # b # _ \<Rightarrow> Some (a, b) | _ \<Rightarrow> None)"

definition dtls_recv ::
    "('x) bitfield_scheme \<Rightarrow> socket_addr_v6 \<Rightarrow> nat \<Rightarrow> udp6_packet \<Rightarrow> received option run" where
  "dtls_recv E endpoint len p =
    (let ip = pk_ip p; udp = pk_udp p in
     if version E (flags ip) \<noteq> 6 then ok None
     else if ip6_len ip \<noteq> len then ok None
     else if next_header ip \<noteq> IP_PROTO_UDP then ok None
     else if unat (payload_length ip) < 8 then ok None
     else if udp_length udp \<noteq> payload_length ip then ok None
     else do {
       data \<leftarrow> slice (pk_buffer p) 0 (unat (udp_length udp) - 8);
       let dst = v6_addr (ip6_header.dst ip) (dst_port udp);
       let src = v6_addr (ip6_header.src ip) (src_port udp);
       ok (Some (dst, src, first_chunk2 data, if src = endpoint then data else [])) })"

type_synonym streams = "(socket_addr_v6 \<times> bio) list"

datatype dtls_control = Loop streams nat udp6_packet | Quit

text \<open>Media packets: transformed in place and passed on, without a new checksum of the flags.\<close>

definition srtp_op_of :: "bool \<Rightarrow> byte \<Rightarrow> srtp_op" where
  "srtp_op_of from_rtp second =
    (let rtcp = 200 \<le> second \<and> second < 224 in
     if from_rtp then if rtcp then ProtectRtcp else Protect
     else if rtcp then UnprotectRtcp else Unprotect)"

definition media ::
    "dtls_env \<Rightarrow> socket_addr_v6 \<Rightarrow> bio \<Rightarrow> socket_addr_v6 \<Rightarrow> byte \<Rightarrow> udp6_packet \<Rightarrow> (udp6_packet \<times> buf list) option run" where
  "media env rtp_endpoint b source second p = do {
     let ip = pk_ip p;
     let udp = pk_udp p;
     assert (8 \<le> unat (udp_length udp));
     case srtp env (srtp_op_of (source = rtp_endpoint) second) (pk_buffer p) (unat (udp_length udp) - 8) of
       (buffer, None) \<Rightarrow> ok (Some (p\<lparr>pk_buffer := buffer\<rparr>, []))
     | (buffer, Some new_len) \<Rightarrow> do {
         let receiver = (if source = rtp_endpoint then send_to b else rtp_endpoint);
         data \<leftarrow> slice buffer 0 new_len;
         if 65536 \<le> 8 + new_len then ok None else do {
         let packet_length = 40 + 8 + new_len;
         let ip = ip\<lparr>payload_length := of_nat (8 + new_len), src := v6_ip (send_from b), dst := v6_ip receiver\<rparr>;
         let udp = udp\<lparr>udp_length := ip6_header.payload_length ip, src_port := v6_port (send_from b),
           dst_port := v6_port receiver\<rparr>;
         udp \<leftarrow> udp_checksum_fill ip udp data;
         let p = \<lparr>pk_ip = ip, pk_udp = udp, pk_buffer = buffer\<rparr>;
         packet \<leftarrow> slice (packet_as_bytes p) 0 packet_length;
         ok (Some (p, [packet])) }}}"

text \<open>
  The loop over the pending plaintext: for each turn the callbacks that the read makes, and what it returns. The packet
  is borrowed during the read.
\<close>

fun emit_plain ::
    "('x) bitfield_scheme \<Rightarrow> socket_addr_v6 \<Rightarrow> socket_addr_v6 \<Rightarrow> (bio_call list \<times> buf option) list \<Rightarrow> bio \<Rightarrow> udp6_packet \<Rightarrow>
     (bio \<times> udp6_packet \<times> buf list) run" where
  "emit_plain E endpoint source [] b p = ok (b, p, [])"
| "emit_plain E endpoint source ((calls, result) # rest) b p =
    (if calls \<noteq> [] then panic
     else case result of None \<Rightarrow> ok (b, p, [])
     | Some data \<Rightarrow> do {
         let p = p\<lparr>pk_buffer := overwrite (pk_buffer p) 0 data\<rparr>;
         _ \<leftarrow> slice (pk_buffer p) 0 (length data);
         let packet_length = 40 + (8 + length data);
         let b = b\<lparr>send_to := source\<rparr>;
         p \<leftarrow> fill_packet E (send_from b) endpoint data p;
         packet \<leftarrow> slice (packet_as_bytes p) 0 packet_length;
         (b, p, sent) \<leftarrow> emit_plain E endpoint source rest b p;
         ok (b, p, packet # sent) })"

definition max_age :: nat where
  "max_age = 5 * 60 * 1000000000"

definition cleanup_streams :: "nat \<Rightarrow> streams \<Rightarrow> nat \<Rightarrow> streams \<times> nat" where
  "cleanup_streams now streams next_cleanup =
    (if next_cleanup < length streams
     then let streams = filter (\<lambda>(_, b). now - last_update b < max_age) streams in (streams, length streams + 10)
     else (streams, next_cleanup))"

text \<open>The entry of the map for the destination; \<open>None\<close> for a packet that is dropped.\<close>

definition stream_for :: "dtls_env \<Rightarrow> socket_addr_v6 \<Rightarrow> streams \<Rightarrow> socket_addr_v6 \<Rightarrow> socket_addr_v6 \<Rightarrow> bio option" where
  "stream_for env endpoint streams target source =
    (case map_of streams target of
       Some b \<Rightarrow> Some b
     | None \<Rightarrow> if source = endpoint then None
         else Some \<lparr>send_from = target, send_to = source, last_update = env_now env, sessions = False\<rparr>)"

definition ssl_op_of :: "dtls_env \<Rightarrow> bool \<Rightarrow> buf \<Rightarrow> ssl_op" where
  "ssl_op_of env from_endpoint plain =
    (if \<not> init_finished env then Handshake else if from_endpoint then SslWrite plain else SslPeek 4)"

definition dtls_ssl ::
    "('x) bitfield_scheme \<Rightarrow> dtls_env \<Rightarrow> ssl_op \<Rightarrow> socket_addr_v6 \<Rightarrow> socket_addr_v6 \<Rightarrow> socket_addr_v6 \<Rightarrow> streams \<Rightarrow> nat \<Rightarrow>
     bio \<Rightarrow> udp6_packet \<Rightarrow> (dtls_control \<times> buf list) run" where
  "dtls_ssl E env op endpoint target source streams next_cleanup b p = do {
     (b, p, sent) \<leftarrow> run_bio E (ssl_calls env op) b p;
     let b = (if \<not> init_finished env \<and> init_finished_after env then b\<lparr>sessions := session_pair env\<rparr> else b);
     if ssl_failed env op then ok (Loop (AList.delete target streams) next_cleanup p, sent) else do {
     (b, p, sent') \<leftarrow> emit_plain E endpoint source (pending_reads env op) b p;
     let (streams, next_cleanup) = cleanup_streams (env_now env) (AList.update target b streams) next_cleanup;
     ok (Loop streams next_cleanup p, sent @ sent') }}"

text \<open>What is done with a stream for a packet: a handshake, a media packet, or application data.\<close>

definition dtls_stream ::
    "('x) bitfield_scheme \<Rightarrow> dtls_env \<Rightarrow> socket_addr_v6 \<Rightarrow> socket_addr_v6 \<Rightarrow> received \<Rightarrow> streams \<Rightarrow> nat \<Rightarrow>
     bio \<Rightarrow> udp6_packet \<Rightarrow> (dtls_control \<times> buf list) run" where
  "dtls_stream E env endpoint rtp_endpoint = (\<lambda>(target, source, first_bytes, plain) streams next_cleanup b p.
    (let op = ssl_op_of env (source = endpoint) plain in
     case (init_finished env, first_bytes) of
       (True, Some (first, second)) \<Rightarrow>
         if 128 \<le> first \<and> first < 191
         then if \<not> sessions b then ok (Loop streams next_cleanup p, [])
           else do {
             m \<leftarrow> media env rtp_endpoint b source second p;
             case m of None \<Rightarrow> ok (Quit, []) | Some (p, sent) \<Rightarrow> ok (Loop streams next_cleanup p, sent) }
         else dtls_ssl E env op endpoint target source streams next_cleanup b p
     | _ \<Rightarrow> dtls_ssl E env op endpoint target source streams next_cleanup b p))"

definition dtls_step ::
    "('x) bitfield_scheme \<Rightarrow> dtls_env \<Rightarrow> socket_addr_v6 \<Rightarrow> socket_addr_v6 \<Rightarrow> nat \<Rightarrow> streams \<Rightarrow> nat \<Rightarrow> udp6_packet \<Rightarrow>
     (dtls_control \<times> buf list) run" where
  "dtls_step E env endpoint rtp_endpoint len streams next_cleanup p = do {
     r \<leftarrow> dtls_recv E endpoint len p;
     case r of None \<Rightarrow> ok (Loop streams next_cleanup p, [])
     | Some (target, source, first_bytes, plain) \<Rightarrow>
     (case stream_for env endpoint streams target source of None \<Rightarrow> ok (Loop streams next_cleanup p, [])
     | Some b \<Rightarrow>
       if map_of streams target = None \<and> \<not> stream_new env then ok (Quit, [])
       else dtls_stream E env endpoint rtp_endpoint (target, source, first_bytes, plain) (AList.update target b streams)
         next_cleanup b p) }"

text \<open>
  The loop: each turn receives into the shared packet, whose bytes after the received ones stay as they were. \<open>None\<close>
  is a receive that fails.
\<close>

definition recv_packet :: "buf \<Rightarrow> udp6_packet \<Rightarrow> udp6_packet" where
  "recv_packet data p =
    (let bytes = overwrite (packet_as_bytes p) 0 data in
     \<lparr>pk_ip = ip6_of_bytes (sub bytes 0 40), pk_udp = udp_of_bytes (sub bytes 40 8), pk_buffer = drop 48 bytes\<rparr>)"

fun dtls_loop ::
    "('x) bitfield_scheme \<Rightarrow> socket_addr_v6 \<Rightarrow> socket_addr_v6 \<Rightarrow> (dtls_env \<times> buf option) list \<Rightarrow>
     streams \<Rightarrow> nat \<Rightarrow> udp6_packet \<Rightarrow> (dtls_control \<times> buf list) run" where
  "dtls_loop E endpoint rtp_endpoint [] streams next_cleanup p = ok (Loop streams next_cleanup p, [])"
| "dtls_loop E endpoint rtp_endpoint ((env, None) # turns) streams next_cleanup p =
     dtls_loop E endpoint rtp_endpoint turns streams next_cleanup p"
| "dtls_loop E endpoint rtp_endpoint ((env, Some data) # turns) streams next_cleanup p = do {
     (ctl, sent) \<leftarrow> dtls_step E env endpoint rtp_endpoint (length data) streams next_cleanup (recv_packet data p);
     case ctl of Quit \<Rightarrow> ok (Quit, sent)
     | Loop streams next_cleanup p \<Rightarrow> do {
         (ctl, sent') \<leftarrow> dtls_loop E endpoint rtp_endpoint turns streams next_cleanup p;
         ok (ctl, sent @ sent') }}"

definition new_packet :: udp6_packet where
  "new_packet = \<lparr>pk_ip = ip6_of_bytes (replicate 40 0), pk_udp = udp_of_bytes (replicate 8 0), pk_buffer = replicate 4096 0\<rparr>"

definition dtls_main ::
    "('x) bitfield_scheme \<Rightarrow> socket_addr_v6 \<Rightarrow> socket_addr_v6 \<Rightarrow> (dtls_env \<times> buf option) list \<Rightarrow> (dtls_control \<times> buf list) run" where
  "dtls_main E endpoint rtp_endpoint turns = dtls_loop E endpoint rtp_endpoint turns [] 10 new_packet"

section \<open>Callbacks and packets\<close>

text \<open>
  The shared packet: its buffer has 4096 bytes, and its UDP length is either too small for a header (the
  packet is burned) or within the buffer.
\<close>

definition packet_ok :: "udp6_packet \<Rightarrow> bool" where
  "packet_ok p \<longleftrightarrow> length (pk_buffer p) = 4096 \<and> unat (udp_length (pk_udp p)) \<le> 4104"

lemma fill_packet_emits:
  assumes "bitfield_ok E" and "take (length data) (pk_buffer p) = data" and "length data \<le> 4096"
  obtains p' packet where "fill_packet E s r data p = ok p'" "pk_buffer p' = pk_buffer p"
    "slice (packet_as_bytes p') 0 (40 + (8 + length data)) = ok packet" "is_udp_packet E s r data packet"
    "udp_length (pk_udp p') = of_nat (8 + length data)"
proof -
  let ?n = "of_nat (8 + length data) :: u16"
  define ip where "ip = (pk_ip p)\<lparr>flags := 0x60000000, next_header := IP_PROTO_UDP, hop_limit := 64,
    payload_length := ?n, src := v6_ip s, dst := v6_ip r\<rparr>"
  define u where "u = (pk_udp p)\<lparr>src_port := v6_port s, dst_port := v6_port r, udp_length := ?n\<rparr>"
  have "length data \<le> 131028" using assms(3) by simp
  then obtain c where c: "udp_checksum_fill ip u data = ok (u\<lparr>checksum := c\<rparr>)"
      "udp_checksum_valid ip (u\<lparr>checksum := c\<rparr>) data"
    by (rule udp_checksum_fill_ok)
  define p' where "p' = p\<lparr>pk_ip := ip, pk_udp := u\<lparr>checksum := c\<rparr>\<rparr>"
  define packet where "packet = ip6_as_bytes ip @ udp_as_bytes (u\<lparr>checksum := c\<rparr>) @ data"
  have fill: "fill_packet E s r data p = ok p'"
    using c(1) emitted_flags [OF assms(1)]
    by (simp add: fill_packet_def Let_def ip_def u_def p'_def del: of_nat_add)
  have "length data \<le> length (pk_buffer p)" using assms(2) by (metis length_take min.cobounded1 min_def)
  then have slice: "slice (packet_as_bytes p') 0 (40 + (8 + length data)) = ok packet"
    using assms(2) by (simp add: packet_as_bytes_def p'_def packet_def sub_def ip6.length_as_bytes udp.length_as_bytes)
  have pre: "from_prefix 40 ip6_of_bytes packet = Some (ip, udp_as_bytes (u\<lparr>checksum := c\<rparr>) @ data)"
      "from_prefix 8 udp_of_bytes (udp_as_bytes (u\<lparr>checksum := c\<rparr>) @ data) = Some (u\<lparr>checksum := c\<rparr>, data)"
    by (simp_all add: packet_def ip6.from_prefix_append udp.from_prefix_append)
  have "ip6_len ip = length packet"
    using assms(3) by (simp add: ip6_len_def ip_def packet_def unat_of_nat_u16 ip6.length_as_bytes udp.length_as_bytes del: of_nat_add)
  then have "is_udp_packet E s r data packet"
    using c(2) flags_emitted [OF assms(1)]
    by (simp add: is_udp_packet_def pre) (simp add: ip_def u_def)
  then show thesis using fill slice by (intro that [of p' packet]) (simp_all add: p'_def u_def del: of_nat_add)
qed

lemma bio_write_ok:
  assumes "bitfield_ok E" and "packet_ok p"
  shows "\<exists>res b' p' sent. bio_write E now b data p = ok (res, b', p', sent) \<and> packet_ok p' \<and>
    send_from b' = send_from b \<and> send_to b' = send_to b \<and> sessions b' = sessions b \<and>
    (if length data \<le> 4096
     then res = Inr (length data) \<and> udp_length (pk_udp p') = 0 \<and>
       (\<exists>packet. sent = [packet] \<and> is_udp_packet E (send_from b) (send_to b) data packet)
     else res = Inl OutOfMemory \<and> sent = [] \<and> p' = p)"
proof (cases "length data \<le> 4096")
  case True
  have len: "length (pk_buffer p) = 4096" using assms(2) by (simp add: packet_ok_def)
  let ?p = "p\<lparr>pk_buffer := overwrite (pk_buffer p) 0 data\<rparr>"
  have "take (length data) (pk_buffer ?p) = data" by (simp add: overwrite_def)
  then obtain p' packet where p': "fill_packet E (send_from b) (send_to b) data ?p = ok p'" "pk_buffer p' = pk_buffer ?p"
    "slice (packet_as_bytes p') 0 (40 + (8 + length data)) = ok packet"
    "is_udp_packet E (send_from b) (send_to b) data packet"
    using assms(1) True by (elim fill_packet_emits)
  have "packet_ok (burn p')" using p'(2) len True by (simp add: packet_ok_def burn_def)
  then show ?thesis using p' True len
    by (simp add: bio_write_def Let_def) (simp add: burn_def)
next
  case False
  then show ?thesis using assms(2) by (simp add: bio_write_def packet_ok_def)
qed

lemma bio_read_ok:
  assumes "packet_ok p"
  shows "\<exists>res p'. bio_read b capacity p = ok (res, p') \<and> packet_ok p'"
proof (cases "udp_length (pk_udp p) < 8")
  case False
  then have "unat (udp_length (pk_udp p) - 8) \<le> 4096"
    using assms unat_sub_fits [of 8 "udp_length (pk_udp p)"]
    by (simp add: packet_ok_def word_less_nat_alt not_less) linarith
  with assms False show ?thesis by (auto simp: bio_read_def packet_ok_def burn_def Let_def)
qed (use assms in \<open>simp add: bio_read_def\<close>)

text \<open>What OpenSSL hands to the callback and fits the buffer, in order; a longer write is refused with an error.\<close>

fun bio_writes :: "bio_call list \<Rightarrow> buf list" where
  "bio_writes [] = []"
| "bio_writes (BioWrite now data # calls) = (if length data \<le> 4096 then data # bio_writes calls else bio_writes calls)"
| "bio_writes (BioRead capacity # calls) = bio_writes calls"

text \<open>A packet is read at most once.\<close>

lemma bio_read_burned: "bio_read b capacity (burn p) = ok (Inl WouldBlock, burn p)"
  by (simp add: bio_read_def burn_def)

lemma run_bio_ok:
  assumes "bitfield_ok E" and "packet_ok p"
  shows "\<exists>b' p' sent. run_bio E calls b p = ok (b', p', sent) \<and> packet_ok p' \<and>
    send_from b' = send_from b \<and> send_to b' = send_to b \<and>
    list_all2 (is_udp_packet E (send_from b) (send_to b)) (bio_writes calls) sent"
  using assms(2)
proof (induction calls arbitrary: b p)
  case (Cons call calls)
  show ?case
  proof (cases call)
    case (BioWrite now data)
    obtain res b1 p1 sent1 where w: "bio_write E now b data p = ok (res, b1, p1, sent1)" "packet_ok p1"
        "send_from b1 = send_from b" "send_to b1 = send_to b"
        "list_all2 (is_udp_packet E (send_from b) (send_to b)) (if length data \<le> 4096 then [data] else []) sent1"
      using bio_write_ok [OF assms(1) Cons.prems, of now b data] by (cases "length data \<le> 4096") fastforce+
    obtain b2 p2 sent2 where "run_bio E calls b1 p1 = ok (b2, p2, sent2)" "packet_ok p2"
        "send_from b2 = send_from b" "send_to b2 = send_to b"
        "list_all2 (is_udp_packet E (send_from b) (send_to b)) (bio_writes calls) sent2"
      using Cons.IH [OF w(2), of b1] w(3,4) by auto
    moreover have "bio_writes (call # calls) = (if length data \<le> 4096 then [data] else []) @ bio_writes calls" by (simp add: BioWrite)
    ultimately show ?thesis using w list_all2_appendI [OF w(5), of "bio_writes calls" sent2] by (auto simp: BioWrite)
  next
    case (BioRead capacity)
    then show ?thesis using bio_read_ok [OF Cons.prems, of b capacity] Cons.IH by fastforce
  qed
qed simp

text \<open>The plaintexts that a sequence of reads returns before one fails.\<close>

fun plaintexts :: "('calls \<times> buf option) list \<Rightarrow> buf list" where
  "plaintexts [] = []"
| "plaintexts ((_, None) # rs) = []"
| "plaintexts ((_, Some data) # rs) = data # plaintexts rs"

fun read_ok :: "bio_call list \<times> buf option \<Rightarrow> bool" where
  "read_ok (calls, result) \<longleftrightarrow> calls = [] \<and> (case result of None \<Rightarrow> True | Some data \<Rightarrow> length data \<le> 4096)"

lemma emit_plain_ok:
  assumes "bitfield_ok E" and "packet_ok p" and "\<forall>r \<in> set rs. read_ok r"
  shows "\<exists>b' p' sent. emit_plain E endpoint source rs b p = ok (b', p', sent) \<and> packet_ok p' \<and>
    send_from b' = send_from b \<and> send_to b' = (if plaintexts rs = [] then send_to b else source) \<and>
    list_all2 (is_udp_packet E (send_from b) endpoint) (plaintexts rs) sent"
  using assms(2,3)
proof (induction rs arbitrary: b p rule: plaintexts.induct)
  case (3 calls data rs)
  have len: "length (pk_buffer p) = 4096" "length data \<le> 4096" using "3.prems" by (simp_all add: packet_ok_def)
  let ?p = "p\<lparr>pk_buffer := overwrite (pk_buffer p) 0 data\<rparr>" and ?b = "b\<lparr>send_to := source\<rparr>"
  have "take (length data) (pk_buffer ?p) = data" by (simp add: overwrite_def)
  then obtain p1 packet where p1: "fill_packet E (send_from ?b) endpoint data ?p = ok p1" "pk_buffer p1 = pk_buffer ?p"
    "slice (packet_as_bytes p1) 0 (40 + (8 + length data)) = ok packet"
    "is_udp_packet E (send_from ?b) endpoint data packet" "udp_length (pk_udp p1) = of_nat (8 + length data)"
    using assms(1) len(2) by (elim fill_packet_emits)
  have "packet_ok p1" using p1(2,5) len by (simp add: packet_ok_def unat_of_nat_u16 del: of_nat_add)
  then obtain b2 p2 sent where "emit_plain E endpoint source rs ?b p1 = ok (b2, p2, sent)" "packet_ok p2"
      "send_from b2 = send_from ?b" "send_to b2 = source" "list_all2 (is_udp_packet E (send_from ?b) endpoint) (plaintexts rs) sent"
    using "3.IH" [of p1 ?b] "3.prems" by auto
  with p1 len "3.prems" show ?case by (simp add: Let_def)
qed simp_all

section \<open>One turn of the loop\<close>

text \<open>What the environment may do: SRTP works in place, and a read of pending plaintext makes no callback and fits the buffer.\<close>

definition env_ok :: "dtls_env \<Rightarrow> bool" where
  "env_ok env \<longleftrightarrow>
    (\<forall>op buffer pos. length (fst (srtp env op buffer pos)) = length buffer \<and>
      (case snd (srtp env op buffer pos) of None \<Rightarrow> True | Some n \<Rightarrow> n \<le> length buffer)) \<and>
    (\<forall>op. \<forall>r \<in> set (pending_reads env op). read_ok r)"

definition emitted :: "('x) bitfield_scheme \<Rightarrow> socket_addr_v6 \<Rightarrow> socket_addr_v6 \<Rightarrow> buf \<Rightarrow> bool" where
  "emitted E sender receiver packet \<longleftrightarrow>
    (\<exists>data. carries_udp E sender receiver data packet) \<and> packet_checksum_ok packet"

lemma is_udp_packet_checksum: "is_udp_packet E s r data packet \<Longrightarrow> packet_checksum_ok packet"
  by (auto simp: is_udp_packet_def packet_checksum_ok_def split: option.splits)

lemma is_udp_packet_emitted: "is_udp_packet E s r data packet \<Longrightarrow> emitted E s r packet"
  using is_udp_packet_carries is_udp_packet_checksum by (fastforce simp: emitted_def)

lemma udp_packets_emitted: "list_all2 (is_udp_packet E s r) datas sent \<Longrightarrow> \<forall>packet \<in> set sent. emitted E s r packet"
  by (induction rule: list_all2_induct) (auto intro: is_udp_packet_emitted)

lemma media_ok:
  assumes "env_ok env" and "packet_ok p" and "8 \<le> unat (udp_length (pk_udp p))" and "version E (flags (pk_ip p)) = 6" and "next_header (pk_ip p) = IP_PROTO_UDP"
  shows "\<exists>p' sent. media env rtp b source second p = ok (Some (p', sent)) \<and> length (pk_buffer p') = 4096 \<and>
    (\<forall>packet \<in> set sent. emitted E (send_from b) (if source = rtp then send_to b else rtp) packet)"
proof -
  let ?op = "srtp_op_of (source = rtp) second" and ?pos = "unat (udp_length (pk_udp p)) - 8"
  obtain buffer r where s: "srtp env ?op (pk_buffer p) ?pos = (buffer, r)" by (cases "srtp env ?op (pk_buffer p) ?pos")
  have len: "length buffer = 4096" "r = Some n \<Longrightarrow> n \<le> 4096" for n
    using assms(1,2) s unfolding env_ok_def packet_ok_def by (metis fst_conv snd_conv option.simps(5))+
  show ?thesis
  proof (cases r)
    case None
    then show ?thesis using len(1) assms(3) by (simp add: media_def s)
  next
    case (Some n)
    let ?to = "if source = rtp then send_to b else rtp" and ?n = "of_nat (8 + n) :: u16"
    have n: "n \<le> 4096" using len(2) Some by simp
    define ip where "ip = (pk_ip p)\<lparr>payload_length := ?n, src := v6_ip (send_from b), dst := v6_ip ?to\<rparr>"
    define u where "u = (pk_udp p)\<lparr>udp_length := ?n, src_port := v6_port (send_from b), dst_port := v6_port ?to\<rparr>"
    have "length (take n buffer) \<le> 131028" using n len(1) by simp
    then obtain c where c: "udp_checksum_fill ip u (take n buffer) = ok (u\<lparr>checksum := c\<rparr>)"
        "udp_checksum_valid ip (u\<lparr>checksum := c\<rparr>) (take n buffer)"
      by (rule udp_checksum_fill_ok)
    define packet where "packet = ip6_as_bytes ip @ udp_as_bytes (u\<lparr>checksum := c\<rparr>) @ take n buffer"
    have pre: "from_prefix 40 ip6_of_bytes packet = Some (ip, udp_as_bytes (u\<lparr>checksum := c\<rparr>) @ take n buffer)"
        "from_prefix 8 udp_of_bytes (udp_as_bytes (u\<lparr>checksum := c\<rparr>) @ take n buffer) = Some (u\<lparr>checksum := c\<rparr>, take n buffer)"
      by (simp_all add: packet_def ip6.from_prefix_append udp.from_prefix_append)
    have "ip6_len ip = length packet"
      using n len(1) by (simp add: ip6_len_def ip_def packet_def unat_of_nat_u16 ip6.length_as_bytes udp.length_as_bytes del: of_nat_add)
    then have "emitted E (send_from b) ?to packet"
      using c(2) assms(4,5) by (simp add: emitted_def carries_udp_def packet_checksum_ok_def pre) (simp add: ip_def u_def v6_addr_def)
    moreover have "\<exists>p'. media env rtp b source second p = ok (Some (p', [packet])) \<and> length (pk_buffer p') = 4096"
      using n len(1) c(1) assms(3)
      by (simp add: media_def s Some Let_def ip_def u_def packet_def packet_as_bytes_def sub_def
          ip6.length_as_bytes udp.length_as_bytes del: of_nat_add)
    ultimately show ?thesis by auto
  qed
qed

text \<open>
  The invariant of the table, over the pairs \<open>H\<close> of a destination and a source that packets have had so far: one stream
  per address, which sends from that address, to a client that has sent something to it.
\<close>

definition dtls_ok :: "(socket_addr_v6 \<times> socket_addr_v6) set \<Rightarrow> streams \<Rightarrow> bool" where
  "dtls_ok H streams \<longleftrightarrow> distinct (map fst streams) \<and> (\<forall>(k, b) \<in> set streams. send_from b = k \<and> (k, send_to b) \<in> H)"

lemma dtls_ok_mono: "dtls_ok H streams \<Longrightarrow> H \<subseteq> H' \<Longrightarrow> dtls_ok H' streams"
  by (auto simp: dtls_ok_def)

lemma dtls_ok_lookup: "dtls_ok H streams \<Longrightarrow> map_of streams k = Some b \<Longrightarrow> send_from b = k \<and> (k, send_to b) \<in> H"
  by (auto simp: dtls_ok_def dest!: map_of_SomeD)

lemma dtls_ok_update:
  assumes "dtls_ok H streams" and "send_from b = k" and "(k, send_to b) \<in> H"
  shows "dtls_ok H (AList.update k b streams)"
proof -
  have "send_from b' = k' \<and> (k', send_to b') \<in> H" if "(k', b') \<in> set (AList.update k b streams)" for k' b'
  proof -
    have "map_of (AList.update k b streams) k' = Some b'"
      using that assms(1) by (intro map_of_is_SomeI distinct_update) (simp_all add: dtls_ok_def)
    then show ?thesis
      using assms dtls_ok_lookup by (fastforce simp: update_conv split: if_splits)
  qed
  then show ?thesis using assms(1) by (auto simp: dtls_ok_def distinct_update)
qed

lemma dtls_ok_filter: "dtls_ok H streams \<Longrightarrow> dtls_ok H (filter P streams)"
  by (auto simp: dtls_ok_def distinct_map_filter)

lemma dtls_ok_delete: "dtls_ok H streams \<Longrightarrow> dtls_ok H (AList.delete k streams)"
  by (simp add: AList.delete_eq dtls_ok_filter)

lemma cleanup_streams_ok: "dtls_ok H streams \<Longrightarrow> dtls_ok H (fst (cleanup_streams now streams n))"
  by (simp add: cleanup_streams_def Let_def dtls_ok_filter)

lemma dtls_ssl_ok:
  assumes "bitfield_ok E" and "env_ok env" and "packet_ok p" and "dtls_ok H streams" and "send_from b = target"
    and "(target, send_to b) \<in> H" and "(target, source) \<in> H"
  shows "\<exists>streams' n' p' sent1 sent2.
    dtls_ssl E env op endpoint target source streams n b p = ok (Loop streams' n' p', sent1 @ sent2) \<and>
    dtls_ok H streams' \<and> packet_ok p' \<and>
    list_all2 (is_udp_packet E target (send_to b)) (bio_writes (ssl_calls env op)) sent1 \<and>
    (if ssl_failed env op then sent2 = [] \<and> map_of streams' target = None
     else list_all2 (is_udp_packet E target endpoint) (plaintexts (pending_reads env op)) sent2)"
proof -
  obtain b1 p1 sent1 where r: "run_bio E (ssl_calls env op) b p = ok (b1, p1, sent1)" "packet_ok p1"
      "send_from b1 = send_from b" "send_to b1 = send_to b"
      "list_all2 (is_udp_packet E (send_from b) (send_to b)) (bio_writes (ssl_calls env op)) sent1"
    using run_bio_ok [OF assms(1,3), of "ssl_calls env op" b] by blast
  define b2 where "b2 = (if \<not> init_finished env \<and> init_finished_after env then b1\<lparr>sessions := session_pair env\<rparr> else b1)"
  have b2: "send_from b2 = target" "send_to b2 = send_to b" using r(3,4) assms(5) by (simp_all add: b2_def)
  have "\<forall>r \<in> set (pending_reads env op). read_ok r" using assms(2) by (simp add: env_ok_def)
  then obtain b3 p3 sent2 where e: "emit_plain E endpoint source (pending_reads env op) b2 p1 = ok (b3, p3, sent2)"
      "packet_ok p3" "send_from b3 = target" "send_to b3 \<in> {send_to b, source}"
      "list_all2 (is_udp_packet E target endpoint) (plaintexts (pending_reads env op)) sent2"
    using emit_plain_ok [OF assms(1) r(2), of "pending_reads env op" endpoint source b2] b2 by auto
  let ?c = "cleanup_streams (env_now env) (AList.update target b3 streams) n"
  have ok: "dtls_ok H (fst ?c)" using assms(4,6,7) e(3,4) by (intro cleanup_streams_ok dtls_ok_update) auto
  show ?thesis
  proof (cases "ssl_failed env op")
    case True
    then have "dtls_ssl E env op endpoint target source streams n b p = ok (Loop (AList.delete target streams) n p1, sent1 @ [])"
      using r(1) by (simp add: dtls_ssl_def)
    then show ?thesis using True r assms(4,5) dtls_ok_delete by (fastforce simp: delete_conv)
  next
    case False
    then have "dtls_ssl E env op endpoint target source streams n b p = ok (Loop (fst ?c) (snd ?c) p3, sent1 @ sent2)"
      using e(1) r(1) by (cases "\<not> init_finished env \<and> init_finished_after env")
        (auto simp: dtls_ssl_def b2_def case_prod_beta Let_def)
    then show ?thesis using False r e ok assms(5) by fastforce
  qed
qed

lemma dtls_recv_packet:
  assumes "packet_as_bytes p = packet @ slack" and "carries_udp E source target data packet" and "length (pk_buffer p) = 4096"
  shows "dtls_recv E endpoint (length packet) p =
      ok (Some (target, source, first_chunk2 data, if source = endpoint then data else []))"
    and "packet_ok p" and "send_from b = target \<Longrightarrow> bio_read b capacity p =
      ok (if length data \<le> capacity then Inr data else Inl OutOfMemory, burn p)"
proof -
  obtain ip udp where q: "packet = ip6_as_bytes ip @ udp_as_bytes udp @ data" "version E (flags ip) = 6"
    "ip6_len ip = length packet" "udp_length udp = payload_length ip" "next_header ip = IP_PROTO_UDP"
    "v6_addr (src ip) (src_port udp) = source" "v6_addr (dst ip) (dst_port udp) = target"
    "unat (udp_length udp) = 8 + length data"
    using assms(2) by (rule udp_packet_parts)
  have "from_prefix 40 ip6_of_bytes (packet_as_bytes p) = Some (pk_ip p, udp_as_bytes (pk_udp p) @ pk_buffer p)"
    by (simp add: packet_as_bytes_def ip6.from_prefix_append)
  moreover have "from_prefix 40 ip6_of_bytes (packet_as_bytes p) = Some (ip, udp_as_bytes udp @ data @ slack)"
    by (simp add: assms(1) q(1) ip6.from_prefix_append)
  ultimately have ip: "pk_ip p = ip" and rest: "udp_as_bytes (pk_udp p) @ pk_buffer p = udp_as_bytes udp @ data @ slack" by simp_all
  then have "from_prefix 8 udp_of_bytes (udp_as_bytes udp @ data @ slack) = Some (pk_udp p, pk_buffer p)"
    by (metis udp.from_prefix_append)
  then have udp: "pk_udp p = udp" and buffer: "pk_buffer p = data @ slack" by (simp_all add: udp.from_prefix_append)
  then have len: "length data \<le> 4096" using assms(3) by simp
  show "dtls_recv E endpoint (length packet) p =
      ok (Some (target, source, first_chunk2 data, if source = endpoint then data else []))"
    using q(2-8) len by (simp add: dtls_recv_def ip udp buffer Let_def sub_def)
  show "packet_ok p" using assms(3) q(8) len by (simp add: packet_ok_def udp)
  have "\<not> udp_length udp < 8" "unat (udp_length udp - 8) = length data"
    using q(8) unat_sub_fits [of 8 "udp_length udp"] by (simp_all add: word_less_nat_alt word_le_nat_alt)
  then show "bio_read b capacity p = ok (if length data \<le> capacity then Inr data else Inl OutOfMemory, burn p)"
    if "send_from b = target"
    using that q(7) by (cases b) (auto simp: bio_read_def Let_def ip udp buffer burn_def sub_def v6_addr_def)
qed

lemma dtls_recv_cases:
  assumes "length (pk_buffer p) = 4096" and "len \<le> 4144"
  obtains "dtls_recv E endpoint len p = ok None"
  | plain first where "dtls_recv E endpoint len p = ok (Some (v6_addr (dst (pk_ip p)) (dst_port (pk_udp p)),
        v6_addr (src (pk_ip p)) (src_port (pk_udp p)), first, plain))"
      "packet_ok p" "8 \<le> unat (udp_length (pk_udp p))" "version E (flags (pk_ip p)) = 6" "next_header (pk_ip p) = IP_PROTO_UDP"
proof (cases "version E (flags (pk_ip p)) = 6 \<and> ip6_len (pk_ip p) = len \<and> next_header (pk_ip p) = IP_PROTO_UDP \<and>
    8 \<le> unat (payload_length (pk_ip p)) \<and> udp_length (pk_udp p) = payload_length (pk_ip p)")
  case True
  then have "unat (udp_length (pk_udp p)) \<le> 4104" using assms(2) by (auto simp: ip6_len_def)
  then have "unat (udp_length (pk_udp p)) - 8 \<le> length (pk_buffer p)" "packet_ok p"
    using assms(1) by (simp_all add: packet_ok_def)
  with True show ?thesis by (intro that(2)) (auto simp: dtls_recv_def Let_def)
qed (rule that(1), auto simp: dtls_recv_def Let_def)

definition peer_of :: "streams \<Rightarrow> socket_addr_v6 \<Rightarrow> socket_addr_v6 \<Rightarrow> socket_addr_v6" where
  "peer_of streams target source = (case map_of streams target of Some b \<Rightarrow> send_to b | None \<Rightarrow> source)"

lemma stream_for_Some:
  assumes "stream_for env endpoint streams target source = Some b" and "dtls_ok H streams"
  shows "send_from b = target \<and> send_to b = peer_of streams target source \<and> (target, send_to b) \<in> insert (target, source) H"
proof (cases "map_of streams target")
  case None
  then show ?thesis using assms(1) by (auto simp: stream_for_def peer_of_def split: if_splits)
next
  case (Some b')
  with dtls_ok_lookup [OF assms(2) Some] show ?thesis using assms(1) by (simp add: stream_for_def peer_of_def)
qed

lemma dtls_stream_ok:
  assumes "bitfield_ok E" and "env_ok env" and p: "packet_ok p" "8 \<le> unat (udp_length (pk_udp p))" "version E (flags (pk_ip p)) = 6" "next_header (pk_ip p) = IP_PROTO_UDP"
    and "dtls_ok H streams" and b: "send_from b = target" "(target, send_to b) \<in> H" and "(target, source) \<in> H"
  shows "\<exists>streams' n' p' sent.
    dtls_stream E env endpoint rtp (target, source, first, plain) streams n b p = ok (Loop streams' n' p', sent) \<and>
    dtls_ok H streams' \<and> length (pk_buffer p') = 4096 \<and>
    (\<forall>packet \<in> set sent. \<exists>receiver \<in> {send_to b, endpoint, rtp}. emitted E target receiver packet)"
proof (cases "init_finished env \<and> (\<exists>x y. first = Some (x, y) \<and> 128 \<le> x \<and> x < 191)")
  case True
  then obtain x y where f: "init_finished env" "first = Some (x, y)" "128 \<le> x" "x < 191" by blast
  obtain p2 sent where m: "media env rtp b source y p = ok (Some (p2, sent))" "length (pk_buffer p2) = 4096"
      "\<forall>packet \<in> set sent. emitted E target (if source = rtp then send_to b else rtp) packet"
    using media_ok [OF assms(2) p, of rtp b source y] b(1) by blast
  have "dtls_stream E env endpoint rtp (target, source, first, plain) streams n b p =
      (if sessions b then ok (Loop streams n p2, sent) else ok (Loop streams n p, []))"
    using f m(1) by (simp add: dtls_stream_def)
  moreover have "\<forall>packet \<in> set sent. \<exists>receiver \<in> {send_to b, endpoint, rtp}. emitted E target receiver packet"
    using m(3) by (cases "source = rtp") auto
  ultimately show ?thesis using assms(7) m(2) p(1) by (auto simp: packet_ok_def)
next
  case False
  let ?op = "ssl_op_of env (source = endpoint) plain"
  obtain streams' n' p' sent1 sent2 where ssl:
      "dtls_ssl E env ?op endpoint target source streams n b p = ok (Loop streams' n' p', sent1 @ sent2)" "dtls_ok H streams'"
      "packet_ok p'" "list_all2 (is_udp_packet E target (send_to b)) (bio_writes (ssl_calls env ?op)) sent1"
      "if ssl_failed env ?op then sent2 = [] \<and> map_of streams' target = None
       else list_all2 (is_udp_packet E target endpoint) (plaintexts (pending_reads env ?op)) sent2"
    using dtls_ssl_ok [OF assms(1,2) p(1) assms(7) b assms(10)] by blast
  have "\<forall>packet \<in> set sent1. emitted E target (send_to b) packet"
    using ssl(4) by (rule udp_packets_emitted)
  moreover have "\<forall>packet \<in> set sent2. emitted E target endpoint packet"
    using ssl(5) by (auto split: if_splits dest: udp_packets_emitted)
  ultimately have "\<forall>packet \<in> set (sent1 @ sent2). \<exists>receiver \<in> {send_to b, endpoint, rtp}. emitted E target receiver packet"
    by auto
  moreover have "dtls_stream E env endpoint rtp (target, source, first, plain) streams n b p = ok (Loop streams' n' p', sent1 @ sent2)"
    using False ssl(1) by (cases "init_finished env"; cases first) (auto simp: dtls_stream_def)
  ultimately show ?thesis using ssl(2,3) by (auto simp: packet_ok_def)
qed

lemma dtls_step_ok:
  assumes "bitfield_ok E" and "env_ok env" and "dtls_ok H streams" and "length (pk_buffer p) = 4096" and "len \<le> 4144"
    and "target = v6_addr (dst (pk_ip p)) (dst_port (pk_udp p))" and "source = v6_addr (src (pk_ip p)) (src_port (pk_udp p))"
  shows "\<exists>ctl sent. dtls_step E env endpoint rtp len streams n p = ok (ctl, sent) \<and>
    (\<forall>streams' n' p'. ctl = Loop streams' n' p' \<longrightarrow> dtls_ok (insert (target, source) H) streams' \<and> length (pk_buffer p') = 4096) \<and>
    (\<forall>packet \<in> set sent. \<exists>receiver \<in> {peer_of streams target source, endpoint, rtp}. emitted E target receiver packet)"
proof (rule dtls_recv_cases [OF assms(4,5), of E endpoint])
  assume "dtls_recv E endpoint len p = ok None"
  then show ?thesis using assms(3,4) dtls_ok_mono [of H streams "insert (target, source) H"] by (auto simp: dtls_step_def)
next
  let ?H = "insert (target, source) H"
  have H: "dtls_ok ?H streams" using assms(3) by (rule dtls_ok_mono) blast
  fix plain first
  assume "dtls_recv E endpoint len p = ok (Some (v6_addr (dst (pk_ip p)) (dst_port (pk_udp p)),
      v6_addr (src (pk_ip p)) (src_port (pk_udp p)), first, plain))" "packet_ok p" "8 \<le> unat (udp_length (pk_udp p))"
    "version E (flags (pk_ip p)) = 6" "next_header (pk_ip p) = IP_PROTO_UDP"
  then have r: "dtls_recv E endpoint len p = ok (Some (target, source, first, plain))" "packet_ok p" "8 \<le> unat (udp_length (pk_udp p))"
    "version E (flags (pk_ip p)) = 6" "next_header (pk_ip p) = IP_PROTO_UDP" by (simp_all add: assms(6,7))
  show ?thesis
  proof (cases "stream_for env endpoint streams target source")
    case None
    then show ?thesis using r(1) H assms(4) by (simp add: dtls_step_def)
  next
    case (Some b)
    then have b: "send_from b = target" "send_to b = peer_of streams target source" "(target, send_to b) \<in> ?H"
      using stream_for_Some [OF Some assms(3)] by blast+
    let ?ss = "AList.update target b streams"
    have "dtls_ok ?H ?ss" using H b(1,3) by (rule dtls_ok_update)
    then obtain streams' n' p' sent where
        "dtls_stream E env endpoint rtp (target, source, first, plain) ?ss n b p = ok (Loop streams' n' p', sent)"
        "dtls_ok ?H streams'" "length (pk_buffer p') = 4096"
        "\<forall>packet \<in> set sent. \<exists>receiver \<in> {send_to b, endpoint, rtp}. emitted E target receiver packet"
      using dtls_stream_ok [OF assms(1,2) r(2-5) _ b(1,3) insertI1] by blast
    then show ?thesis
      using r(1) Some b(2) by (cases "map_of streams target = None \<and> \<not> stream_new env") (auto simp: dtls_step_def)
  qed
qed

section \<open>The loop\<close>

text \<open>The destination and the source of the packets that a run has received.\<close>

definition addresses :: "buf \<Rightarrow> socket_addr_v6 \<times> socket_addr_v6" where
  "addresses data = (let ip = ip6_of_bytes (sub data 0 40); udp = udp_of_bytes (sub data 40 8) in
     (v6_addr (dst ip) (dst_port udp), v6_addr (src ip) (src_port udp)))"

definition heard :: "(dtls_env \<times> buf option) list \<Rightarrow> (socket_addr_v6 \<times> socket_addr_v6) set" where
  "heard turns = {addresses data | env data. (env, Some data) \<in> set turns}"

definition received_ok :: "dtls_env \<times> buf option \<Rightarrow> bool" where
  "received_ok t \<longleftrightarrow> env_ok (fst t) \<and> (case snd t of None \<Rightarrow> True | Some data \<Rightarrow> length data \<le> 4144)"

lemma heard_simps [simp]:
  "heard [] = {}" "heard ((env, None) # turns) = heard turns"
  "heard ((env, Some data) # turns) = insert (addresses data) (heard turns)"
  by (auto simp: heard_def)

lemma length_recv_packet:
  assumes "length (pk_buffer p) = 4096" and "length data \<le> 4144"
  shows "length (pk_buffer (recv_packet data p)) = 4096"
  using assms by (simp add: recv_packet_def Let_def packet_as_bytes_def ip6.length_as_bytes udp.length_as_bytes)

lemma recv_packet_addresses:
  assumes "48 \<le> length data"
  shows "addresses data = (v6_addr (dst (pk_ip (recv_packet data p))) (dst_port (pk_udp (recv_packet data p))),
    v6_addr (src (pk_ip (recv_packet data p))) (src_port (pk_udp (recv_packet data p))))"
  using assms by (simp add: recv_packet_def addresses_def Let_def sub_def overwrite_def)

text \<open>A packet that is too short for its headers is dropped, so the addresses are those of the received bytes.\<close>

lemma dtls_recv_short: "len < 48 \<Longrightarrow> dtls_recv E endpoint len p = ok None"
  by (auto simp: dtls_recv_def Let_def ip6_len_def)

definition emitted_ok ::
    "('x) bitfield_scheme \<Rightarrow> socket_addr_v6 \<Rightarrow> socket_addr_v6 \<Rightarrow> (socket_addr_v6 \<times> socket_addr_v6) set \<Rightarrow> buf \<Rightarrow> bool" where
  "emitted_ok E endpoint rtp H packet \<longleftrightarrow>
    (\<exists>target receiver. emitted E target receiver packet \<and> target \<in> fst ` H \<and>
      (receiver \<in> {endpoint, rtp} \<or> (target, receiver) \<in> H))"

lemma emitted_ok_mono: "emitted_ok E endpoint rtp H packet \<Longrightarrow> H \<subseteq> H' \<Longrightarrow> emitted_ok E endpoint rtp H' packet"
  unfolding emitted_ok_def by blast

lemma dtls_turn_ok:
  assumes "bitfield_ok E" and "env_ok env" and "length data \<le> 4144" and "dtls_ok H streams" and "length (pk_buffer p) = 4096"
  shows "\<exists>ctl sent. dtls_step E env endpoint rtp (length data) streams n (recv_packet data p) = ok (ctl, sent) \<and>
    (\<forall>streams' n' p'. ctl = Loop streams' n' p' \<longrightarrow> dtls_ok (insert (addresses data) H) streams' \<and> length (pk_buffer p') = 4096) \<and>
    (\<forall>packet \<in> set sent. emitted_ok E endpoint rtp (insert (addresses data) H) packet)"
proof (cases "48 \<le> length data")
  case True
  let ?p = "recv_packet data p"
  obtain target source where a: "addresses data = (target, source)" by (cases "addresses data")
  then have t: "target = v6_addr (dst (pk_ip ?p)) (dst_port (pk_udp ?p))" "source = v6_addr (src (pk_ip ?p)) (src_port (pk_udp ?p))"
    using recv_packet_addresses [OF True, of p] by simp_all
  have "(target, peer_of streams target source) \<in> insert (target, source) H"
    using dtls_ok_lookup [OF assms(4)] by (auto simp: peer_of_def split: option.split)
  then have "emitted_ok E endpoint rtp (insert (target, source) H) packet"
    if "\<exists>receiver \<in> {peer_of streams target source, endpoint, rtp}. emitted E target receiver packet" for packet
    using that unfolding emitted_ok_def by force
  then show ?thesis
    using dtls_step_ok [OF assms(1,2,4) length_recv_packet [OF assms(5,3)] assms(3) t, of endpoint rtp n]
    unfolding a by blast
next
  case False
  then have "dtls_step E env endpoint rtp (length data) streams n (recv_packet data p) = ok (Loop streams n (recv_packet data p), [])"
    by (simp add: dtls_step_def dtls_recv_short)
  then show ?thesis
    using dtls_ok_mono [OF assms(4)] length_recv_packet [OF assms(5,3)] by auto
qed

lemma dtls_loop_ok:
  assumes "bitfield_ok E" and "\<forall>t \<in> set turns. received_ok t" and "dtls_ok H streams" and "length (pk_buffer p) = 4096"
  shows "\<exists>ctl sent. dtls_loop E endpoint rtp turns streams n p = ok (ctl, sent) \<and>
    (\<forall>streams' n' p'. ctl = Loop streams' n' p' \<longrightarrow> dtls_ok (H \<union> heard turns) streams') \<and>
    (\<forall>packet \<in> set sent. emitted_ok E endpoint rtp (H \<union> heard turns) packet)"
  using assms(2-4)
proof (induction turns arbitrary: H streams n p)
  case (Cons t turns)
  obtain env r where t: "t = (env, r)" by (cases t)
  show ?case
  proof (cases r)
    case None
    then show ?thesis using Cons by (simp add: t)
  next
    case (Some data)
    let ?H = "insert (addresses data) H"
    have "env_ok env" "length data \<le> 4144" using Cons.prems(1) by (simp_all add: received_ok_def t Some)
    then obtain ctl sent where s: "dtls_step E env endpoint rtp (length data) streams n (recv_packet data p) = ok (ctl, sent)"
        "\<forall>streams' n' p'. ctl = Loop streams' n' p' \<longrightarrow> dtls_ok ?H streams' \<and> length (pk_buffer p') = 4096"
        "\<forall>packet \<in> set sent. emitted_ok E endpoint rtp ?H packet"
      using dtls_turn_ok [OF assms(1) _ _ Cons.prems(2,3)] by blast
    have sent: "\<forall>packet \<in> set sent. emitted_ok E endpoint rtp (?H \<union> heard turns) packet"
      using s(3) emitted_ok_mono [of E endpoint rtp ?H] by blast
    show ?thesis
    proof (cases ctl)
      case Quit
      then show ?thesis using s(1) sent by (simp add: t Some)
    next
      case (Loop streams1 n1 p1)
      then have "dtls_ok ?H streams1" "length (pk_buffer p1) = 4096" using s(2) by simp_all
      then obtain ctl2 sent2 where "dtls_loop E endpoint rtp turns streams1 n1 p1 = ok (ctl2, sent2)"
          "\<forall>streams' n' p'. ctl2 = Loop streams' n' p' \<longrightarrow> dtls_ok (?H \<union> heard turns) streams'"
          "\<forall>packet \<in> set sent2. emitted_ok E endpoint rtp (?H \<union> heard turns) packet"
        using Cons.IH [of ?H streams1 p1 n1] Cons.prems(1) by auto
      then show ?thesis using s(1) sent Loop by (auto simp: t Some)
    qed
  qed
qed simp

end
