(* ===== verification/Dtls_Properties.thy ===== *)
theory Dtls_Properties
  imports Dtls_Proxy Samples
begin

text \<open>The properties of the DTLS proxy.\<close>

definition sample_env :: dtls_env where
  "sample_env = \<lparr>env_now = 7, stream_new = True, init_finished = True,
     ssl_calls = (\<lambda>_. [BioRead 100, BioWrite 5 [22, 254, 253]]), init_finished_after = True, session_pair = True,
     ssl_failed = (\<lambda>_. False), srtp = (\<lambda>_ b n. (b, Some (min n (length b)))),
     pending_reads = (\<lambda>op. case op of SslPeek _ \<Rightarrow> [([], Some hello)] | _ \<Rightarrow> [])\<rparr>"

lemma sample_env_ok: "env_ok sample_env"
  by (simp add: env_ok_def sample_env_def hello_def split: ssl_op.split)

definition sample_packet :: udp6_packet where
  "sample_packet = \<lparr>pk_ip = sample_ip IP_PROTO_UDP 13 1 2, pk_udp = sample_udp 13, pk_buffer = hello @ replicate 4091 0\<rparr>"

definition sample_bio :: bio where
  "sample_bio = \<lparr>send_from = v6_addr 2 2000, send_to = v6_addr 1 1000, last_update = 0, sessions = False\<rparr>"

definition sample_bytes :: buf where
  "sample_bytes = ip6_as_bytes (sample_ip IP_PROTO_UDP 13 1 2) @ udp_as_bytes (sample_udp 13) @ hello"

lemma sample_packet_bytes:
  "packet_as_bytes sample_packet = sample_bytes @ replicate 4091 0" "length (pk_buffer sample_packet) = 4096"
  "length sample_bytes = 53"
  by (simp_all add: packet_as_bytes_def sample_packet_def sample_bytes_def hello_def ip6.length_as_bytes udp.length_as_bytes)

lemma sample_packet_carries: "carries_udp sample_extern (v6_addr 1 1000) (v6_addr 2 2000) hello sample_bytes"
  using flags_emitted [OF sample_bitfield]
  by (simp add: carries_udp_def sample_bytes_def ip6.from_prefix_append udp.from_prefix_append ip6_len_def
      ip6.length_as_bytes udp.length_as_bytes sample_ip_def sample_udp_def hello_def)

text \<open>
  C6. The proxy never panics, whatever packets arrive and whatever OpenSSL and SRTP do with them. At the end of any number of
  turns there is one stream per address, which sends from that address and to a client that has sent a packet to it.
  Every packet that was emitted has a valid UDP checksum and comes from an address to which a packet was
  sent; it goes to the plaintext endpoint, to the media endpoint, or to a client that has sent a packet to the address
  it comes from.
\<close>

theorem dtls_main_safe:
  assumes "bitfield_ok E" and "\<forall>t \<in> set turns. received_ok t"
  shows "\<exists>ctl sent. dtls_main E endpoint rtp_endpoint turns = ok (ctl, sent) \<and>
    (\<forall>streams n p. ctl = Loop streams n p \<longrightarrow> dtls_ok (heard turns) streams) \<and>
    (\<forall>packet \<in> set sent. emitted_ok E endpoint rtp_endpoint (heard turns) packet)"
proof -
  have "dtls_ok {} []" "length (pk_buffer new_packet) = 4096" by (simp_all add: dtls_ok_def new_packet_def)
  from dtls_loop_ok [OF assms this] show ?thesis by (simp add: dtls_main_def)
qed

theorem dtls_main_safe_witness:
  "\<exists>ctl sent. dtls_main sample_extern (v6_addr 9 9) (v6_addr 8 8) [(sample_env, Some sample_bytes), (sample_env, None)] = ok (ctl, sent) \<and>
    (\<forall>packet \<in> set sent. emitted_ok sample_extern (v6_addr 9 9) (v6_addr 8 8) {addresses sample_bytes} packet)"
proof -
  have "\<forall>t \<in> set [(sample_env, Some sample_bytes), (sample_env, None)]. received_ok t"
    using sample_env_ok sample_packet_bytes(3) by (simp add: received_ok_def)
  from dtls_main_safe [OF sample_bitfield this] show ?thesis by fastforce
qed

text \<open>
  C15. An established stream forwards both ways. A packet for the stream's address that is not a media packet makes OpenSSL
  write the payload, when it comes from the plaintext endpoint, or look for data otherwise. The callback hands that packet to OpenSSL whole and once: a read with room for
  it returns exactly its payload, one without room is refused, and after either the packet is used up.
  All that OpenSSL writes in that turn, except what is longer than the buffer, is sent to the stream's client, one packet for each write with just these bytes, in order;
  then each plaintext that OpenSSL returns is sent to the plaintext endpoint, one packet each, in order; all from the stream's address, and
  nothing else is sent.
\<close>

theorem dtls_forwards:
  assumes "bitfield_ok E" and "env_ok env" and "dtls_ok H streams" and "length (pk_buffer p) = 4096"
    and "packet_as_bytes p = packet @ slack" and "carries_udp E source target data packet"
    and "map_of streams target = Some b" and "init_finished env"
    and "\<forall>x y. first_chunk2 data = Some (x, y) \<longrightarrow> \<not> (128 \<le> x \<and> x < 191)"
    and "op = (if source = endpoint then SslWrite data else SslPeek 4)" and "\<not> ssl_failed env op"
  shows "(\<exists>streams' n' p' cipher plain.
    dtls_step E env endpoint rtp_endpoint (length packet) streams next_cleanup p = ok (Loop streams' n' p', cipher @ plain) \<and>
    list_all2 (is_udp_packet E target (send_to b)) (bio_writes (ssl_calls env op)) cipher \<and>
    list_all2 (is_udp_packet E target endpoint) (plaintexts (pending_reads env op)) plain) \<and>
    (\<exists>used. \<forall>capacity. bio_read b capacity p = ok (if length data \<le> capacity then Inr data else Inl OutOfMemory, used) \<and>
      bio_read b capacity used = ok (Inl WouldBlock, used))"
proof -
  note recv = dtls_recv_packet [OF assms(5,6,4)]
  have b: "send_from b = target" "(target, send_to b) \<in> H" using dtls_ok_lookup [OF assms(3,7)] by simp_all
  let ?H = "insert (target, source) H"
  have "dtls_ok ?H streams" using assms(3) by (rule dtls_ok_mono) blast
  then have ss: "dtls_ok ?H (AList.update target b streams)" using b by (intro dtls_ok_update) auto
  obtain streams' n' p' sent1 sent2 where ssl:
      "dtls_ssl E env op endpoint target source (AList.update target b streams) next_cleanup b p =
         ok (Loop streams' n' p', sent1 @ sent2)"
      "list_all2 (is_udp_packet E target (send_to b)) (bio_writes (ssl_calls env op)) sent1"
      "list_all2 (is_udp_packet E target endpoint) (plaintexts (pending_reads env op)) sent2"
    using dtls_ssl_ok [OF assms(1,2) recv(2) ss b(1) _ insertI1, of op endpoint next_cleanup] b(2) assms(11) by auto
  have "dtls_step E env endpoint rtp_endpoint (length packet) streams next_cleanup p =
      ok (Loop streams' n' p', sent1 @ sent2)"
    using recv(1) [of endpoint] assms(7-10) ssl(1)
    by (cases "first_chunk2 data") (auto simp: dtls_step_def dtls_stream_def stream_for_def ssl_op_of_def Let_def)
  moreover have "\<forall>capacity. bio_read b capacity p = ok (if length data \<le> capacity then Inr data else Inl OutOfMemory, burn p) \<and>
      bio_read b capacity (burn p) = ok (Inl WouldBlock, burn p)"
    using recv(3) [OF b(1)] bio_read_burned by blast
  ultimately show ?thesis using ssl(2,3) by blast
qed

theorem dtls_forwards_witness:
  "(\<exists>streams' n' p' cipher plain.
    dtls_step sample_extern sample_env (v6_addr 9 9) (v6_addr 8 8) 53 [(v6_addr 2 2000, sample_bio)] 10 sample_packet =
      ok (Loop streams' n' p', [cipher, plain]) \<and>
    is_udp_packet sample_extern (v6_addr 2 2000) (v6_addr 1 1000) [22, 254, 253] cipher \<and>
    is_udp_packet sample_extern (v6_addr 2 2000) (v6_addr 9 9) hello plain) \<and>
   (\<exists>used. bio_read sample_bio 100 sample_packet = ok (Inr hello, used))"
proof -
  have ok: "dtls_ok UNIV [(v6_addr 2 2000, sample_bio)]" by (simp add: dtls_ok_def sample_bio_def)
  have op: "SslPeek 4 = (if v6_addr 1 1000 = v6_addr 9 9 then SslWrite hello else SslPeek 4)" by (simp add: v6_addr_def)
  have env: "plaintexts (pending_reads sample_env (SslPeek 4)) = [hello]" "bio_writes (ssl_calls sample_env (SslPeek 4)) = [[22, 254, 253]]"
    "init_finished sample_env" "\<not> ssl_failed sample_env (SslPeek 4)"
    "\<forall>x y. first_chunk2 hello = Some (x, y) \<longrightarrow> \<not> (128 \<le> x \<and> x < 191)" "send_to sample_bio = v6_addr 1 1000"
    by (simp_all add: sample_env_def first_chunk2_def hello_def sample_bio_def)
  note run = dtls_forwards [OF sample_bitfield sample_env_ok ok sample_packet_bytes(2,1) sample_packet_carries _ env(3,5) op env(4),
      of sample_bio "v6_addr 8 8" 10, unfolded env sample_packet_bytes(3), simplified]
  show ?thesis
  proof
    show "\<exists>streams' n' p' cipher plain.
      dtls_step sample_extern sample_env (v6_addr 9 9) (v6_addr 8 8) 53 [(v6_addr 2 2000, sample_bio)] 10 sample_packet =
        ok (Loop streams' n' p', [cipher, plain]) \<and>
      is_udp_packet sample_extern (v6_addr 2 2000) (v6_addr 1 1000) [22, 254, 253] cipher \<and>
      is_udp_packet sample_extern (v6_addr 2 2000) (v6_addr 9 9) hello plain"
      using run by (fastforce simp: list_all2_Cons1)
    show "\<exists>used. bio_read sample_bio 100 sample_packet = ok (Inr hello, used)"
      using run by (auto simp: hello_def)
  qed
qed

end
