(* ===== verification/Snow_Fell.thy ===== *)
theory Snow_Fell
  imports Wire
begin

text \<open>
  \<^verbatim>\<open>src/bin/snow-fell.rs\<close>: an Ethernet bridge between a TAP interface and the associations of an SCTP
  socket. Each association owns one MAC address: the bridge's random prefix followed by the low 24
  bits of the association id.

  The system calls are the environment: a received SCTP message comes with its flags and its receive information
  (\<open>sctp_input\<close>), the result of \<^verbatim>\<open>setsockopt\<close> is a function of the option and its value, and what is sent is output. The numbers of
  the \<^verbatim>\<open>libc\<close> crate are a parameter (\<open>sctp_consts\<close>), and so is the byte order of the machine, in which the kernel writes
  a notification. The notifications and the option values are those of \<^verbatim>\<open>src/sctp/linux.rs\<close>.
\<close>

type_synonym i32 = "32 word"

record sctp_consts =
  all_assoc :: i32
  unordered :: u16
  sendall :: u16
  pr_sctp_rtx :: u16
  ipproto_sctp :: i32
  recvrcvinfo :: i32
  reset_stream_req :: i32
  reset_assoc_req :: i32
  change_assoc_req :: i32
  sctp_rcvinfo :: i32

section \<open>Notifications\<close>

definition from_ne_bytes :: "bool \<Rightarrow> buf \<Rightarrow> 'a::len word" where
  "from_ne_bytes big b = from_be_bytes (if big then b else rev b)"

text \<open>
  \<^verbatim>\<open>u32::to_be\<close> and \<^verbatim>\<open>u32::from_be\<close>: the number whose bytes in the memory of the machine are the big-endian bytes of \<open>n\<close>, and
  back.
\<close>

definition u32_to_be :: "bool \<Rightarrow> u32 \<Rightarrow> u32" where
  "u32_to_be big n = from_ne_bytes big (to_be_bytes n)"

definition u32_from_be :: "bool \<Rightarrow> u32 \<Rightarrow> u32" where
  "u32_from_be big n = from_be_bytes (if big then to_be_bytes n else rev (to_be_bytes n))"

record sn_header =
  sn_type :: u16
  sn_flags :: u16
  sn_length :: u32

definition sn_header_of_bytes :: "bool \<Rightarrow> buf \<Rightarrow> sn_header" where
  "sn_header_of_bytes big b = \<lparr>sn_type = from_ne_bytes big (sub b 0 2), sn_flags = from_ne_bytes big (sub b 2 2),
     sn_length = from_ne_bytes big (sub b 4 4)\<rparr>"

record sctp_assoc_change =
  sac_type :: u16
  sac_flags :: u16
  sac_length :: u32
  sac_state :: u16
  sac_error :: u16
  sac_outbound_streams :: u16
  sac_inbound_streams :: u16
  sac_assoc_id :: i32

definition assoc_change_of_bytes :: "bool \<Rightarrow> buf \<Rightarrow> sctp_assoc_change" where
  "assoc_change_of_bytes big b = \<lparr>sac_type = from_ne_bytes big (sub b 0 2), sac_flags = from_ne_bytes big (sub b 2 2),
     sac_length = from_ne_bytes big (sub b 4 4), sac_state = from_ne_bytes big (sub b 8 2),
     sac_error = from_ne_bytes big (sub b 10 2), sac_outbound_streams = from_ne_bytes big (sub b 12 2),
     sac_inbound_streams = from_ne_bytes big (sub b 14 2), sac_assoc_id = from_ne_bytes big (sub b 16 4)\<rparr>"

record sctp_shutdown_event =
  sse_type :: u16
  sse_flags :: u16
  sse_length :: u32
  sse_assoc_id :: i32

definition shutdown_event_of_bytes :: "bool \<Rightarrow> buf \<Rightarrow> sctp_shutdown_event" where
  "shutdown_event_of_bytes big b = \<lparr>sse_type = from_ne_bytes big (sub b 0 2), sse_flags = from_ne_bytes big (sub b 2 2),
     sse_length = from_ne_bytes big (sub b 4 4), sse_assoc_id = from_ne_bytes big (sub b 8 4)\<rparr>"

datatype sctp_sac_state = SCTP_COMM_UP | SCTP_COMM_LOST | SCTP_RESTART | SCTP_SHUTDOWN_COMP | SCTP_CANT_STR_ASSOC

fun u16_of_sac_state :: "sctp_sac_state \<Rightarrow> u16" where
  "u16_of_sac_state SCTP_COMM_UP = 0"
| "u16_of_sac_state SCTP_COMM_LOST = 1"
| "u16_of_sac_state SCTP_RESTART = 2"
| "u16_of_sac_state SCTP_SHUTDOWN_COMP = 3"
| "u16_of_sac_state SCTP_CANT_STR_ASSOC = 4"

datatype sctp_sn_type = SCTP_DATA_IO_EVENT | SCTP_ASSOC_CHANGE | SCTP_PEER_ADDR_CHANGE | SCTP_SEND_FAILED
  | SCTP_REMOTE_ERROR | SCTP_SHUTDOWN_EVENT | SCTP_PARTIAL_DELIVERY_EVENT | SCTP_ADAPTATION_INDICATION
  | SCTP_AUTHENTICATION_EVENT | SCTP_SENDER_DRY_EVENT | SCTP_STREAM_RESET_EVENT | SCTP_ASSOC_RESET_EVENT
  | SCTP_STREAM_CHANGE_EVENT | SCTP_SEND_FAILED_EVENT

fun u16_of_sn_type :: "sctp_sn_type \<Rightarrow> u16" where
  "u16_of_sn_type SCTP_DATA_IO_EVENT = 0x8000"
| "u16_of_sn_type SCTP_ASSOC_CHANGE = 0x8001"
| "u16_of_sn_type SCTP_PEER_ADDR_CHANGE = 0x8002"
| "u16_of_sn_type SCTP_SEND_FAILED = 0x8003"
| "u16_of_sn_type SCTP_REMOTE_ERROR = 0x8004"
| "u16_of_sn_type SCTP_SHUTDOWN_EVENT = 0x8005"
| "u16_of_sn_type SCTP_PARTIAL_DELIVERY_EVENT = 0x8006"
| "u16_of_sn_type SCTP_ADAPTATION_INDICATION = 0x8007"
| "u16_of_sn_type SCTP_AUTHENTICATION_EVENT = 0x8008"
| "u16_of_sn_type SCTP_SENDER_DRY_EVENT = 0x8009"
| "u16_of_sn_type SCTP_STREAM_RESET_EVENT = 0x800A"
| "u16_of_sn_type SCTP_ASSOC_RESET_EVENT = 0x800B"
| "u16_of_sn_type SCTP_STREAM_CHANGE_EVENT = 0x800C"
| "u16_of_sn_type SCTP_SEND_FAILED_EVENT = 0x800D"

section \<open>Socket options\<close>

definition SCTP_ENABLE_STREAM_RESET :: i32 where "SCTP_ENABLE_STREAM_RESET = 118"

definition SCTP_EVENT :: i32 where "SCTP_EVENT = 127"

record sctp_assoc_value =
  av_assoc_id :: i32
  av_assoc_value :: u32

record sctp_event =
  se_assoc_id :: i32
  se_type :: u16
  se_on :: byte

datatype sockopt = OptInt i32 | OptAssocValue sctp_assoc_value | OptEvent sctp_event

text \<open>The options of the socket, in the order in which they are set; each call has to succeed.\<close>

definition subscribe :: "sctp_consts \<Rightarrow> sctp_sn_type \<Rightarrow> i32 \<times> sockopt" where
  "subscribe C t = (SCTP_EVENT, OptEvent \<lparr>se_assoc_id = all_assoc C, se_type = u16_of_sn_type t, se_on = 1\<rparr>)"

definition snow_options :: "sctp_consts \<Rightarrow> (i32 \<times> sockopt) list" where
  "snow_options C =
    [(recvrcvinfo C, OptInt 1),
     (SCTP_ENABLE_STREAM_RESET, OptAssocValue \<lparr>av_assoc_id = all_assoc C,
        av_assoc_value = reset_stream_req C OR reset_assoc_req C OR change_assoc_req C\<rparr>),
     subscribe C SCTP_ASSOC_CHANGE,
     subscribe C SCTP_SHUTDOWN_EVENT]"

fun set_options :: "(i32 \<Rightarrow> sockopt \<Rightarrow> i32) \<Rightarrow> (i32 \<times> sockopt) list \<Rightarrow> unit run" where
  "set_options setsockopt [] = ok ()"
| "set_options setsockopt ((name, value) # opts) = do {
     assert (setsockopt name value = 0);
     set_options setsockopt opts }"

section \<open>The program\<close>

definition make_oui :: "byte \<Rightarrow> byte \<Rightarrow> byte \<Rightarrow> byte list" where
  "make_oui a b c = [(a AND NOT 1) OR 2, b, c, 0, 0, 0]"

text \<open>\<^verbatim>\<open>format!("{a:02x}:...")\<close>: two lower-case hexadecimal digits per byte, separated by colons.\<close>

definition hex_digit :: "byte \<Rightarrow> byte" where
  "hex_digit n = (if n < 10 then 0x30 + n else 0x57 + n)"

definition hex2 :: "byte \<Rightarrow> str" where
  "hex2 b = [hex_digit (b div 16), hex_digit (b mod 16)]"

fun fmt_mac :: "byte list \<Rightarrow> str" where
  "fmt_mac [] = []"
| "fmt_mac [b] = hex2 b"
| "fmt_mac (b # bs) = hex2 b @ [0x3A] @ fmt_mac bs"

definition assoc_mac :: "byte list \<Rightarrow> i32 \<Rightarrow> byte list" where
  "assoc_mac oui assoc_id = take 3 oui @ drop 1 (to_be_bytes assoc_id)"

text \<open>The association that a MAC address belongs to.\<close>

definition mac_assoc :: "byte list \<Rightarrow> byte list \<Rightarrow> i32 option" where
  "mac_assoc oui mac = (if take 3 mac = take 3 oui then Some (from_be_bytes (0 # drop 3 mac)) else None)"

text \<open>
  A message to send, with its send information and, for partial reliability, its policy and value. The protocol id is the
  number that the code stores, converted to big-endian.
\<close>

record sctp_message =
  snd_assoc_id :: i32
  snd_sid :: u16
  snd_flags :: u16
  snd_ppid :: u32
  snd_context :: u32
  snd_prinfo :: "(u16 \<times> u32) option"
  snd_data :: buf

datatype snow_output = SendSctp sctp_message | SendTap buf

definition tap_recv :: "sctp_consts \<Rightarrow> bool \<Rightarrow> byte list \<Rightarrow> nat \<Rightarrow> buf \<Rightarrow> snow_output list run" where
  "tap_recv C big oui len buffer =
    (if len < 14 then panic else do {
     (eth, _) \<leftarrow> from_prefix 14 ether_of_bytes buffer;
     let dst = to_be_bytes (eth_dst eth);
     let send = (\<lambda>assoc_id flags. do {
       data \<leftarrow> slice buffer 0 len;
       ok [SendSctp \<lparr>snd_assoc_id = assoc_id, snd_sid = 1, snd_flags = flags, snd_ppid = u32_to_be big 53,
         snd_context = 0, snd_prinfo = Some (pr_sctp_rtx C, 0), snd_data = data\<rparr>] });
     if dst ! 0 AND 1 \<noteq> 0 then send (all_assoc C) (unordered C OR sendall C)
     else case mac_assoc oui dst of None \<Rightarrow> ok [] | Some assoc_id \<Rightarrow> send assoc_id (unordered C) })"

text \<open>The message that opens a data channel on a new association.\<close>

definition dcep_open :: "bool \<Rightarrow> byte list \<Rightarrow> i32 \<Rightarrow> sctp_message" where
  "dcep_open big oui assoc_id =
    (let label = fmt_mac (assoc_mac oui assoc_id); protocol = str_lit ''ETHER'';
         dcep = \<lparr>msg_typ = 0x03, channel_typ = 0x81, priority = 1024, reliability_parameter = 0,
           label_len = of_nat (length label), protocol_len = of_nat (length protocol)\<rparr> in
     \<lparr>snd_assoc_id = assoc_id, snd_sid = 1, snd_flags = 0, snd_ppid = u32_to_be big 50, snd_context = 0,
       snd_prinfo = None, snd_data = dcep_as_bytes dcep @ label @ protocol\<rparr>)"

definition notification :: "bool \<Rightarrow> byte list \<Rightarrow> buf \<Rightarrow> snow_output list run" where
  "notification big oui data = do {
     assert (length data > 8);
     let header = sn_header_of_bytes big data;
     if sn_type header = u16_of_sn_type SCTP_ASSOC_CHANGE then do {
       assert (length data \<ge> 20);
       let change = assoc_change_of_bytes big data;
       if sac_state change \<noteq> u16_of_sac_state SCTP_COMM_UP then ok []
       else ok [SendSctp (dcep_open big oui (sac_assoc_id change))] }
     else if sn_type header = u16_of_sn_type SCTP_SHUTDOWN_EVENT then do {
       assert (length data \<ge> 12);
       let shutdown = shutdown_event_of_bytes big data;
       ok [] }
     else ok [] }"

record sctp_input =
  msg_trunc :: bool
  msg_eor :: bool
  msg_notification :: bool
  from_ipv6 :: bool
  cmsgs :: "(i32 \<times> i32 \<times> (u16 \<times> u32 \<times> i32)) list"
  getsockopt_result :: i32
  getsockopt_len :: nat

text \<open>
  The size of \<^verbatim>\<open>sctp_udpencaps\<close>: an association id, a \<^verbatim>\<open>sockaddr_storage\<close> of 128 bytes, aligned to 8, and a port.
\<close>

definition sctp_udpencaps_size :: nat where "sctp_udpencaps_size = 144"

text \<open>The control messages are searched for the receive information: stream, protocol id as the kernel stores it, association.\<close>

fun find_rcvinfo :: "sctp_consts \<Rightarrow> (i32 \<times> i32 \<times> 'info) list \<Rightarrow> 'info option" where
  "find_rcvinfo C [] = None"
| "find_rcvinfo C ((level, typ, inner) # cs) =
     (if level = ipproto_sctp C \<and> typ = sctp_rcvinfo C then Some inner else find_rcvinfo C cs)"

text \<open>A message of an association, by its protocol id and stream.\<close>

definition sctp_dispatch :: "bool \<Rightarrow> byte list \<Rightarrow> u16 \<times> u32 \<times> i32 \<Rightarrow> sctp_input \<Rightarrow> buf \<Rightarrow> snow_output list run" where
  "sctp_dispatch big oui = (\<lambda>(stream, rcv_ppid, assoc_id) m data.
    (let ppid = u32_from_be big rcv_ppid; mac = assoc_mac oui assoc_id in
     if ppid = 50 then ok []
     else if ppid = 51 then
       if \<not> utf8_valid data then ok []
       else do {
         assert (getsockopt_result m = 0);
         assert (getsockopt_len m = sctp_udpencaps_size);
         ok [] }
     else if ppid = 53 \<and> stream = 1 then
       (case from_prefix 14 ether_of_bytes data of None \<Rightarrow> ok []
        | Some (eth, _) \<Rightarrow> if to_be_bytes (eth_src eth) \<noteq> mac then ok [] else ok [SendTap data])
     else ok []))"

definition sctp_recv :: "sctp_consts \<Rightarrow> bool \<Rightarrow> byte list \<Rightarrow> nat \<Rightarrow> sctp_input \<Rightarrow> buf \<Rightarrow> snow_output list run" where
  "sctp_recv C big oui len m buffer =
    (if msg_trunc m then ok []
     else if \<not> msg_eor m then ok []
     else if length buffer < len then ok []
     else let data = take len buffer in
     if msg_notification m then notification big oui data
     else if \<not> from_ipv6 m then ok []
     else case find_rcvinfo C (cmsgs m) of None \<Rightarrow> ok []
     | Some info \<Rightarrow> sctp_dispatch big oui info m data)"

text \<open>
  The loops. Each event is a readable interface or socket with what its receive calls return, up to the one that would
  block, or another token, which the code holds to be unreachable. \<^verbatim>\<open>recvmsg\<close> returns -1 for an error (\<open>RecvError\<close>, with
  whether it would block); any other negative number is refused by an assertion.
\<close>

datatype recvmsg = RecvError bool | Received int sctp_input buf

fun tap_loop :: "sctp_consts \<Rightarrow> bool \<Rightarrow> byte list \<Rightarrow> (nat \<times> buf) list \<Rightarrow> snow_output list run" where
  "tap_loop C big oui [] = ok []"
| "tap_loop C big oui ((len, buffer) # recvs) = do {
     out \<leftarrow> tap_recv C big oui len buffer;
     outs \<leftarrow> tap_loop C big oui recvs;
     ok (out @ outs) }"

fun sctp_loop :: "sctp_consts \<Rightarrow> bool \<Rightarrow> byte list \<Rightarrow> recvmsg list \<Rightarrow> snow_output list run" where
  "sctp_loop C big oui [] = ok []"
| "sctp_loop C big oui (RecvError would_block # recvs) = (if would_block then ok [] else sctp_loop C big oui recvs)"
| "sctp_loop C big oui (Received res m buffer # recvs) = do {
     assert (0 \<le> res);
     out \<leftarrow> sctp_recv C big oui (nat res) m buffer;
     outs \<leftarrow> sctp_loop C big oui recvs;
     ok (out @ outs) }"

datatype snow_event = TapReady "(nat \<times> buf) list" | SctpReady "recvmsg list" | OtherReady

fun snow_server :: "sctp_consts \<Rightarrow> bool \<Rightarrow> byte list \<Rightarrow> snow_event list \<Rightarrow> snow_output list run" where
  "snow_server C big oui [] = ok []"
| "snow_server C big oui (TapReady recvs # es) = do {
     out \<leftarrow> tap_loop C big oui recvs; outs \<leftarrow> snow_server C big oui es; ok (out @ outs) }"
| "snow_server C big oui (SctpReady recvs # es) = do {
     out \<leftarrow> sctp_loop C big oui recvs; outs \<leftarrow> snow_server C big oui es; ok (out @ outs) }"
| "snow_server C big oui (OtherReady # es) = panic"

definition snow_main ::
    "sctp_consts \<Rightarrow> bool \<Rightarrow> (i32 \<Rightarrow> sockopt \<Rightarrow> i32) \<Rightarrow> byte \<times> byte \<times> byte \<Rightarrow> snow_event list \<Rightarrow> snow_output list run" where
  "snow_main C big setsockopt rand events = do {
     let (a, b, c) = rand;
     let oui = make_oui a b c;
     _ \<leftarrow> set_options setsockopt (snow_options C);
     snow_server C big oui events }"

section \<open>MAC addresses and associations\<close>

lemma u32_from_to_be [simp]: "u32_from_be big (u32_to_be big n) = n"
proof -
  have "to_be_bytes (from_be_bytes (rev (to_be_bytes n)) :: u32) = rev (to_be_bytes n)"
    by (rule to_from_be_bytes) simp_all
  then show ?thesis using from_to_be_bytes [of n] by (simp add: u32_from_be_def u32_to_be_def from_ne_bytes_def)
qed

lemma u32_to_from_be [simp]: "u32_to_be big (u32_from_be big n) = n"
proof -
  have "to_be_bytes (from_be_bytes (rev (to_be_bytes n)) :: u32) = rev (to_be_bytes n)"
    by (rule to_from_be_bytes) simp_all
  then show ?thesis using from_to_be_bytes [of n] by (simp add: u32_from_be_def u32_to_be_def from_ne_bytes_def)
qed

lemma u32_from_be_eq: "u32_from_be big n = k \<longleftrightarrow> n = u32_to_be big k"
  by (metis u32_from_to_be u32_to_from_be)

lemma u32_to_be_inject [simp]: "u32_to_be big m = u32_to_be big n \<longleftrightarrow> m = n"
  by (metis u32_from_to_be)

lemma to_be_bytes_i32_low:
  assumes "unat (w :: i32) < 2 ^ 24"
  shows "to_be_bytes w = 0 # drop 1 (to_be_bytes w)"
proof -
  have four: "(4 :: nat) = Suc (Suc (Suc (Suc 0)))" by simp
  have "be_bytes 4 n = of_nat (n div 256 div 256 div 256) # drop 1 (be_bytes 4 n)" for n
    unfolding four by simp
  from this [of "unat w"] have "to_be_bytes w = of_nat (unat w div 256 div 256 div 256) # drop 1 (to_be_bytes w)"
    by (simp add: to_be_bytes_nat)
  moreover have "unat w div 256 div 256 div 256 = 0" using assms by (simp add: div_mult2_eq [symmetric])
  ultimately show ?thesis by simp
qed

lemma oui_unicast: "hd (make_oui a b c) AND 1 = 0"
  unfolding make_oui_def list.sel by (rule bit_word_eqI) (auto simp: bit_simps)

interpretation mac_table: relay_table "\<lambda>i. Some (assoc_mac oui i)" "mac_assoc oui" "\<lambda>i. length oui = 6 \<and> unat i < 2 ^ 24"
  for oui
proof
  fix i a
  assume i: "length oui = 6 \<and> unat i < 2 ^ 24" and "Some (assoc_mac oui i) = Some a"
  then have "take 3 a = take 3 oui" "drop 3 a = drop 1 (to_be_bytes i)" by (auto simp: assoc_mac_def)
  moreover have "from_be_bytes (0 # drop 1 (to_be_bytes i)) = i"
    using to_be_bytes_i32_low [of i] i from_to_be_bytes [of i] by simp
  ultimately show "mac_assoc oui a = Some i" by (simp add: mac_assoc_def)
qed

lemma mac_assoc_Some:
  assumes "mac_assoc oui mac = Some i" and "length mac = 6"
  shows "assoc_mac oui i = mac"
proof -
  have "take 3 oui = take 3 mac" "i = from_be_bytes (0 # drop 3 mac)" using assms(1) by (simp_all add: mac_assoc_def split: if_splits)
  then have "assoc_mac oui i = take 3 mac @ drop 3 mac" using assms(2) by (simp add: assoc_mac_def to_from_be_bytes)
  then show ?thesis by simp
qed

lemma tap_recv_to_mac:
  assumes "oui = make_oui a b c" and "to_be_bytes (eth_dst h) = assoc_mac oui assoc_id" and "unat assoc_id < 2 ^ 24"
    and "frame = ether_as_bytes h @ body"
  shows "tap_recv C big oui (length frame) (frame @ slack) =
    ok [SendSctp \<lparr>snd_assoc_id = assoc_id, snd_sid = 1, snd_flags = unordered C, snd_ppid = u32_to_be big 53, snd_context = 0,
      snd_prinfo = Some (pr_sctp_rtx C, 0), snd_data = frame\<rparr>]"
proof -
  let ?d = "to_be_bytes (eth_dst h)"
  have "?d ! 0 = hd oui" "length oui = 6" by (simp_all add: assms(1,2) assoc_mac_def make_oui_def)
  then have "?d ! 0 AND 1 = 0" "mac_assoc oui ?d = Some assoc_id"
    using oui_unicast [of a b c] mac_table.find_given [of oui assoc_id] assms(1-3) by simp_all
  moreover have "14 \<le> length frame" by (simp add: assms(4) ether.length_as_bytes)
  moreover have "from_prefix 14 ether_of_bytes (frame @ slack) = Some (h, body @ slack)"
    by (simp add: assms(4) ether.from_prefix_append)
  ultimately show ?thesis by (simp add: tap_recv_def Let_def sub_def)
qed

lemma sctp_recv_tap:
  assumes "sctp_recv C big oui len m buffer = ok out" and "SendTap frame \<in> set out" and "find_rcvinfo C (cmsgs m) = Some (sid, ppid, assoc_id)"
  shows "out = [SendTap frame] \<and> frame = take len buffer \<and> sid = 1 \<and> ppid = u32_to_be big 53 \<and>
    (\<exists>eth body. from_prefix 14 ether_of_bytes frame = Some (eth, body) \<and> to_be_bytes (eth_src eth) = assoc_mac oui assoc_id)"
proof -
  have "notification big oui data = ok out \<Longrightarrow> SendTap frame \<notin> set out" for data
    by (auto simp: notification_def Let_def assert_def bind_eq_Some_conv split: if_splits)
  with assms show ?thesis
    by (auto simp: sctp_recv_def sctp_dispatch_def Let_def bind_eq_Some_conv u32_from_be_eq split: if_splits option.splits)
qed

text \<open>
  The text of an address, read back independently of how it was written: pairs of lower-case hexadecimal digits, with a colon
  between them.
\<close>

definition hex_value :: "byte \<Rightarrow> byte option" where
  "hex_value c = (if 0x30 \<le> c \<and> c \<le> 0x39 then Some (c - 0x30) else if 0x61 \<le> c \<and> c \<le> 0x66 then Some (c - 0x57) else None)"

definition hex_pair :: "byte \<Rightarrow> byte \<Rightarrow> byte option" where
  "hex_pair h l = do { x \<leftarrow> hex_value h; y \<leftarrow> hex_value l; Some (16 * x + y) }"

fun read_mac :: "str \<Rightarrow> byte list option" where
  "read_mac [h, l] = do { x \<leftarrow> hex_pair h l; Some [x] }"
| "read_mac (h # l # colon # rest) = (if colon \<noteq> 0x3A then None else do { x \<leftarrow> hex_pair h l; xs \<leftarrow> read_mac rest; Some (x # xs) })"
| "read_mac _ = None"

lemma hex_value_digit: "n < 16 \<Longrightarrow> hex_value (hex_digit n) = Some n"
proof -
  assume "n < 16"
  then have "unat n \<in> set [0..<16]" by (simp add: word_less_nat_alt)
  then have "of_nat (unat n) \<in> set (map of_nat [0..<16] :: byte list)" unfolding set_map by (rule imageI)
  then have "n \<in> set (map of_nat [0..<16])" by simp
  then show ?thesis by (auto simp: upt_rec hex_value_def hex_digit_def)
qed

lemma read_hex2: "\<exists>h l. hex2 b = [h, l] \<and> hex_pair h l = Some b"
proof -
  have "unat b < 256" using unsigned_less [of b] by simp
  then have "b div 16 < 16" "b mod 16 < 16" by (simp_all add: word_less_nat_alt unat_div unat_mod)
  moreover have "16 * (b div 16) + b mod 16 = b" by (metis mult.commute word_mod_div_equality add.commute)
  ultimately show ?thesis by (simp add: hex2_def hex_pair_def hex_value_digit)
qed

lemma read_fmt_mac: "mac \<noteq> [] \<Longrightarrow> read_mac (fmt_mac mac) = Some mac"
proof (induction mac rule: fmt_mac.induct)
  case (2 b)
  then show ?case using read_hex2 [of b] by auto
next
  case (3 b b' bs)
  obtain h l where "hex2 b = [h, l]" "hex_pair h l = Some b" using read_hex2 by blast
  then show ?case using 3 by simp
qed simp

text \<open>The message that opens a channel, byte by byte.\<close>

lemma length_fmt_mac: "mac \<noteq> [] \<Longrightarrow> length (fmt_mac mac) + 1 = 3 * length mac"
  by (induction mac rule: fmt_mac.induct) (simp_all add: hex2_def)

lemma dcep_open_bytes:
  assumes "length oui = 6" and "label = fmt_mac (assoc_mac oui assoc_id)"
  shows "snd_data (dcep_open big oui assoc_id) =
      [0x03, 0x81, 4, 0, 0, 0, 0, 0, 0, 17, 0, 5] @ label @ str_lit ''ETHER''"
    and "from_prefix 12 dcep_of_bytes (snd_data (dcep_open big oui assoc_id)) =
      Some (\<lparr>msg_typ = 0x03, channel_typ = 0x81, priority = 1024, reliability_parameter = 0, label_len = 17, protocol_len = 5\<rparr>,
        label @ str_lit ''ETHER'')"
    and "length label = 17" and "read_mac label = Some (assoc_mac oui assoc_id)"
proof -
  have mac: "length (assoc_mac oui assoc_id) = 6" using assms by (simp add: assoc_mac_def)
  then have ne: "assoc_mac oui assoc_id \<noteq> []" by auto
  from length_fmt_mac [OF this] show len: "length label = 17" using mac assms(2) by simp
  show "read_mac label = Some (assoc_mac oui assoc_id)" using read_fmt_mac [OF ne] by (simp add: assms(2))
  show "from_prefix 12 dcep_of_bytes (snd_data (dcep_open big oui assoc_id)) =
      Some (\<lparr>msg_typ = 0x03, channel_typ = 0x81, priority = 1024, reliability_parameter = 0, label_len = 17, protocol_len = 5\<rparr>,
        label @ str_lit ''ETHER'')"
    using len by (simp add: dcep_open_def Let_def dcep.from_prefix_append str_lit_def assms(2))
  show "snd_data (dcep_open big oui assoc_id) = [0x03, 0x81, 4, 0, 0, 0, 0, 0, 0, 17, 0, 5] @ label @ str_lit ''ETHER''"
    using len by (simp add: dcep_open_def Let_def str_lit_def assms(2) dcep_as_bytes_def to_be_bytes_def upt_rec)
qed

text \<open>
  What each received frame or message may make the bridge send. A frame from the TAP interface goes out whole, to every
  association when it is multicast, otherwise to the association that owns its destination address. A message of an association goes
  to the TAP interface only as VPN traffic with the association's own source address, and a notification only opens
  a channel on an association that came up.
\<close>

definition tap_output :: "sctp_consts \<Rightarrow> bool \<Rightarrow> byte list \<Rightarrow> buf \<Rightarrow> snow_output \<Rightarrow> bool" where
  "tap_output C big oui frame x \<longleftrightarrow>
    (\<exists>eth body msg. from_prefix 14 ether_of_bytes frame = Some (eth, body) \<and> x = SendSctp msg \<and>
      snd_data msg = frame \<and> snd_sid msg = 1 \<and> snd_ppid msg = u32_to_be big 53 \<and>
      (if to_be_bytes (eth_dst eth) ! 0 AND 1 \<noteq> 0 then snd_assoc_id msg = all_assoc C
       else to_be_bytes (eth_dst eth) = assoc_mac oui (snd_assoc_id msg)))"

definition sctp_output :: "sctp_consts \<Rightarrow> bool \<Rightarrow> byte list \<Rightarrow> sctp_input \<Rightarrow> buf \<Rightarrow> snow_output \<Rightarrow> bool" where
  "sctp_output C big oui m data x \<longleftrightarrow>
    (if msg_notification m
     then sn_type (sn_header_of_bytes big data) = u16_of_sn_type SCTP_ASSOC_CHANGE \<and>
       sac_state (assoc_change_of_bytes big data) = u16_of_sac_state SCTP_COMM_UP \<and>
       x = SendSctp (dcep_open big oui (sac_assoc_id (assoc_change_of_bytes big data)))
     else \<exists>assoc_id eth body. find_rcvinfo C (cmsgs m) = Some (1, u32_to_be big 53, assoc_id) \<and> x = SendTap data \<and>
       from_prefix 14 ether_of_bytes data = Some (eth, body) \<and> to_be_bytes (eth_src eth) = assoc_mac oui assoc_id)"

text \<open>
  The inputs that make the bridge panic: a notification that is shorter than its type, and a text message (protocol id 51)
  whose association has no port to read, because it is gone or because the kernel answers with another length.
\<close>

definition notification_ok :: "bool \<Rightarrow> buf \<Rightarrow> bool" where
  "notification_ok big data \<longleftrightarrow> 8 < length data \<and>
    (sn_type (sn_header_of_bytes big data) = u16_of_sn_type SCTP_ASSOC_CHANGE \<longrightarrow> 20 \<le> length data) \<and>
    (sn_type (sn_header_of_bytes big data) = u16_of_sn_type SCTP_SHUTDOWN_EVENT \<longrightarrow> 12 \<le> length data)"

definition text_without_port :: "sctp_consts \<Rightarrow> bool \<Rightarrow> sctp_input \<Rightarrow> buf \<Rightarrow> bool" where
  "text_without_port C big m data \<longleftrightarrow> from_ipv6 m \<and> utf8_valid data \<and>
    (case find_rcvinfo C (cmsgs m) of None \<Rightarrow> False | Some (_, ppid, _) \<Rightarrow> ppid = u32_to_be big 51) \<and>
    \<not> (getsockopt_result m = 0 \<and> getsockopt_len m = sctp_udpencaps_size)"

fun recvmsg_crash :: "sctp_consts \<Rightarrow> bool \<Rightarrow> recvmsg \<Rightarrow> bool" where
  "recvmsg_crash C big (RecvError would_block) \<longleftrightarrow> False"
| "recvmsg_crash C big (Received res m buffer) \<longleftrightarrow> res < 0 \<or>
     \<not> msg_trunc m \<and> msg_eor m \<and> nat res \<le> length buffer \<and>
     (if msg_notification m then \<not> notification_ok big (take (nat res) buffer)
      else text_without_port C big m (take (nat res) buffer))"

text \<open>The receive calls that are made: none after the one that would block.\<close>

definition received :: "recvmsg list \<Rightarrow> recvmsg list" where
  "received recvs = takeWhile (\<lambda>r. r \<noteq> RecvError True) recvs"

fun event_crash :: "sctp_consts \<Rightarrow> bool \<Rightarrow> snow_event \<Rightarrow> bool" where
  "event_crash C big (TapReady recvs) \<longleftrightarrow> (\<exists>(len, buffer) \<in> set recvs. len < 14)"
| "event_crash C big (SctpReady recvs) \<longleftrightarrow> (\<exists>r \<in> set (received recvs). recvmsg_crash C big r)"
| "event_crash C big OtherReady \<longleftrightarrow> True"

fun event_output :: "sctp_consts \<Rightarrow> bool \<Rightarrow> byte list \<Rightarrow> snow_event \<Rightarrow> snow_output \<Rightarrow> bool" where
  "event_output C big oui (TapReady recvs) x \<longleftrightarrow> (\<exists>(len, buffer) \<in> set recvs. tap_output C big oui (take len buffer) x)"
| "event_output C big oui (SctpReady recvs) x \<longleftrightarrow>
     (\<exists>res m buffer. Received res m buffer \<in> set (received recvs) \<and> sctp_output C big oui m (take (nat res) buffer) x)"
| "event_output C big oui OtherReady x \<longleftrightarrow> False"

text \<open>A frame is written into the buffer that it is read from: a receive call returns no more than the buffer holds.\<close>

fun tap_fits :: "snow_event \<Rightarrow> bool" where
  "tap_fits (TapReady recvs) \<longleftrightarrow> (\<forall>(len, buffer) \<in> set recvs. len \<le> length buffer)"
| "tap_fits _ \<longleftrightarrow> True"

text \<open>Each call either panics, exactly on these inputs, or sends only what its input calls for.\<close>

definition exact_outcome :: "'a list run \<Rightarrow> bool \<Rightarrow> ('a \<Rightarrow> bool) \<Rightarrow> bool" where
  "exact_outcome r crash P \<longleftrightarrow> (r = panic \<longleftrightarrow> crash) \<and> (\<forall>out. r = ok out \<longrightarrow> (\<forall>x \<in> set out. P x))"

lemma exact_outcome_panic [simp]: "exact_outcome panic crash P \<longleftrightarrow> crash"
  and exact_outcome_ok [simp]: "exact_outcome (ok out) crash P \<longleftrightarrow> \<not> crash \<and> (\<forall>x \<in> set out. P x)"
  by (auto simp: exact_outcome_def)

lemma exact_outcome_append:
  assumes "exact_outcome r c P" and "exact_outcome s d Q"
  shows "exact_outcome (do { out \<leftarrow> r; outs \<leftarrow> s; ok (out @ outs) }) (c \<or> d) (\<lambda>x. P x \<or> Q x)"
  using assms by (cases r; cases s) (auto simp: exact_outcome_def)

lemma exact_outcome_cong:
  assumes "exact_outcome r c P" and "c = d" and "\<And>x. P x \<Longrightarrow> Q x"
  shows "exact_outcome r d Q"
  using assms by (auto simp: exact_outcome_def)

lemma tap_recv_outcome:
  assumes "len \<le> length buffer"
  shows "exact_outcome (tap_recv C big oui len buffer) (len < 14) (tap_output C big oui (take len buffer))"
proof (cases "len < 14")
  case True
  then show ?thesis by (simp add: tap_recv_def)
next
  case False
  let ?eth = "ether_of_bytes (take 14 buffer)"
  let ?dst = "to_be_bytes (eth_dst ?eth)"
  have eth: "from_prefix 14 ether_of_bytes buffer = Some (?eth, drop 14 buffer)"
    "from_prefix 14 ether_of_bytes (take len buffer) = Some (?eth, drop 14 (take len buffer))"
    using False assms by (simp_all add: from_prefix_def min_absorb1)
  have "?dst = assoc_mac oui i" if "mac_assoc oui ?dst = Some i" for i
    using mac_assoc_Some [OF that] by simp
  then show ?thesis
    using False assms by (auto simp: tap_recv_def eth Let_def tap_output_def sub_def split: option.split)
qed

lemma notification_outcome:
  assumes "msg_notification m"
  shows "exact_outcome (notification big oui data) (\<not> notification_ok big data) (sctp_output C big oui m data)"
  using assms by (auto simp: notification_def notification_ok_def Let_def assert_def sctp_output_def)

lemma sctp_dispatch_outcome:
  assumes "find_rcvinfo C (cmsgs m) = Some info" and "\<not> msg_notification m" and "from_ipv6 m"
  shows "exact_outcome (sctp_dispatch big oui info m data) (text_without_port C big m data) (sctp_output C big oui m data)"
  using assms
  by (cases info) (auto simp: sctp_dispatch_def Let_def assert_def text_without_port_def sctp_output_def u32_from_be_eq split: option.split)

lemma sctp_recv_outcome:
  assumes "0 \<le> res"
  shows "exact_outcome (sctp_recv C big oui (nat res) m buffer) (recvmsg_crash C big (Received res m buffer))
    (sctp_output C big oui m (take (nat res) buffer))"
proof (cases "msg_trunc m \<or> \<not> msg_eor m \<or> length buffer < nat res")
  case True
  then show ?thesis using assms by (auto simp: sctp_recv_def)
next
  case False
  then have recv: "sctp_recv C big oui (nat res) m buffer =
      (if msg_notification m then notification big oui (take (nat res) buffer)
       else if \<not> from_ipv6 m then ok []
       else case find_rcvinfo C (cmsgs m) of None \<Rightarrow> ok [] | Some info \<Rightarrow> sctp_dispatch big oui info m (take (nat res) buffer))"
    by (simp add: sctp_recv_def Let_def)
  show ?thesis
    using False assms notification_outcome [of m big oui _ C] sctp_dispatch_outcome [of C m _ big oui]
    by (auto simp: recv text_without_port_def split: option.split)
qed

lemma tap_loop_outcome:
  assumes "tap_fits (TapReady recvs)"
  shows "exact_outcome (tap_loop C big oui recvs) (event_crash C big (TapReady recvs)) (event_output C big oui (TapReady recvs))"
  using assms
proof (induction recvs)
  case (Cons r recvs)
  obtain len buffer where r: "r = (len, buffer)" by (cases r)
  have "exact_outcome (tap_recv C big oui len buffer) (len < 14) (tap_output C big oui (take len buffer))"
    using Cons.prems r by (intro tap_recv_outcome) simp
  from exact_outcome_append [OF this Cons.IH] show ?case
    using Cons.prems by (auto simp: r elim: exact_outcome_cong)
qed simp

lemma sctp_loop_outcome:
  "exact_outcome (sctp_loop C big oui recvs) (event_crash C big (SctpReady recvs)) (event_output C big oui (SctpReady recvs))"
proof (induction recvs)
  case (Cons r recvs)
  show ?case
  proof (cases r)
    case (RecvError would_block)
    then show ?thesis using Cons.IH by (cases would_block) (auto simp: received_def elim!: exact_outcome_cong)
  next
    case (Received res m buffer)
    show ?thesis
    proof (cases "0 \<le> res")
      case True
      have reached: "received (r # recvs) = r # received recvs" by (simp add: Received received_def)
      have "event_output C big oui (SctpReady (r # recvs)) x"
        if "sctp_output C big oui m (take (nat res) buffer) x \<or> event_output C big oui (SctpReady recvs) x" for x
        using that unfolding event_output.simps reached by (auto simp: Received)
      then have "exact_outcome (do { out \<leftarrow> sctp_recv C big oui (nat res) m buffer; outs \<leftarrow> sctp_loop C big oui recvs; ok (out @ outs) })
          (event_crash C big (SctpReady (r # recvs))) (event_output C big oui (SctpReady (r # recvs)))"
        by (intro exact_outcome_cong [OF exact_outcome_append [OF sctp_recv_outcome [OF True] Cons.IH]])
          (simp_all add: reached [unfolded Received] Received del: event_output.simps recvmsg_crash.simps)
      then show ?thesis using True by (simp add: Received del: event_output.simps event_crash.simps)
    qed (simp add: Received received_def assert_def)
  qed
qed (simp add: received_def)

lemma snow_server_outcome:
  assumes "\<forall>e \<in> set es. tap_fits e"
  shows "exact_outcome (snow_server C big oui es) (\<exists>e \<in> set es. event_crash C big e) (\<lambda>x. \<exists>e \<in> set es. event_output C big oui e x)"
  using assms
proof (induction es)
  case (Cons e es)
  then have IH: "exact_outcome (snow_server C big oui es) (\<exists>e \<in> set es. event_crash C big e) (\<lambda>x. \<exists>e \<in> set es. event_output C big oui e x)"
    by simp
  show ?case
  proof (cases e)
    case (TapReady recvs)
    then have "tap_fits (TapReady recvs)" using Cons.prems by simp
    from exact_outcome_append [OF tap_loop_outcome [OF this] IH] show ?thesis
      by (auto simp only: TapReady snow_server.simps list.set bex_simps elim!: exact_outcome_cong)
  next
    case (SctpReady recvs)
    from exact_outcome_append [OF sctp_loop_outcome IH] show ?thesis
      by (auto simp only: SctpReady snow_server.simps list.set bex_simps elim!: exact_outcome_cong)
  qed simp
qed simp

lemma set_options_ok: "set_options setsockopt opts = ok () \<longleftrightarrow> (\<forall>(name, value) \<in> set opts. setsockopt name value = 0)"
  by (induction setsockopt opts rule: set_options.induct) (auto simp: assert_def)

end
