(* ===== verification/Snow_Properties.thy ===== *)
theory Snow_Properties
  imports Snow_Fell
begin

text \<open>The properties of the SCTP bridge.\<close>

text \<open>
  C7. An association can use its own MAC address only, and owns it. A frame from an association reaches the TAP interface
  only as VPN traffic (protocol id 53 on stream 1) and with the association's MAC address as source. Association ids below 2 to the 24
  have different addresses, and for them a frame from the TAP interface that is addressed to that source is sent to that same
  association, unchanged.
\<close>

theorem snow_mac_binding:
  assumes "oui = make_oui a b c" and "sctp_recv C big oui len m buffer = ok out" and "SendTap frame \<in> set out"
    and "find_rcvinfo C (cmsgs m) = Some (sid, ppid, assoc_id)"
    and "eth_dst h = eth_src (ether_of_bytes (take 14 frame))" and "reply = ether_as_bytes h @ body"
  shows "out = [SendTap frame] \<and> frame = take len buffer \<and> sid = 1 \<and> ppid = u32_to_be big 53 \<and>
    to_be_bytes (eth_src (ether_of_bytes (take 14 frame))) = assoc_mac oui assoc_id \<and>
    (\<forall>other. unat assoc_id < 2 ^ 24 \<and> unat other < 2 ^ 24 \<and> assoc_mac oui other = assoc_mac oui assoc_id \<longrightarrow> other = assoc_id) \<and>
    (unat assoc_id < 2 ^ 24 \<longrightarrow> tap_recv C big oui (length reply) (reply @ slack) =
      ok [SendSctp \<lparr>snd_assoc_id = assoc_id, snd_sid = 1, snd_flags = unordered C, snd_ppid = u32_to_be big 53, snd_context = 0,
        snd_prinfo = Some (pr_sctp_rtx C, 0), snd_data = reply\<rparr>])"
proof -
  obtain eth body' where f: "out = [SendTap frame]" "frame = take len buffer" "sid = 1" "ppid = u32_to_be big 53"
      "from_prefix 14 ether_of_bytes frame = Some (eth, body')" "to_be_bytes (eth_src eth) = assoc_mac oui assoc_id"
    using sctp_recv_tap [OF assms(2-4)] by blast
  then have eth: "eth = ether_of_bytes (take 14 frame)" by (auto simp: from_prefix_def split: if_splits)
  then have "to_be_bytes (eth_dst h) = assoc_mac oui assoc_id" using assms(5) f(6) by simp
  moreover have "length oui = 6" by (simp add: assms(1) make_oui_def)
  ultimately show ?thesis
    using f eth tap_recv_to_mac [OF assms(1) _ _ assms(6), of assoc_id C big slack] mac_table.given_once [of oui _ assoc_id] by auto
qed

definition sample_frame :: buf where
  "sample_frame = ether_as_bytes \<lparr>eth_dst = 0xFFFFFFFFFFFF, eth_src = 0x020304000007, eth_typ = 0x86DD\<rparr> @ [1, 2, 3]"

definition sample_consts :: sctp_consts where
  "sample_consts = \<lparr>all_assoc = 2, unordered = 1, sendall = 0x40, pr_sctp_rtx = 0x20, ipproto_sctp = 132, recvrcvinfo = 32,
     reset_stream_req = 1, reset_assoc_req = 2, change_assoc_req = 4, sctp_rcvinfo = 3\<rparr>"

text \<open>A little-endian machine reads the bytes 0, 0, 0, 53 of the protocol id as this number.\<close>

definition sample_input :: sctp_input where
  "sample_input = \<lparr>msg_trunc = False, msg_eor = True, msg_notification = False, from_ipv6 = True,
     cmsgs = [(1, 1, (0, 0, 0)), (132, 3, (1, 0x35000000, 7))], getsockopt_result = 0, getsockopt_len = 144\<rparr>"

lemma sample_ppids: "u32_from_be False 0x35000000 = 53" "u32_to_be False 53 = 0x35000000"
  by (simp_all add: u32_from_be_def u32_to_be_def from_ne_bytes_def to_be_bytes_def upt_rec from_be_bytes_nat be_nat_def)

lemma sample_frame_accepted:
  "sctp_recv sample_consts False (make_oui 1 3 4) 17 sample_input (sample_frame @ [9]) = ok [SendTap sample_frame]"
proof -
  have "length sample_frame = 17" by (simp add: sample_frame_def ether.length_as_bytes)
  moreover have "to_be_bytes (0x020304000007 :: 48 word) = assoc_mac (make_oui 1 3 4) 7"
    by (simp add: to_be_bytes_def assoc_mac_def make_oui_def upt_rec)
  ultimately show ?thesis
    by (simp add: sctp_recv_def sctp_dispatch_def sample_input_def sample_consts_def sample_ppids) (simp add: sample_frame_def ether.from_prefix_append)
qed

definition sample_reply :: buf where
  "sample_reply = ether_as_bytes \<lparr>eth_dst = eth_src (ether_of_bytes (take 14 sample_frame)), eth_src = 5, eth_typ = 6\<rparr> @ [8]"

theorem snow_mac_binding_witness:
  "to_be_bytes (eth_src (ether_of_bytes (take 14 sample_frame))) = assoc_mac (make_oui 1 3 4) 7 \<and>
   tap_recv sample_consts False (make_oui 1 3 4) (length sample_reply) (sample_reply @ []) =
     ok [SendSctp \<lparr>snd_assoc_id = 7, snd_sid = 1, snd_flags = 1, snd_ppid = 0x35000000, snd_context = 0,
       snd_prinfo = Some (0x20, 0), snd_data = sample_reply\<rparr>]"
  using snow_mac_binding [OF refl sample_frame_accepted, where frame = sample_frame and sid = 1 and ppid = "0x35000000" and assoc_id = 7
      and slack = "[]", OF _ _ _ sample_reply_def]
  by (simp add: sample_input_def sample_consts_def sample_ppids)

text \<open>
  C9. The bridge as a whole: exactly when it panics, and that it sends nothing but what its received frames and messages
  call for. It panics just when a socket option cannot be set, when an event has a token that was not registered, when the TAP interface delivers a frame shorter than an
  Ethernet header, or when the socket delivers a negative length, a notification shorter than its type or a text message whose association has no port to
  read; no other frame, message or notification of any length or content makes it panic, nor does any receive call after the one that would block.
  A run that does not panic sends to the TAP interface only a whole message of an association, as VPN traffic with the address of that
  association as its source. To the associations go whole frames of the TAP interface, to all of them when the frame is multicast and otherwise to
  the one whose address is the frame's destination, and the opening of a channel on an association that came up.
\<close>

theorem snow_main_isolates:
  assumes "\<forall>e \<in> set events. tap_fits e"
  shows "(snow_main C big setsockopt (a, b, c) events = panic \<longleftrightarrow>
      (\<exists>(name, value) \<in> set (snow_options C). setsockopt name value \<noteq> 0) \<or> (\<exists>e \<in> set events. event_crash C big e)) \<and>
    (\<forall>out. snow_main C big setsockopt (a, b, c) events = ok out \<longrightarrow>
      (\<forall>x \<in> set out. \<exists>e \<in> set events. event_output C big (make_oui a b c) e x))"
proof (cases "set_options setsockopt (snow_options C)")
  case None
  then have "\<not> (\<forall>(name, value) \<in> set (snow_options C). setsockopt name value = 0)" by (simp flip: set_options_ok)
  then show ?thesis using None by (auto simp: snow_main_def)
next
  case (Some u)
  then have "\<forall>(name, value) \<in> set (snow_options C). setsockopt name value = 0" by (simp flip: set_options_ok)
  then show ?thesis
    using Some snow_server_outcome [OF assms, of C big "make_oui a b c"] by (auto simp: snow_main_def exact_outcome_def)
qed

text \<open>The same bridge once without and once with a text message of an association that is gone, in little-endian order.\<close>

definition sample_events :: "i32 \<Rightarrow> snow_event list" where
  "sample_events res =
    [SctpReady [RecvError False, Received 17 sample_input (sample_frame @ [9]),
       Received 2 (sample_input\<lparr>cmsgs := [(132, 3, (0, 0x33000000, 7))], getsockopt_result := res\<rparr>) [0x68, 0x69, 0], RecvError True],
     TapReady [(15, sample_reply)]]"

lemma sample_events_crash:
  "(\<exists>e \<in> set (sample_events res). event_crash sample_consts False e) \<longleftrightarrow> res \<noteq> 0"
proof -
  have "u32_to_be False 51 = 0x33000000" "u32_to_be False 51 \<noteq> 0x35000000"
    by (simp_all add: u32_to_be_def from_ne_bytes_def to_be_bytes_def upt_rec from_be_bytes_nat be_nat_def)
  moreover have "utf8_valid [0x68, 0x69]" by simp
  ultimately show ?thesis
    by (simp add: sample_events_def received_def text_without_port_def sample_input_def sample_consts_def sctp_udpencaps_size_def)
qed

theorem snow_main_isolates_witness:
  "snow_main sample_consts False (\<lambda>_ _. 0) (1, 3, 4) (sample_events (- 1)) = panic \<and>
   (\<exists>out. snow_main sample_consts False (\<lambda>_ _. 0) (1, 3, 4) (sample_events 0) = ok out \<and>
     (\<forall>x \<in> set out. \<exists>e \<in> set (sample_events 0). event_output sample_consts False (make_oui 1 3 4) e x))"
proof -
  have "\<forall>e \<in> set (sample_events res). tap_fits e" for res
    by (simp add: sample_events_def sample_reply_def ether.length_as_bytes)
  note run = snow_main_isolates [OF this, where C = sample_consts and big = False and setsockopt = "\<lambda>_ _. 0" and a = 1 and b = 3 and c = 4,
      unfolded sample_events_crash]
  have "snow_main sample_consts False (\<lambda>_ _. 0) (1, 3, 4) (sample_events (- 1)) = panic" using run [of "- 1"] by simp
  moreover obtain out where "snow_main sample_consts False (\<lambda>_ _. 0) (1, 3, 4) (sample_events 0) = ok out"
    using run [of 0] by auto
  ultimately show ?thesis using run [of 0] by blast
qed

text \<open>
  C31. An association that comes up gets exactly one message, the opening of a data channel: on stream 1, reliable and ordered, with protocol id 50 in
  network byte order. Its data is, byte by byte, the header (message type 3, channel type 0x81, priority 1024, reliability parameter 0, lengths 17 and
  5), the label and the protocol ETHER, and that header reads back as these fields. The label is 17 characters which, read as pairs of lower-case hexadecimal digits with
  colons between them, are the six bytes of the association's address: the prefix of the bridge, locally administered and unicast, and the low
  three bytes of the association id.
\<close>

theorem snow_opens_channel:
  assumes "20 \<le> len" and "len \<le> length buffer"
    and "sn_type (sn_header_of_bytes big (take len buffer)) = u16_of_sn_type SCTP_ASSOC_CHANGE"
    and "change = assoc_change_of_bytes big (take len buffer)" and "sac_state change = u16_of_sac_state SCTP_COMM_UP"
    and "msg_notification m" and "msg_eor m" and "\<not> msg_trunc m"
  shows "\<exists>label. sctp_recv C big (make_oui a b c) len m buffer = ok [SendSctp
      \<lparr>snd_assoc_id = sac_assoc_id change, snd_sid = 1, snd_flags = 0, snd_ppid = u32_to_be big 50, snd_context = 0, snd_prinfo = None,
       snd_data = [3, 0x81, 4, 0, 0, 0, 0, 0, 0, 17, 0, 5] @ label @ str_lit ''ETHER''\<rparr>] \<and>
    length label = 17 \<and> read_mac label = Some ([(a AND NOT 1) OR 2, b, c] @ drop 1 (to_be_bytes (sac_assoc_id change))) \<and>
    from_prefix 12 dcep_of_bytes ([3, 0x81, 4, 0, 0, 0, 0, 0, 0, 17, 0, 5] @ label @ str_lit ''ETHER'') =
      Some (\<lparr>msg_typ = 3, channel_typ = 0x81, priority = 1024, reliability_parameter = 0, label_len = 17, protocol_len = 5\<rparr>,
        label @ str_lit ''ETHER'')"
proof -
  let ?oui = "make_oui a b c" and ?id = "sac_assoc_id change"
  let ?label = "fmt_mac (assoc_mac ?oui ?id)"
  have "length ?oui = 6" and mac: "assoc_mac ?oui ?id = [(a AND NOT 1) OR 2, b, c] @ drop 1 (to_be_bytes ?id)"
    by (simp_all add: make_oui_def assoc_mac_def)
  note bytes = dcep_open_bytes [OF this(1) refl]
  have "sctp_recv C big ?oui len m buffer = ok [SendSctp (dcep_open big ?oui ?id)]"
    using assms by (simp add: sctp_recv_def Let_def notification_def)
  moreover have "dcep_open big ?oui ?id = \<lparr>snd_assoc_id = ?id, snd_sid = 1, snd_flags = 0, snd_ppid = u32_to_be big 50,
      snd_context = 0, snd_prinfo = None, snd_data = snd_data (dcep_open big ?oui ?id)\<rparr>"
    by (simp add: dcep_open_def Let_def)
  ultimately have "sctp_recv C big ?oui len m buffer = ok [SendSctp
      \<lparr>snd_assoc_id = ?id, snd_sid = 1, snd_flags = 0, snd_ppid = u32_to_be big 50, snd_context = 0, snd_prinfo = None,
       snd_data = [3, 0x81, 4, 0, 0, 0, 0, 0, 0, 17, 0, 5] @ ?label @ str_lit ''ETHER''\<rparr>]"
    by (simp only: bytes(1))
  with bytes(2) [of big ?id, unfolded bytes(1)] bytes(3) [of ?id] bytes(4) [of ?id, unfolded mac]
  show ?thesis by (intro exI [of _ ?label]) (simp only: mac)
qed

text \<open>A notification of a little-endian kernel: association 7 is up.\<close>

definition sample_up :: buf where
  "sample_up = [1, 0x80, 0, 0, 20, 0, 0, 0, 0, 0, 0, 0, 1, 0, 1, 0, 7, 0, 0, 0]"

lemma sample_up_fields:
  "sn_type (sn_header_of_bytes False sample_up) = u16_of_sn_type SCTP_ASSOC_CHANGE"
  "sac_state (assoc_change_of_bytes False sample_up) = u16_of_sac_state SCTP_COMM_UP"
  "sac_assoc_id (assoc_change_of_bytes False sample_up) = 7" "length sample_up = 20"
  by (simp_all add: sn_header_of_bytes_def assoc_change_of_bytes_def sample_up_def sub_def from_ne_bytes_def
      from_be_bytes_nat be_nat_def)

theorem snow_opens_channel_witness:
  "\<exists>label. sctp_recv sample_consts False (make_oui 1 3 4) 20 (sample_input\<lparr>msg_notification := True\<rparr>) sample_up = ok [SendSctp
      \<lparr>snd_assoc_id = 7, snd_sid = 1, snd_flags = 0, snd_ppid = u32_to_be False 50, snd_context = 0, snd_prinfo = None,
       snd_data = [3, 0x81, 4, 0, 0, 0, 0, 0, 0, 17, 0, 5] @ label @ str_lit ''ETHER''\<rparr>] \<and>
    length label = 17 \<and> read_mac label = Some [2, 3, 4, 0, 0, 7]"
proof -
  have "take 20 sample_up = sample_up" by (simp add: sample_up_def)
  moreover have "drop 1 (to_be_bytes (7 :: i32)) = [0, 0, 7]" by (simp add: to_be_bytes_def upt_rec)
  ultimately show ?thesis
    using snow_opens_channel [of 20 sample_up False _ "sample_input\<lparr>msg_notification := True\<rparr>" sample_consts 1 3 4]
    by (auto simp: sample_up_fields sample_input_def)
qed

end
