(* ===== verification/Sctp_Api.thy ===== *)
theory Sctp_Api
  imports Snow_Fell
begin

text \<open>
  \<^verbatim>\<open>src/sctp/linux.rs\<close>: the rest of the socket interface. The option numbers are a table, and every \<^verbatim>\<open>repr(C)\<close> struct is its list of
  fields; \<open>c_offsets\<close> places fields as \<^verbatim>\<open>repr(C)\<close> does, each at the next multiple of its alignment. \<^verbatim>\<open>sctp_assoc_t\<close> is a 32-bit integer;
  size and alignment of \<^verbatim>\<open>sockaddr_storage\<close>, a struct of \<^verbatim>\<open>libc\<close>, are parameters. The last field of two structs is an unsized slice.

  The lemmas: fields do not overlap and are aligned, every notification begins with the fields of \<^verbatim>\<open>sn_header\<close>, which is what makes it
  right to look at the type of a notification before knowing its struct, and the functions of \<open>Snow_Fell\<close> that read notifications read at these offsets.
\<close>

section \<open>Option numbers\<close>

definition SCTP_OPTIONS :: "(string \<times> i32) list" where
  "SCTP_OPTIONS = [
    (''SCTP_RTOINFO'', 0), (''SCTP_ASSOCINFO'', 1), (''SCTP_INITMSG'', 2), (''SCTP_NODELAY'', 3), (''SCTP_AUTOCLOSE'', 4),
    (''SCTP_SET_PEER_PRIMARY_ADDR'', 5), (''SCTP_PRIMARY_ADDR'', 6), (''SCTP_ADAPTATION_LAYER'', 7),
    (''SCTP_DISABLE_FRAGMENTS'', 8), (''SCTP_PEER_ADDR_PARAMS'', 9), (''SCTP_DEFAULT_SEND_PARAM'', 10),
    (''SCTP_EVENTS'', 11), (''SCTP_I_WANT_MAPPED_V4_ADDR'', 12), (''SCTP_MAXSEG'', 13), (''SCTP_STATUS'', 14),
    (''SCTP_GET_PEER_ADDR_INFO'', 15), (''SCTP_DELAYED_ACK_TIME'', 16), (''SCTP_DELAYED_ACK'', 16),
    (''SCTP_DELAYED_SACK'', 16), (''SCTP_CONTEXT'', 17), (''SCTP_FRAGMENT_INTERLEAVE'', 18),
    (''SCTP_PARTIAL_DELIVERY_POINT'', 19), (''SCTP_MAX_BURST'', 20), (''SCTP_AUTH_CHUNK'', 21), (''SCTP_HMAC_IDENT'', 22),
    (''SCTP_AUTH_KEY'', 23), (''SCTP_AUTH_ACTIVE_KEY'', 24), (''SCTP_AUTH_DELETE_KEY'', 25), (''SCTP_PEER_AUTH_CHUNKS'', 26),
    (''SCTP_LOCAL_AUTH_CHUNKS'', 27), (''SCTP_GET_ASSOC_NUMBER'', 28), (''SCTP_GET_ASSOC_ID_LIST'', 29),
    (''SCTP_AUTO_ASCONF'', 30), (''SCTP_PEER_ADDR_THLDS'', 31), (''SCTP_RECVRCVINFO'', 32), (''SCTP_RECVNXTINFO'', 33),
    (''SCTP_DEFAULT_SNDINFO'', 34), (''SCTP_AUTH_DEACTIVATE_KEY'', 35), (''SCTP_REUSE_PORT'', 36),
    (''SCTP_PEER_ADDR_THLDS_V2'', 37)]"

definition SCTP_INTERNAL_OPTIONS :: "(string \<times> i32) list" where
  "SCTP_INTERNAL_OPTIONS = [
    (''SCTP_SOCKOPT_BINDX_ADD'', 100), (''SCTP_SOCKOPT_BINDX_REM'', 101), (''SCTP_SOCKOPT_PEELOFF'', 102),
    (''SCTP_SOCKOPT_CONNECTX_OLD'', 107), (''SCTP_GET_PEER_ADDRS'', 108), (''SCTP_GET_LOCAL_ADDRS'', 109),
    (''SCTP_SOCKOPT_CONNECTX'', 110), (''SCTP_SOCKOPT_CONNECTX3'', 111), (''SCTP_GET_ASSOC_STATS'', 112),
    (''SCTP_PR_SUPPORTED'', 113), (''SCTP_DEFAULT_PRINFO'', 114), (''SCTP_PR_ASSOC_STATUS'', 115),
    (''SCTP_PR_STREAM_STATUS'', 116), (''SCTP_RECONFIG_SUPPORTED'', 117), (''SCTP_ENABLE_STREAM_RESET'', 118),
    (''SCTP_RESET_STREAMS'', 119), (''SCTP_RESET_ASSOC'', 120), (''SCTP_ADD_STREAMS'', 121),
    (''SCTP_SOCKOPT_PEELOFF_FLAGS'', 122), (''SCTP_STREAM_SCHEDULER'', 123), (''SCTP_STREAM_SCHEDULER_VALUE'', 124),
    (''SCTP_INTERLEAVING_SUPPORTED'', 125), (''SCTP_SENDMSG_CONNECT'', 126), (''SCTP_EVENT'', 127),
    (''SCTP_ASCONF_SUPPORTED'', 128), (''SCTP_AUTH_SUPPORTED'', 129), (''SCTP_ECN_SUPPORTED'', 130),
    (''SCTP_EXPOSE_POTENTIALLY_FAILED_STATE'', 131), (''SCTP_EXPOSE_PF_STATE'', 131), (''SCTP_REMOTE_UDP_ENCAPS_PORT'', 132),
    (''SCTP_PLPMTUD_PROBE_INTERVAL'', 133)]"

text \<open>Two options have the same number only where one is defined as the other.\<close>

definition SCTP_ALIASES :: "string list" where
  "SCTP_ALIASES = [''SCTP_DELAYED_ACK'', ''SCTP_DELAYED_SACK'', ''SCTP_EXPOSE_PF_STATE'']"

section \<open>Structs\<close>

datatype c_ty = CInt nat | CFlex nat | CStorage

record c_abi =
  storage_size :: nat
  storage_align :: nat

fun c_size :: "c_abi \<Rightarrow> c_ty \<Rightarrow> nat" where
  "c_size A (CInt n) = n"
| "c_size A (CFlex n) = 0"
| "c_size A CStorage = storage_size A"

fun c_align :: "c_abi \<Rightarrow> c_ty \<Rightarrow> nat" where
  "c_align A (CInt n) = n"
| "c_align A (CFlex n) = n"
| "c_align A CStorage = storage_align A"

definition align_up :: "nat \<Rightarrow> nat \<Rightarrow> nat" where
  "align_up a n = (n + (a - 1)) div a * a"

fun c_offsets :: "c_abi \<Rightarrow> nat \<Rightarrow> (string \<times> c_ty) list \<Rightarrow> (string \<times> nat \<times> c_ty) list" where
  "c_offsets A offset [] = []"
| "c_offsets A offset ((f, t) # fs) =
     (let at = align_up (c_align A t) offset in (f, at, t) # c_offsets A (at + c_size A t) fs)"

fun c_end :: "c_abi \<Rightarrow> nat \<Rightarrow> (string \<times> c_ty) list \<Rightarrow> nat" where
  "c_end A offset [] = offset"
| "c_end A offset ((f, t) # fs) = c_end A (align_up (c_align A t) offset + c_size A t) fs"

definition c_sizeof :: "c_abi \<Rightarrow> (string \<times> c_ty) list \<Rightarrow> nat" where
  "c_sizeof A fs = align_up (foldr max (map (c_align A \<circ> snd) fs) 1) (c_end A 0 fs)"

definition sctp_assoc_change_fields :: "(string \<times> c_ty) list" where
  "sctp_assoc_change_fields = [(''sac_type'', CInt 2), (''sac_flags'', CInt 2), (''sac_length'', CInt 4),
     (''sac_state'', CInt 2), (''sac_error'', CInt 2), (''sac_outbound_streams'', CInt 2),
     (''sac_inbound_streams'', CInt 2), (''sac_assoc_id'', CInt 4)]"

definition sctp_shutdown_event_fields :: "(string \<times> c_ty) list" where
  "sctp_shutdown_event_fields = [(''sse_type'', CInt 2), (''sse_flags'', CInt 2), (''sse_length'', CInt 4),
     (''sse_assoc_id'', CInt 4)]"

definition sctp_sender_dry_event_fields :: "(string \<times> c_ty) list" where
  "sctp_sender_dry_event_fields = [(''sender_dry_type'', CInt 2), (''sender_dry_flags'', CInt 2),
     (''sender_dry_length'', CInt 4), (''sender_dry_assoc_id'', CInt 4)]"

definition sctp_stream_reset_event_fields :: "(string \<times> c_ty) list" where
  "sctp_stream_reset_event_fields = [(''strreset_type'', CInt 2), (''strreset_flags'', CInt 2),
     (''strreset_length'', CInt 4), (''strreset_assoc_id'', CInt 4), (''strreset_stream_list'', CFlex 2)]"

definition sctp_assoc_reset_event_fields :: "(string \<times> c_ty) list" where
  "sctp_assoc_reset_event_fields = [(''assocreset_type'', CInt 2), (''assocreset_flags'', CInt 2),
     (''assocreset_length'', CInt 4), (''assocreset_assoc_id'', CInt 4), (''assocreset_local_tsn'', CInt 4),
     (''assocreset_remote_tsn'', CInt 4)]"

definition sctp_stream_change_event_fields :: "(string \<times> c_ty) list" where
  "sctp_stream_change_event_fields = [(''strchange_type'', CInt 2), (''strchange_flags'', CInt 2),
     (''strchange_length'', CInt 4), (''strchange_assoc_id'', CInt 4), (''strchange_instrms'', CInt 2),
     (''strchange_outstrms'', CInt 2)]"

definition sn_header_fields :: "(string \<times> c_ty) list" where
  "sn_header_fields = [(''sn_type'', CInt 2), (''sn_flags'', CInt 2), (''sn_length'', CInt 4)]"

definition sctp_assoc_value_fields :: "(string \<times> c_ty) list" where
  "sctp_assoc_value_fields = [(''assoc_id'', CInt 4), (''assoc_value'', CInt 4)]"

definition sctp_stream_value_fields :: "(string \<times> c_ty) list" where
  "sctp_stream_value_fields = [(''assoc_id'', CInt 4), (''stream_id'', CInt 2), (''stream_value'', CInt 2)]"

definition sctp_default_prinfo_fields :: "(string \<times> c_ty) list" where
  "sctp_default_prinfo_fields = [(''pr_assoc_id'', CInt 4), (''pr_value'', CInt 4), (''pr_policy'', CInt 2)]"

definition sctp_reset_streams_fields :: "(string \<times> c_ty) list" where
  "sctp_reset_streams_fields = [(''srs_assoc_id'', CInt 4), (''srs_flags'', CInt 2), (''srs_number_streams'', CInt 2),
     (''srs_stream_list'', CFlex 2)]"

definition sctp_add_streams_fields :: "(string \<times> c_ty) list" where
  "sctp_add_streams_fields = [(''sas_assoc_id'', CInt 4), (''sas_instrms'', CInt 2), (''sas_outstrms'', CInt 2)]"

definition sctp_event_fields :: "(string \<times> c_ty) list" where
  "sctp_event_fields = [(''se_assoc_id'', CInt 4), (''se_type'', CInt 2), (''se_on'', CInt 1)]"

definition sctp_udpencaps_fields :: "(string \<times> c_ty) list" where
  "sctp_udpencaps_fields = [(''sue_assoc_id'', CInt 4), (''sue_address'', CStorage), (''sue_port'', CInt 2)]"

definition notification_structs :: "(string \<times> c_ty) list list" where
  "notification_structs = [sctp_assoc_change_fields, sctp_shutdown_event_fields, sctp_sender_dry_event_fields,
     sctp_stream_reset_event_fields, sctp_assoc_reset_event_fields, sctp_stream_change_event_fields]"

lemmas struct_defs = sctp_assoc_change_fields_def sctp_shutdown_event_fields_def sctp_sender_dry_event_fields_def
  sctp_stream_reset_event_fields_def sctp_assoc_reset_event_fields_def sctp_stream_change_event_fields_def sn_header_fields_def
  sctp_assoc_value_fields_def sctp_stream_value_fields_def sctp_default_prinfo_fields_def sctp_reset_streams_fields_def
  sctp_add_streams_fields_def sctp_event_fields_def sctp_udpencaps_fields_def

section \<open>Numbers\<close>

lemma option_numbers:
  "distinct (map snd (filter (\<lambda>(name, n). name \<notin> set SCTP_ALIASES) (SCTP_OPTIONS @ SCTP_INTERNAL_OPTIONS)))"
  "map_of (SCTP_OPTIONS @ SCTP_INTERNAL_OPTIONS) ''SCTP_ENABLE_STREAM_RESET'' = Some SCTP_ENABLE_STREAM_RESET"
  "map_of (SCTP_OPTIONS @ SCTP_INTERNAL_OPTIONS) ''SCTP_EVENT'' = Some SCTP_EVENT"
  by (simp_all add: SCTP_OPTIONS_def SCTP_INTERNAL_OPTIONS_def SCTP_ALIASES_def SCTP_ENABLE_STREAM_RESET_def SCTP_EVENT_def)

section \<open>Placement of fields\<close>

lemma align_up_props:
  assumes "0 < a"
  shows "n \<le> align_up a n" "align_up a n mod a = 0" "align_up a n < n + a"
proof -
  have "n + (a - 1) = (n + (a - 1)) div a * a + (n + (a - 1)) mod a" by simp
  moreover have "(n + (a - 1)) mod a < a" using assms by simp
  ultimately show "n \<le> align_up a n" "align_up a n < n + a" using assms unfolding align_up_def by linarith+
qed (simp add: align_up_def)

definition c_fields_ok :: "c_abi \<Rightarrow> (string \<times> c_ty) list \<Rightarrow> bool" where
  "c_fields_ok A fs \<longleftrightarrow> (\<forall>(f, t) \<in> set fs. 0 < c_align A t)"

lemma c_offsets_from:
  "c_fields_ok A fs \<Longrightarrow> (f, at, t) \<in> set (c_offsets A offset fs) \<Longrightarrow>
    offset \<le> at \<and> at mod c_align A t = 0 \<and> at + c_size A t \<le> c_end A offset fs"
proof (induction A offset fs rule: c_offsets.induct)
  case (2 A offset g u fs)
  let ?at = "align_up (c_align A u) offset"
  have u: "0 < c_align A u" and fs: "c_fields_ok A fs" using "2.prems"(1) by (simp_all add: c_fields_ok_def)
  have le: "c_fields_ok A fs \<Longrightarrow> n \<le> c_end A n fs" for n
    by (induction A n fs rule: c_end.induct)
      (auto simp: c_fields_ok_def intro: order_trans [OF align_up_props(1)] order_trans [OF le_add1])
  show ?case
    using "2.prems"(2) "2.IH" [OF refl fs] align_up_props [OF u, of offset] le [OF fs, of "?at + c_size A u"]
    by (auto simp: Let_def)
qed simp

text \<open>Fields lie one after another, aligned, within the struct.\<close>

lemma c_offsets_sorted:
  "c_fields_ok A fs \<Longrightarrow> sorted_wrt (\<lambda>(f, at, t) (g, at', t'). at + c_size A t \<le> at') (c_offsets A offset fs)"
proof (induction A offset fs rule: c_offsets.induct)
  case (2 A offset g u fs)
  have fs: "c_fields_ok A fs" using "2.prems"(1) by (simp add: c_fields_ok_def)
  then show ?case using "2.IH" [OF refl fs] c_offsets_from [OF fs] by (fastforce simp: Let_def)
qed simp

lemma notification_header:
  assumes "fs \<in> set notification_structs"
  shows "map snd (take 3 (c_offsets A 0 fs)) = map snd (c_offsets A 0 sn_header_fields)"
  using assms unfolding notification_structs_def
  by (auto simp: struct_defs align_up_def Let_def)

lemma notification_offsets:
  "c_offsets A 0 sn_header_fields = [(''sn_type'', 0, CInt 2), (''sn_flags'', 2, CInt 2), (''sn_length'', 4, CInt 4)]"
  "map (fst \<circ> snd) (c_offsets A 0 sctp_assoc_change_fields) = [0, 2, 4, 8, 10, 12, 14, 16]"
  "map (fst \<circ> snd) (c_offsets A 0 sctp_shutdown_event_fields) = [0, 2, 4, 8]"
  "c_sizeof A sn_header_fields = 8" "c_sizeof A sctp_assoc_change_fields = 20" "c_sizeof A sctp_shutdown_event_fields = 12"
  by (simp_all add: struct_defs align_up_def Let_def c_sizeof_def)

text \<open>With the \<^verbatim>\<open>sockaddr_storage\<close> of Linux, 128 bytes aligned to 8, the struct of the encapsulation port has the size that the bridge expects.\<close>

lemma udpencaps_size:
  "c_sizeof \<lparr>storage_size = 128, storage_align = 8\<rparr> sctp_udpencaps_fields = sctp_udpencaps_size"
  by (simp add: struct_defs align_up_def c_sizeof_def sctp_udpencaps_size_def)

text \<open>The type of a notification is the same, read as a header or as its own struct.\<close>

lemma notification_type:
  "sn_type (sn_header_of_bytes big b) = sac_type (assoc_change_of_bytes big b)"
  "sn_type (sn_header_of_bytes big b) = sse_type (shutdown_event_of_bytes big b)"
  by (simp_all add: sn_header_of_bytes_def assoc_change_of_bytes_def shutdown_event_of_bytes_def)

end
