(* ===== verification/Spec2Isabelle.thy ===== *)
theory Spec2Isabelle
  imports Stun_Error Rfc5769 Stun_Properties Turn_Properties Ice_Properties Udp_Properties Tcp_Properties Dtls_Properties Snow_Properties Sctp_Api
begin

text \<open>
  A verification development for masquerade, a set of WebRTC network services written in Rust. The crate has a library and
  five programs; paths below are relative to \<^verbatim>\<open>src/src\<close>.

  \<^bold>\<open>The program and its parts.\<close> The library holds a STUN codec (\<^verbatim>\<open>stun/\<close>), packet headers with the Internet checksum
  (\<^verbatim>\<open>wire/mod.rs\<close>), the two TURN handlers (\<^verbatim>\<open>common/mod.rs\<close>) and definitions of the Linux SCTP socket interface
  (\<^verbatim>\<open>sctp/linux.rs\<close>). \<^verbatim>\<open>bin/turnserver-udp.rs\<close> and \<^verbatim>\<open>bin/turnserver-tcp.rs\<close> receive a client's STUN message and call
  \<^verbatim>\<open>handle_turn\<close>, which builds a response in the buffer of the request or writes a UDP packet to a TUN interface; what comes
  back from that interface goes through \<^verbatim>\<open>handle_net\<close>, which turns it into a Data indication for a client. There is no allocation
  state: a client's relayed address is computed from its own address (UDP) or from the key of its connection (TCP). \<^verbatim>\<open>bin/ice-dissolve.rs\<close>
  answers ICE connectivity checks on a TUN interface, \<^verbatim>\<open>bin/dtls-proxy.rs\<close> terminates DTLS and SRTP in front of a plaintext endpoint, and
  \<^verbatim>\<open>bin/snow-fell.rs\<close> bridges a TAP interface and SCTP associations.

  \<^bold>\<open>How code is modelled.\<close> Running code is a value of \<open>'a run\<close>, an option: \<open>panic\<close> is \<open>None\<close> and every out-of-range
  slice, failed assertion, \<^verbatim>\<open>unwrap\<close> and arithmetic overflow is a panic; an error that the code returns is a value (a sum type, an
  option or a constructor of a control type). Machine integers are words, with checked operations (\<open>add_ck\<close>, \<open>sub_ck\<close>, \<open>mul_ck\<close>) where
  the code uses plain operators. Buffers are byte lists, a borrowed slice is its offset and its bytes, a Rust struct is a record.
  Code in other crates is a parameter, with its documented behaviour as a named hypothesis: the bit ranges of the bitfield crate
  (\<open>bitfield\<close>, \<open>bitfield_ok\<close>), HMAC-SHA1, MD5 and CRC-32 (\<open>extern\<close>; only the sizes of their results are used), subnets (\<open>ipnet\<close>,
  \<open>ipnet_ok\<close>), the numbers of libc (\<open>sctp_consts\<close>). What system calls, OpenSSL, SRTP, the clock, the random generator and the slab's
  choice of a key (\<open>vacant_ok\<close>) return is input, and what is sent is output; the hypotheses \<open>turn_ok\<close>, \<open>tcp_event_ok\<close>, \<open>recv_event_ok\<close>, \<open>env_ok\<close>, \<open>received_ok\<close>, \<open>tap_fits\<close> say what
  the code relies on there (a receive is no longer than the buffer, a read of pending plaintext makes no callback).

  \<^bold>\<open>The theories.\<close>
  \<^item> \<open>Prelude\<close>: panics, checked arithmetic, slices, big-endian bytes, UTF-8, socket addresses, and the locale \<open>relay_table\<close>: keys have
    addresses from which the keys are found again. It is interpreted for the keys of TCP connections and for the associations of the bridge.
  \<^item> \<open>Wire\<close> (\<^verbatim>\<open>wire/mod.rs\<close>): header records and their layouts. The locale \<open>wire_layout\<close> (size, writing and reading are inverse) is
    interpreted for all eight headers. The checksum loop equals the one's complement sum and does not overflow for up to 131072 bytes.
  \<^item> \<open>Stun_Header\<close> (\<^verbatim>\<open>stun/mod.rs\<close>, \<^verbatim>\<open>stun/util.rs\<close>, \<^verbatim>\<open>stun/stun.rs\<close>): field accessors, \<open>decode\<close>, class and method. \<open>Declared\<close>: the
    macros \<^verbatim>\<open>declare!\<close> and \<^verbatim>\<open>declare_fields!\<close> as functions from declarations to layouts, with the accessors, the length and the iterator that they
    generate; every accepted declaration gives fields that do not overlap, and the declaration of \<^verbatim>\<open>Stun\<close> gives the accessors of \<open>Stun_Header\<close>.
    \<open>Stun_Error\<close> (\<^verbatim>\<open>stun/error.rs\<close>): how errors are printed and converted, and what the \<^verbatim>\<open>Debug\<close> instance of a message reads.
  \<^item> \<open>Stun_Attr\<close> (\<^verbatim>\<open>stun/attr.rs\<close>, \<^verbatim>\<open>stun/attr/attrs.rs\<close>, \<^verbatim>\<open>Stun::append\<close>): the attribute iterator and append. The inductive \<open>tiles\<close> is
    the abstract view, a list of attributes; the iterator yields it and append extends it. The locale \<open>attr_codec\<close> is the contract of an
    attribute type (announced size, writing, decoding).
  \<^item> \<open>Attr_Values\<close> (\<^verbatim>\<open>stun/attr/values.rs\<close>, \<^verbatim>\<open>stun/attr/integrity.rs\<close>, \<^verbatim>\<open>stun/rfc8445.rs\<close>, \<^verbatim>\<open>stun/rfc8489.rs\<close>, \<^verbatim>\<open>stun/rfc8656.rs\<close>): every
    decoder and encoder, all but ICMP (which has no decoding) with an interpretation of \<open>attr_codec\<close>.
    \<open>Attr_Table\<close>: which attribute number has which value type, and one interpretation of \<open>attr_codec\<close> for the whole table. \<open>Attr_Parse\<close> (\<^verbatim>\<open>stun/attr/parse.rs\<close>): the chain of parsers.
  \<^item> \<open>Common\<close> (\<^verbatim>\<open>common/mod.rs\<close>): \<open>udp_checksum_fill\<close>, \<open>handle_turn\<close>, \<open>handle_net\<close>. \<open>Turn_Replies\<close> holds the abstract policy
    \<open>turn_spec\<close> and the responses it asks for, \<open>Relay\<close> the packets and Data indications, \<open>Turn_Server\<close> the refinement.
  \<^item> \<open>Subnets\<close>, \<open>Turn_Udp\<close> (\<^verbatim>\<open>bin/turnserver-udp.rs\<close>): the address mappings, with the locale \<open>address_map\<close> (a mapping and its inverse)
    interpreted in both directions, the two handlers, the loops, the program; and that packets come from the relayed addresses of
    clients that were heard.
  \<^item> \<open>Addr_Order\<close>: the order of socket addresses as an instance of \<open>linorder\<close>. \<open>Turn_Tcp\<close> (\<^verbatim>\<open>bin/turnserver-tcp.rs\<close>): keys and
    addresses, frames and partial writes, the read loop, and the inductive step relation
    \<open>tcp_step\<close> over accepting, packets and stream events, with its invariant by rule induction. \<open>Tcp_Server\<close>: the event loop and the
    program as functions, which refine the step relation.
  \<^item> \<open>Ice_Dissolve\<close> (\<^verbatim>\<open>bin/ice-dissolve.rs\<close>), \<open>Dtls_Proxy\<close> (\<^verbatim>\<open>bin/dtls-proxy.rs\<close>), \<open>Snow_Fell\<close> (\<^verbatim>\<open>bin/snow-fell.rs\<close>):
    the other programs, each with its handlers, its loop and what a run may send. \<open>Sctp_Api\<close>: the option numbers and the \<^verbatim>\<open>repr(C)\<close>
    structs of \<^verbatim>\<open>sctp/linux.rs\<close>, with the placement of their fields.
  \<^item> \<open>Rfc5769\<close> (\<^verbatim>\<open>stun/rfc5769.rs\<close>): the assertions of the unit test on the sample request of RFC 5769.
  \<^item> \<open>Samples\<close> and the theories named \<open>_Properties\<close>: concrete inputs, the properties (C1 to C40) and their witnesses.

  \<^bold>\<open>What is shown.\<close> The codec: the iterator ends and yields disjoint attributes in order on every buffer, append refines appending to
  the list, every value decodes to what was encoded, a chain of parsers finds the first attribute of each type that is not too late.
  The TURN server: \<open>handle_turn\<close> refines the policy, a success needs a verifying MESSAGE-INTEGRITY, a Send indication becomes a packet and a packet
  becomes a Data indication, two clients reach each other through the UDP and the TCP server, and no server sends a packet from
  an address other than the relayed address of the client that asked for it (TCP) or of some client that was heard (UDP). The other programs: what they answer, whom they may
  send to, and which addresses a peer may use. The two TURN servers, the ICE responder and the DTLS proxy never panic, under the hypotheses named above and for buffers of the sizes below. The bridge can: its theorem lists
  exactly the inputs on which it does, and one of them, a text message of an association that is gone, can come from a peer.

  \<^bold>\<open>Bounds.\<close> 100 bytes are enough for every TURN response and 124 for an ICE response (\<open>total_room\<close> of the policy's values); the
  servers' buffers have 65536 bytes. Data of a Data indication is at most 65504 bytes, the most that fits the 16-bit length with the
  headers, and the buffer's size is a multiple of four so that the padding fits. The DTLS proxy's packet has 4096 bytes. A TCP key is
  below \<open>2 ^ (143 - prefix)\<close>, the host bits of the subnet and 15 bits of the port; an association id is below \<open>2 ^ 24\<close>, the
  bits that its MAC address has. No model uses fuel: the iterator, the parsers and the checksum have termination proofs, and loops over system calls
  recurse on the list of their results, where the end of the list means that the loop is still running.

  \<^bold>\<open>Not modelled.\<close> Parsing of the command line (but for the subnets, which the servers' own code reads), logging, opening sockets and interfaces, the registration with the poll and the poll itself, loading
  of certificates: calls into libraries without logic of their own.
\<close>

section \<open>The relay, end to end\<close>

text \<open>
  C2. What a client sends arrives. The packet that a Send indication with peer address \<open>peer\<close> and
  data \<open>d\<close> emits, read from the TUN interface into any buffer whose size is a multiple of four, becomes a Data indication
  for \<open>peer\<close> with the sending client's relayed address as XOR-PEER-ADDRESS and \<open>d\<close> as DATA.
\<close>

theorem relay_end_to_end:
  assumes "bitfield_ok E" and "20 \<le> length msg" and "txid_of msg \<noteq> replicate 12 0" and "attrs msg = ok items"
    and "class_of msg = Indication" and "method_of msg = Send"
    and "a = turn_attrs_of items" and "ta_unknown a = None"
    and "ta_xor_peer a = Some (SocketAddr (IpV6 peer) port)" and "ta_data a = Some (ptr, d)"
    and "48 + length d \<le> length msg" and "length d \<le> 65504" and "length txid = 12"
  shows "\<exists>packet. handle_turn E canonical relayed msg = ok (None, [packet]) \<and>
    (\<forall>slack. 4 dvd length (packet @ slack) \<longrightarrow>
      (\<exists>ind x y. handle_net E txid (length packet) (packet @ slack) = ok (Some (v6_addr peer port, ind)) \<and>
        is_data_indication txid ind \<and> attrs ind = ok [x, y] \<and>
        item_typ x = XOR_PEER_ADDRESS \<and> decoded (sockaddr_decode True) x = Some (sa_of_v6 relayed) \<and>
        item_typ y = DATA \<and> item_bytes y = d))"
proof -
  obtain packet where p: "handle_turn E canonical relayed msg = ok (None, [packet])"
      "is_udp_packet E relayed (v6_addr peer port) d packet"
    using assms(1-11) by (rule handle_turn_send)
  moreover have "\<exists>ind x y. handle_net E txid (length packet) (packet @ slack) = ok (Some (v6_addr peer port, ind)) \<and>
        is_data_indication txid ind \<and> attrs ind = ok [x, y] \<and>
        item_typ x = XOR_PEER_ADDRESS \<and> decoded (sockaddr_decode True) x = Some (sa_of_v6 relayed) \<and>
        item_typ y = DATA \<and> item_bytes y = d" if "4 dvd length (packet @ slack)" for slack
    using is_udp_packet_carries [OF p(2)] assms(12) that assms(13) by (rule handle_net_packet) blast
  ultimately show ?thesis by blast
qed

theorem relay_end_to_end_witness:
  "\<exists>packet. handle_turn sample_extern sample_canonical sample_relayed send_indication = ok (None, [packet]) \<and>
    (\<forall>slack. 4 dvd length (packet @ slack) \<longrightarrow>
      (\<exists>ind x y. handle_net sample_extern sample_txid (length packet) (packet @ slack) =
          ok (Some (v6_addr 0xFE800000000000000000000000000001 0x9234, ind)) \<and>
        is_data_indication sample_txid ind \<and> attrs ind = ok [x, y] \<and>
        item_typ x = XOR_PEER_ADDRESS \<and> decoded (sockaddr_decode True) x = Some (sa_of_v6 sample_relayed) \<and>
        item_typ y = DATA \<and> item_bytes y = hello))"
  by (rule relay_end_to_end [OF sample_bitfield _ _ send_attrs _ _ refl])
    (simp_all add: send_turn_attrs sample_class_method sample_txids sample_txid_nonzero hello_def)

end
